(* ===== verification/Ex_Prelude.thy ===== *)
theory Ex_Prelude
  imports Main "HOL-Library.Word" "HOL-Library.Sublist" "HOL-Library.List_Lexorder"
begin

unbundle bit_operations_syntax

text \<open>
  Shared vocabulary of the development: the machine types of the C++ sources, the failures a
  call can end in, the size_t arithmetic of the standard library, wide string literals, and
  the generic list lemmas the component theories share.

  \<^item> \<open>byte\<close> is an (unsigned) char, \<open>wchar\<close> the 16 bit wchar_t of the Windows targets,
    \<open>xstring\<close> the std::wstring inside class XString.
  \<^item> \<open>cpp_error\<close> lists what a call of the sources can do instead of returning: throw one of the
    standard exceptions, block for ever on a lock its own thread holds, call a pure virtual
    function, or touch memory outside an object.
\<close>

type_synonym byte = "8 word"
type_synonym wchar = "16 word"
type_synonym xstring = "wchar list"
type_synonym u32 = "32 word"
type_synonym u64 = "64 word"

datatype cpp_error =
    OutOfRange
  | InvalidArgument
  | LengthError
  | SelfDeadlock
  | PureVirtualCall
  | NullDeref
  | OutOfBounds
  | AssertFailed
  | ResolveError
  | BrokenPromise
  | Uninitialised
  | JsonError

type_synonym 'a res = "cpp_error + 'a"

named_theorems step_defs \<open>definitions of the operations of a component, unfolded together\<close>
named_theorems inv_intros \<open>preservation of a component's invariant, one rule per operation\<close>

subsection \<open>size_t and the fixed-width integers\<close>

text \<open>
  size_t is 64 bits wide; \<open>npos\<close> is std::string::npos. A size_t is a \<open>nat\<close> below
  \<open>2 ^ 64\<close> with the wrap-around of its subtraction written out.
\<close>

definition npos :: nat where
  "npos = 2 ^ 64 - 1"

definition size_sub :: "nat \<Rightarrow> nat \<Rightarrow> nat" where
  "size_sub a b = (a + 2 ^ 64 - b) mod 2 ^ 64"

definition size_of_opt :: "nat option \<Rightarrow> nat" where
  "size_of_opt r = (case r of None \<Rightarrow> npos | Some i \<Rightarrow> i)"

text \<open>Conversion of a C int (or any integer) to size_t, to short and to a 32 bit int.\<close>

definition to_size :: "int \<Rightarrow> nat" where
  "to_size x = nat (x mod 2 ^ 64)"

definition to_short :: "int \<Rightarrow> int" where
  "to_short x = (x + 2 ^ 15) mod 2 ^ 16 - 2 ^ 15"

definition to_int32 :: "int \<Rightarrow> int" where
  "to_int32 x = (x + 2 ^ 31) mod 2 ^ 32 - 2 ^ 31"

lemma size_sub_le: "b \<le> a \<Longrightarrow> a < 2 ^ 64 \<Longrightarrow> size_sub a b = a - b"
proof -
  assume ab: "b \<le> a" "a < 2 ^ 64"
  then have eq: "a + 2 ^ 64 - b = (a - b) + 2 ^ 64" by simp
  have "size_sub a b = (a - b) mod 2 ^ 64"
    unfolding size_sub_def eq by (rule mod_add_self2)
  then show ?thesis using ab by simp
qed

lemma size_sub_wrap: "a < b \<Longrightarrow> b \<le> 2 ^ 64 \<Longrightarrow> size_sub a b = a + 2 ^ 64 - b"
  by (simp add: size_sub_def)

lemma to_size_nonneg: "0 \<le> x \<Longrightarrow> x < 2 ^ 64 \<Longrightarrow> to_size x = nat x"
  by (simp add: to_size_def)

lemma to_size_neg: "x < 0 \<Longrightarrow> - (2 ^ 63) \<le> x \<Longrightarrow> 2 ^ 63 \<le> to_size x"
proof -
  assume x: "x < 0" "- (2 ^ 63) \<le> x"
  have "x mod 2 ^ 64 = (x + 2 ^ 64) mod 2 ^ 64" by simp
  also have "\<dots> = x + 2 ^ 64" using x by (intro mod_pos_pos_trivial) auto
  finally show ?thesis using x by (simp add: to_size_def)
qed

lemma to_short_id: "- (2 ^ 15) \<le> x \<Longrightarrow> x < 2 ^ 15 \<Longrightarrow> to_short x = x"
  by (simp add: to_short_def)

lemma to_short_range: "- (2 ^ 15) \<le> to_short x \<and> to_short x < 2 ^ 15"
proof -
  have "0 \<le> (x + 2 ^ 15) mod 2 ^ 16" "(x + 2 ^ 15) mod 2 ^ 16 < (2::int) ^ 16"
    by simp_all
  then show ?thesis by (simp add: to_short_def)
qed

lemma to_int32_id: "- (2 ^ 31) \<le> x \<Longrightarrow> x < 2 ^ 31 \<Longrightarrow> to_int32 x = x"
  by (simp add: to_int32_def)

lemma to_int32_range: "- (2 ^ 31) \<le> to_int32 x \<and> to_int32 x < 2 ^ 31"
proof -
  have "0 \<le> (x + 2 ^ 31) mod 2 ^ 32" "(x + 2 ^ 31) mod 2 ^ 32 < (2::int) ^ 32"
    by simp_all
  then show ?thesis by (simp add: to_int32_def)
qed

subsection \<open>String literals\<close>

text \<open>\<open>wlit ''abc''\<close> is L"abc", \<open>blit ''abc''\<close> the bytes of "abc".\<close>

definition wlit :: "string \<Rightarrow> xstring" where
  "wlit s = map of_char s"

definition wchr :: "char \<Rightarrow> wchar" where
  "wchr c = of_char c"

definition blit :: "string \<Rightarrow> byte list" where
  "blit s = map of_char s"

lemma wlit_Nil [simp]: "wlit [] = []"
  by (simp add: wlit_def)

lemma length_wlit [simp]: "length (wlit s) = length s"
  by (simp add: wlit_def)

subsection \<open>Lists\<close>

lemma take_drop_split: "p + n \<le> length s \<Longrightarrow> take n (drop p s) = f \<Longrightarrow> s = take p s @ f @ drop (p + n) s"
  by (metis add.commute append_take_drop_id drop_drop)

lemma concat_map_snoc: "concat (map g (xs @ [x])) = concat (map g xs) @ g x"
  by simp

lemma length_concat_add: "length (concat (map (\<lambda>p. p @ d) ps)) = length (concat ps) + length ps * length d"
  by (induction ps) auto

lemma foldl_conj: "foldl (\<and>) b bs = (b \<and> (\<forall>x \<in> set bs. x))"
  by (induction bs arbitrary: b) auto

end
