(* ===== verification/Std_Map.thy ===== *)
theory Std_Map
  imports Ex_Prelude
begin

text \<open>
  std::map as the sources use it: an association list kept strictly sorted by key, with the
  operations contains/find/count (\<open>map_of\<close>), \<open>m[k] = v\<close>, emplace/insert (which never
  overwrite), erase and iteration in key order (the list itself). The locale \<open>ordered_map\<close>
  is the interface the client components rely on; its lemmas are what they use, and the
  interpretation \<open>smap\<close> gives them for the association list.
\<close>

subsection \<open>The interface\<close>

locale ordered_map =
  fixes empty :: "'m"
    and look :: "'m \<Rightarrow> 'k::linorder \<Rightarrow> 'v option"
    and assign :: "'k \<Rightarrow> 'v \<Rightarrow> 'm \<Rightarrow> 'm"
    and emplace :: "'k \<Rightarrow> 'v \<Rightarrow> 'm \<Rightarrow> 'm"
    and erase :: "'k \<Rightarrow> 'm \<Rightarrow> 'm"
    and entries :: "'m \<Rightarrow> ('k \<times> 'v) list"
    and ok :: "'m \<Rightarrow> bool"
  assumes look_empty: "look empty k = None"
    and look_assign: "look (assign k v m) k' = (if k' = k then Some v else look m k')"
    and look_emplace:
      "look (emplace k v m) k' = (if k' = k \<and> look m k = None then Some v else look m k')"
    and look_erase: "look (erase k m) k' = (if k' = k then None else look m k')"
    and look_entries: "ok m \<Longrightarrow> look m k = Some v \<longleftrightarrow> (k, v) \<in> set (entries m)"
    and ok_empty: "ok empty"
    and ok_assign: "ok m \<Longrightarrow> ok (assign k v m)"
    and ok_emplace: "ok m \<Longrightarrow> ok (emplace k v m)"
    and ok_erase: "ok m \<Longrightarrow> ok (erase k m)"
    and ok_sorted: "ok m \<Longrightarrow> sorted_wrt (<) (map fst (entries m))"
begin

lemmas looks = look_empty look_assign look_emplace look_erase
lemmas oks = ok_empty ok_assign ok_emplace ok_erase

lemma erase_assign: "look m k = None \<Longrightarrow> look (erase k (assign k v m)) = look m"
  by (auto simp: looks)

lemma distinct_keys: "ok m \<Longrightarrow> distinct (map fst (entries m))"
  using ok_sorted strict_sorted_iff by blast

lemma entries_assign:
  "ok m \<Longrightarrow> set (entries (assign k v m)) = insert (k, v) {e \<in> set (entries m). fst e \<noteq> k}"
proof -
  assume m: "ok m"
  have "e \<in> set (entries (assign k v m)) \<longleftrightarrow> look (assign k v m) (fst e) = Some (snd e)" for e
    using look_entries [OF ok_assign [OF m], of k v "fst e" "snd e"] by simp
  moreover have "e \<in> set (entries m) \<longleftrightarrow> look m (fst e) = Some (snd e)" for e
    using look_entries [OF m, of "fst e" "snd e"] by simp
  ultimately show ?thesis by (auto simp: look_assign split: if_splits)
qed

lemma entries_erase:
  "ok m \<Longrightarrow> set (entries (erase k m)) = {e \<in> set (entries m). fst e \<noteq> k}"
proof -
  assume m: "ok m"
  have "e \<in> set (entries (erase k m)) \<longleftrightarrow> look (erase k m) (fst e) = Some (snd e)" for e
    using look_entries [OF ok_erase [OF m], of k "fst e" "snd e"] by simp
  moreover have "e \<in> set (entries m) \<longleftrightarrow> look m (fst e) = Some (snd e)" for e
    using look_entries [OF m, of "fst e" "snd e"] by simp
  ultimately show ?thesis by (auto simp: look_erase split: if_splits)
qed

lemma entries_nil_iff: "ok m \<Longrightarrow> entries m = [] \<longleftrightarrow> (\<forall>k. look m k = None)"
proof -
  assume m: "ok m"
  show ?thesis
  proof
    assume "entries m = []"
    then show "\<forall>k. look m k = None"
      using look_entries [OF m] by (simp add: not_Some_eq [symmetric] del: not_Some_eq)
  next
    assume none: "\<forall>k. look m k = None"
    show "entries m = []"
    proof (cases "entries m")
      case (Cons e es)
      then have "(fst e, snd e) \<in> set (entries m)" by simp
      then have "look m (fst e) = Some (snd e)" by (simp only: look_entries [OF m])
      with none show ?thesis by simp
    qed simp
  qed
qed

end

subsection \<open>The sorted association list\<close>

type_synonym ('k, 'v) smap = "('k \<times> 'v) list"

fun smap_assign :: "'k::linorder \<Rightarrow> 'v \<Rightarrow> ('k, 'v) smap \<Rightarrow> ('k, 'v) smap" where
  "smap_assign k v [] = [(k, v)]"
| "smap_assign k v ((k', v') # m) =
     (if k = k' then (k, v) # m
      else if k < k' then (k, v) # (k', v') # m
      else (k', v') # smap_assign k v m)"

definition smap_emplace :: "'k::linorder \<Rightarrow> 'v \<Rightarrow> ('k, 'v) smap \<Rightarrow> ('k, 'v) smap" where
  "smap_emplace k v m = (case map_of m k of None \<Rightarrow> smap_assign k v m | Some _ \<Rightarrow> m)"

definition smap_erase :: "'k \<Rightarrow> ('k, 'v) smap \<Rightarrow> ('k, 'v) smap" where
  "smap_erase k m = filter (\<lambda>e. fst e \<noteq> k) m"

definition smap_contains :: "('k, 'v) smap \<Rightarrow> 'k \<Rightarrow> bool" where
  "smap_contains m k = (map_of m k \<noteq> None)"

definition smap_ok :: "('k::linorder, 'v) smap \<Rightarrow> bool" where
  "smap_ok m = sorted_wrt (<) (map fst m)"

lemma map_of_smap_assign: "map_of (smap_assign k v m) k' = (if k' = k then Some v else map_of m k')"
  by (induction k v m rule: smap_assign.induct) auto

lemma map_of_smap_erase: "map_of (smap_erase k m) k' = (if k' = k then None else map_of m k')"
  by (induction m) (auto simp: smap_erase_def)

lemma keys_smap_assign: "fst ` set (smap_assign k v m) = insert k (fst ` set m)"
  by (induction k v m rule: smap_assign.induct) auto

lemma smap_ok_assign: "smap_ok m \<Longrightarrow> smap_ok (smap_assign k v m)"
proof (induction k v m rule: smap_assign.induct)
  case (1 k v)
  then show ?case by (simp add: smap_ok_def)
next
  case (2 k v k' v' m)
  have keys: "x \<in> fst ` set (smap_assign k v m) \<longleftrightarrow> x = k \<or> x \<in> fst ` set m" for x
    by (simp add: keys_smap_assign)
  show ?case
  proof (cases "k = k'")
    case True
    with 2 show ?thesis by (simp add: smap_ok_def)
  next
    case neq: False
    show ?thesis
    proof (cases "k < k'")
      case True
      with 2 neq show ?thesis by (auto simp: smap_ok_def)
    next
      case False
      with neq have lt: "k' < k" by simp
      from "2.prems" have okm: "smap_ok m" and less: "\<forall>x \<in> fst ` set m. k' < x"
        by (simp_all add: smap_ok_def)
      have ok: "sorted_wrt (<) (map fst (smap_assign k v m))"
        using "2.IH" [OF neq False okm] by (simp only: smap_ok_def)
      have "\<forall>x \<in> fst ` set (smap_assign k v m). k' < x"
      proof
        fix x assume "x \<in> fst ` set (smap_assign k v m)"
        then consider "x = k" | "x \<in> fst ` set m" by (auto simp only: keys)
        then show "k' < x" using lt less by cases auto
      qed
      with ok neq False show ?thesis by (simp add: smap_ok_def)
    qed
  qed
qed

lemma smap_ok_filter: "smap_ok m \<Longrightarrow> smap_ok (filter P m)"
  by (induction m) (auto simp: smap_ok_def)

lemma smap_ok_erase: "smap_ok m \<Longrightarrow> smap_ok (smap_erase k m)"
  by (simp add: smap_erase_def smap_ok_filter)

lemma smap_ok_distinct: "smap_ok m \<Longrightarrow> distinct (map fst m)"
  using strict_sorted_iff unfolding smap_ok_def by blast

interpretation smap: ordered_map "[]" map_of smap_assign smap_emplace smap_erase "\<lambda>m. m" smap_ok
proof unfold_locales
  fix m :: "('a \<times> 'b) list" and k v
  assume "smap_ok m"
  then show "(map_of m k = Some v) = ((k, v) \<in> set m)"
    by (simp add: smap_ok_distinct)
qed (auto simp: map_of_smap_assign map_of_smap_erase smap_emplace_def smap_ok_def
        smap_ok_assign [unfolded smap_ok_def]
        smap_ok_erase [unfolded smap_ok_def] split: option.splits)

lemma smap_contains_assign [simp]:
  "smap_contains (smap_assign k v m) k' = (k' = k \<or> smap_contains m k')"
  by (simp add: smap_contains_def map_of_smap_assign)

lemma smap_contains_erase [simp]:
  "smap_contains (smap_erase k m) k' = (k' \<noteq> k \<and> smap_contains m k')"
  by (simp add: smap_contains_def map_of_smap_erase)

lemma smap_contains_Nil [simp]: "\<not> smap_contains [] k"
  by (simp add: smap_contains_def)

end
