(* ===== verification/X_String.thy ===== *)
theory X_String
  imports Ex_Prelude
begin

text \<open>
  class XString (String/EXString.hpp, String/EXString.cpp): a std::wstring with conversions,
  searching, splitting and replacing. An XString is its \<open>_str\<close>, an \<open>xstring\<close>.

  The standard library it calls is modelled here: std::wstring::find/rfind/find_last_of/substr,
  std::stoi, std::to_wstring, and towlower/towupper/iswdigit of the C locale. The Windows
  conversions MultiByteToWideChar and WideCharToMultiByte are the parameters \<open>mb2wc\<close> and
  \<open>wc2mb\<close>. A size_t result that can be npos is \<open>nat option\<close> inside a function and a number
  (with \<open>npos\<close>) where XString hands it to its caller. The loops of count, split and replaceAll
  are \<open>partial_function (option)\<close>: \<open>None\<close> means that the call never returns.
\<close>

subsection \<open>The standard library\<close>

definition towlower :: "wchar \<Rightarrow> wchar" where
  "towlower c = (if 65 \<le> c \<and> c \<le> 90 then c + 32 else c)"

definition towupper :: "wchar \<Rightarrow> wchar" where
  "towupper c = (if 97 \<le> c \<and> c \<le> 122 then c - 32 else c)"

definition iswdigit :: "wchar \<Rightarrow> bool" where
  "iswdigit c = (48 \<le> c \<and> c \<le> 57)"

definition iswspace :: "wchar \<Rightarrow> bool" where
  "iswspace c = (c = 32 \<or> (9 \<le> c \<and> c \<le> 13))"

text \<open>A const wchar_t* sees a string up to its first NUL.\<close>

definition c_str_of :: "xstring \<Rightarrow> xstring" where
  "c_str_of s = takeWhile (\<lambda>c. c \<noteq> 0) s"

fun find_at :: "'a list \<Rightarrow> 'a list \<Rightarrow> nat \<Rightarrow> nat option" where
  "find_at f [] i = (if f = [] then Some i else None)"
| "find_at f (x # xs) i = (if prefix f (x # xs) then Some i else find_at f xs (Suc i))"

definition wfind :: "'a list \<Rightarrow> 'a list \<Rightarrow> nat \<Rightarrow> nat option" where
  "wfind s f pos = (if length s < pos then None else find_at f (drop pos s) pos)"

fun wrfind :: "'a list \<Rightarrow> 'a list \<Rightarrow> nat option" where
  "wrfind [] f = (if f = [] then Some 0 else None)"
| "wrfind (x # xs) f =
     (case wrfind xs f of
        Some i \<Rightarrow> Some (Suc i)
      | None \<Rightarrow> if prefix f (x # xs) then Some 0 else None)"

fun wfind_last_of :: "'a list \<Rightarrow> 'a list \<Rightarrow> nat option" where
  "wfind_last_of [] cs = None"
| "wfind_last_of (x # xs) cs =
     (case wfind_last_of xs cs of
        Some i \<Rightarrow> Some (Suc i)
      | None \<Rightarrow> if x \<in> set cs then Some 0 else None)"

definition wsubstr :: "'a list \<Rightarrow> nat \<Rightarrow> nat \<Rightarrow> 'a list res" where
  "wsubstr s pos n = (if length s < pos then Inl OutOfRange else Inr (take n (drop pos s)))"

definition wreplace :: "'a list \<Rightarrow> nat \<Rightarrow> nat \<Rightarrow> 'a list \<Rightarrow> 'a list" where
  "wreplace s pos n t = take pos s @ t @ drop (pos + n) s"

definition wcompare :: "xstring \<Rightarrow> xstring \<Rightarrow> int" where
  "wcompare a b = (if a = b then 0 else if a < b then -1 else 1)"

definition digits_val :: "xstring \<Rightarrow> nat" where
  "digits_val ds = foldl (\<lambda>a c. a * 10 + (unat c - 48)) 0 ds"

definition wsign :: "xstring \<Rightarrow> bool \<times> xstring" where
  "wsign t = (case t of [] \<Rightarrow> (False, [])
      | c # r \<Rightarrow> if c = 45 then (True, r) else if c = 43 then (False, r) else (False, t))"

text \<open>std::stoi (and std::stol, whose long has 32 bits too on Windows), base 10.\<close>

definition stoi32 :: "xstring \<Rightarrow> int res" where
  "stoi32 s =
     (let (neg, u) = wsign (dropWhile iswspace s);
          ds = takeWhile iswdigit u;
          v = (if neg then - int (digits_val ds) else int (digits_val ds))
      in if ds = [] then Inl InvalidArgument
         else if v < - (2 ^ 31) \<or> 2 ^ 31 \<le> v then Inl OutOfRange
         else Inr v)"

fun dec_digits :: "nat \<Rightarrow> xstring" where
  "dec_digits n = (if n < 10 then [of_nat (48 + n)]
     else dec_digits (n div 10) @ [of_nat (48 + n mod 10)])"

declare dec_digits.simps [simp del]

definition to_wstring :: "int \<Rightarrow> xstring" where
  "to_wstring i = (if i < 0 then 45 # dec_digits (nat (- i)) else dec_digits (nat i))"

subsection \<open>String/EXConverter.cpp\<close>

definition s2ws :: "(byte list \<Rightarrow> xstring) \<Rightarrow> byte list \<Rightarrow> xstring" where
  "s2ws mb2wc str = (if str = [] then [] else mb2wc str)"

definition a2ws :: "(byte list \<Rightarrow> xstring) \<Rightarrow> byte list \<Rightarrow> xstring" where
  "a2ws acp2wc str = (if str = [] then [] else acp2wc str)"

definition ws2s :: "(xstring \<Rightarrow> byte list) \<Rightarrow> xstring \<Rightarrow> byte list" where
  "ws2s wc2mb wstr = (if wstr = [] then [] else wc2mb wstr)"

definition u82ws :: "(byte list \<Rightarrow> xstring) \<Rightarrow> byte list \<Rightarrow> xstring" where
  "u82ws mb2wc utf8 = s2ws mb2wc utf8"

definition ws2u8 :: "(xstring \<Rightarrow> byte list) \<Rightarrow> xstring \<Rightarrow> byte list" where
  "ws2u8 wc2mb utf16 = ws2s wc2mb utf16"

text \<open>
  A char* is \<open>None\<close> for NULL and otherwise the bytes before its terminator. The static
  member c2ws of XString and its forwarding s2ws:
\<close>

definition c2ws :: "(byte list \<Rightarrow> xstring) \<Rightarrow> byte list option \<Rightarrow> xstring" where
  "c2ws mb2wc c = (case c of None \<Rightarrow> [] | Some s \<Rightarrow> s2ws mb2wc s)"

subsection \<open>Constructors, assignments and operators (EXString.hpp)\<close>

definition xs_default :: xstring where
  "xs_default = []"

definition xs_of_cstr :: "(byte list \<Rightarrow> xstring) \<Rightarrow> byte list option \<Rightarrow> xstring" where
  "xs_of_cstr mb2wc c = (case c of None \<Rightarrow> [] | Some _ \<Rightarrow> c2ws mb2wc c)"

definition xs_of_wcstr :: "xstring option \<Rightarrow> xstring" where
  "xs_of_wcstr wc = (case wc of None \<Rightarrow> [] | Some s \<Rightarrow> c_str_of s)"

text \<open>Each (signed) char of the std::string is converted to a wchar_t on its own.\<close>

definition xs_of_uchar :: "byte list option \<Rightarrow> xstring" where
  "xs_of_uchar c = (case c of None \<Rightarrow> [] | Some s \<Rightarrow> map scast s)"

definition xs_of_dword :: "u32 \<Rightarrow> xstring" where
  "xs_of_dword dw = to_wstring (uint dw)"

definition xs_of_int :: "u32 \<Rightarrow> xstring" where
  "xs_of_int n = to_wstring (sint n)"

definition xs_of_uint :: "u32 \<Rightarrow> xstring" where
  "xs_of_uint n = to_wstring (uint n)"

definition xs_of_long :: "u32 \<Rightarrow> xstring" where
  "xs_of_long n = to_wstring (sint n)"

definition xs_of_ulonglong :: "u64 \<Rightarrow> xstring" where
  "xs_of_ulonglong ull = to_wstring (uint ull)"

definition xs_of_wstring :: "xstring \<Rightarrow> xstring" where
  "xs_of_wstring ws = ws"

definition xs_of_string :: "(byte list \<Rightarrow> xstring) \<Rightarrow> byte list \<Rightarrow> xstring" where
  "xs_of_string mb2wc s = s2ws mb2wc s"

text \<open>Assignments overwrite the old value; from a null wchar_t* or unsigned char* they are
  undefined, unlike the constructors.\<close>

definition xs_assign_wstring :: "xstring \<Rightarrow> xstring \<Rightarrow> xstring" where
  "xs_assign_wstring old ws = ws"

definition xs_assign_string :: "(byte list \<Rightarrow> xstring) \<Rightarrow> xstring \<Rightarrow> byte list \<Rightarrow> xstring" where
  "xs_assign_string mb2wc old s = s2ws mb2wc s"

definition xs_assign_cstr :: "(byte list \<Rightarrow> xstring) \<Rightarrow> xstring \<Rightarrow> byte list option \<Rightarrow> xstring" where
  "xs_assign_cstr mb2wc old c = c2ws mb2wc c"

definition xs_assign_uchar :: "(byte list \<Rightarrow> xstring) \<Rightarrow> xstring \<Rightarrow> byte list option \<Rightarrow> xstring res" where
  "xs_assign_uchar mb2wc old c =
     (case c of None \<Rightarrow> Inl NullDeref | Some s \<Rightarrow> Inr (s2ws mb2wc s))"

definition xs_assign_wcstr :: "xstring \<Rightarrow> xstring option \<Rightarrow> xstring res" where
  "xs_assign_wcstr old wc = (case wc of None \<Rightarrow> Inl NullDeref | Some s \<Rightarrow> Inr (c_str_of s))"

definition xs_assign :: "xstring \<Rightarrow> xstring \<Rightarrow> xstring" where
  "xs_assign old wc = wc"

definition xs_to_string :: "(xstring \<Rightarrow> byte list) \<Rightarrow> xstring \<Rightarrow> byte list" where
  "xs_to_string wc2mb s = (if s = [] then [] else wc2mb s)"

definition xs_append_int :: "xstring \<Rightarrow> u32 \<Rightarrow> xstring" where
  "xs_append_int s n = s @ to_wstring (sint n)"

definition xs_append :: "xstring \<Rightarrow> xstring \<Rightarrow> xstring" where
  "xs_append s xs = s @ xs"

definition xs_append_char :: "xstring \<Rightarrow> byte \<Rightarrow> xstring" where
  "xs_append_char s c = s @ [scast c]"

definition xs_append_cstr :: "(byte list \<Rightarrow> xstring) \<Rightarrow> xstring \<Rightarrow> byte list option \<Rightarrow> xstring" where
  "xs_append_cstr mb2wc s c = s @ c2ws mb2wc c"

definition xs_append_string :: "(byte list \<Rightarrow> xstring) \<Rightarrow> xstring \<Rightarrow> byte list \<Rightarrow> xstring" where
  "xs_append_string mb2wc s t = s @ s2ws mb2wc t"

definition xs_plus :: "xstring \<Rightarrow> xstring \<Rightarrow> xstring" where
  "xs_plus s xs = s @ xs"

definition xs_plus_cstr :: "(byte list \<Rightarrow> xstring) \<Rightarrow> xstring \<Rightarrow> byte list option \<Rightarrow> xstring" where
  "xs_plus_cstr mb2wc s c = s @ c2ws mb2wc c"

definition xs_plus_string :: "(byte list \<Rightarrow> xstring) \<Rightarrow> xstring \<Rightarrow> byte list \<Rightarrow> xstring" where
  "xs_plus_string mb2wc s t = s @ s2ws mb2wc t"

definition xs_eq :: "xstring \<Rightarrow> xstring \<Rightarrow> bool" where
  "xs_eq s xs = (if wcompare s xs = 0 then True else False)"

definition xs_eq_wcstr :: "xstring \<Rightarrow> xstring \<Rightarrow> bool" where
  "xs_eq_wcstr s wc = (if wcompare s (c_str_of wc) = 0 then True else False)"

subsection \<open>The member functions (EXString.cpp)\<close>

definition xs_toString :: "(xstring \<Rightarrow> byte list) \<Rightarrow> xstring \<Rightarrow> byte list" where
  "xs_toString wc2mb s = ws2s wc2mb s"

definition xs_toWString :: "xstring \<Rightarrow> xstring" where
  "xs_toWString s = s"

definition xs_toLower :: "xstring \<Rightarrow> xstring" where
  "xs_toLower s = map towlower s"

definition xs_toUpper :: "xstring \<Rightarrow> xstring" where
  "xs_toUpper s = map towupper s"

definition xs_toBool :: "xstring \<Rightarrow> bool" where
  "xs_toBool s =
     (let tmp = xs_toLower s in
      if xs_eq_wcstr tmp (wlit ''y'') \<or> xs_eq_wcstr tmp (wlit ''true'')
         \<or> xs_eq_wcstr tmp (wlit ''1'') \<or> xs_eq_wcstr tmp (wlit ''yes'')
      then True else False)"

definition xs_toInt :: "xstring \<Rightarrow> int" where
  "xs_toInt s = (case stoi32 s of Inr v \<Rightarrow> v | Inl _ \<Rightarrow> 0)"

definition xs_toLong :: "xstring \<Rightarrow> int" where
  "xs_toLong s = (case stoi32 s of Inr v \<Rightarrow> v | Inl _ \<Rightarrow> 0)"

definition xs_toCharByte :: "(xstring \<Rightarrow> byte list) \<Rightarrow> xstring \<Rightarrow> byte list" where
  "xs_toCharByte wc2mb s = ws2s wc2mb s"

definition xs_IsEmpty :: "'a list \<Rightarrow> bool" where
  "xs_IsEmpty s = (s = [])"

definition xs_IsDigit :: "xstring \<Rightarrow> bool" where
  "xs_IsDigit s = (if xs_IsEmpty s then False else list_all iswdigit s)"

definition xs_size :: "'a list \<Rightarrow> nat" where
  "xs_size s = length s"

text \<open>The loop of count: \<open>idx\<close> is where the next search starts.\<close>

partial_function (option) count_loop :: "'a list \<Rightarrow> 'a list \<Rightarrow> nat \<Rightarrow> nat \<Rightarrow> nat option" where
  "count_loop s f idx nCount =
     (case wfind s f idx of
        Some sizeFind \<Rightarrow> count_loop s f (sizeFind + length f) (nCount + 1)
      | None \<Rightarrow> Some nCount)"

declare count_loop.simps [code]

definition xs_count :: "'a list \<Rightarrow> 'a list \<Rightarrow> nat option" where
  "xs_count s f = (if xs_IsEmpty f then Some 0 else count_loop s f 0 0)"

definition xs_substr1 :: "xstring \<Rightarrow> nat \<Rightarrow> xstring res" where
  "xs_substr1 s nDst = (if nDst = npos then Inr [] else wsubstr s nDst npos)"

definition xs_substr :: "xstring \<Rightarrow> nat \<Rightarrow> nat \<Rightarrow> xstring res" where
  "xs_substr s nSrc nSize = (if nSrc = npos then Inr [] else wsubstr s nSrc nSize)"

definition xs_find_last_of :: "'a list \<Rightarrow> 'a list \<Rightarrow> nat" where
  "xs_find_last_of s xs = size_of_opt (wfind_last_of s xs)"

definition xs_find :: "'a list \<Rightarrow> 'a list \<Rightarrow> nat" where
  "xs_find s xs = size_of_opt (wfind s xs 0)"

definition xs_rfind :: "'a list \<Rightarrow> 'a list \<Rightarrow> nat" where
  "xs_rfind s xs = size_of_opt (wrfind s xs)"

text \<open>The loop of split: \<open>st\<close> is the separator found, \<open>nCurrent\<close> where the piece starts
  (never behind \<open>st\<close>), \<open>vecList\<close> the pieces so far.\<close>

partial_function (option) split_loop ::
    "'a list \<Rightarrow> 'a list \<Rightarrow> nat option \<Rightarrow> nat \<Rightarrow> 'a list list \<Rightarrow> 'a list list option" where
  "split_loop s sSplit st nCurrent vecList =
     (case st of
        None \<Rightarrow> Some vecList
      | Some p \<Rightarrow>
          split_loop s sSplit (wfind s sSplit (p + length sSplit)) (p + length sSplit)
            (vecList @ [take (p - nCurrent) (drop nCurrent s)]))"

declare split_loop.simps [code]

definition xs_split :: "'a list \<Rightarrow> 'a list \<Rightarrow> 'a list list option" where
  "xs_split s sSplit =
     (case xs_count s sSplit of
        None \<Rightarrow> None
      | Some nCnt \<Rightarrow> split_loop s sSplit (wfind s sSplit 0) 0 [])"

partial_function (option) replace_loop ::
    "'a list \<Rightarrow> 'a list \<Rightarrow> 'a list \<Rightarrow> nat option \<Rightarrow> 'a list option" where
  "replace_loop tmp xa xb idx =
     (case idx of
        None \<Rightarrow> Some tmp
      | Some i \<Rightarrow>
          replace_loop (wreplace tmp i (length xa) xb) xa xb
            (wfind (wreplace tmp i (length xa) xb) xa (i + length xb)))"

declare replace_loop.simps [code]

definition xs_replaceAll :: "'a list \<Rightarrow> 'a list \<Rightarrow> 'a list \<Rightarrow> 'a list option" where
  "xs_replaceAll s xa xb =
     (if xs_IsEmpty xa then Some s else replace_loop s xa xb (wfind s xa 0))"

definition xs_replace :: "'a list \<Rightarrow> 'a list \<Rightarrow> 'a list \<Rightarrow> 'a list" where
  "xs_replace s xa xb =
     (case wfind s xa 0 of
        Some pos \<Rightarrow> wreplace s pos (length xa) xb
      | None \<Rightarrow> s)"

text \<open>
  A \<open>std::wstring tmp{ toLower() }\<close> and the argument of starts_with/ends_with go through
  XString's operator LPCWSTR, so they end at the first NUL; find's argument does not.
\<close>

definition xs_compare :: "xstring \<Rightarrow> xstring \<Rightarrow> bool \<Rightarrow> int" where
  "xs_compare s xs isCaseInsensitive =
     (if isCaseInsensitive then wcompare (c_str_of (xs_toLower s)) (c_str_of (xs_toLower xs))
      else wcompare s xs)"

definition xs_contains :: "xstring \<Rightarrow> xstring \<Rightarrow> bool \<Rightarrow> bool" where
  "xs_contains s xs isCaseInsensitive =
     (if isCaseInsensitive then wfind (c_str_of (xs_toLower s)) (xs_toLower xs) 0 \<noteq> None
      else wfind s xs 0 \<noteq> None)"

definition xs_startswith :: "xstring \<Rightarrow> xstring \<Rightarrow> bool \<Rightarrow> bool" where
  "xs_startswith s xs isCaseInsensitive =
     (if isCaseInsensitive then prefix (c_str_of (xs_toLower xs)) (c_str_of (xs_toLower s))
      else prefix (c_str_of xs) s)"

definition xs_endswith :: "xstring \<Rightarrow> xstring \<Rightarrow> bool \<Rightarrow> bool" where
  "xs_endswith s xs isCaseInsensitive =
     (if isCaseInsensitive then suffix (c_str_of (xs_toLower xs)) (c_str_of (xs_toLower s))
      else suffix (c_str_of xs) s)"

definition xs_clear :: "xstring \<Rightarrow> xstring" where
  "xs_clear s = []"


subsection \<open>Searching\<close>

lemma find_at_Some:
  "find_at f s i = Some p \<Longrightarrow>
     i \<le> p \<and> p - i \<le> length s \<and> prefix f (drop (p - i) s) \<and> (\<forall>j < p - i. \<not> prefix f (drop j s))"
proof (induction f s i rule: find_at.induct)
  case (1 f i)
  then show ?case by (simp split: if_splits)
next
  case (2 f x xs i)
  show ?case
  proof (cases "prefix f (x # xs)")
    case True
    with 2 show ?thesis by simp
  next
    case False
    with 2 have IH: "Suc i \<le> p \<and> p - Suc i \<le> length xs \<and> prefix f (drop (p - Suc i) xs)
        \<and> (\<forall>j < p - Suc i. \<not> prefix f (drop j xs))" by simp
    then obtain k where k: "p - i = Suc k" "p - Suc i = k" by (metis Suc_diff_Suc Suc_le_lessD)
    have "\<not> prefix f (drop j (x # xs))" if "j < Suc k" for j
      using that IH False k by (cases j) auto
    with IH k show ?thesis by simp
  qed
qed

lemma find_at_None: "find_at f s i = None \<longleftrightarrow> \<not> sublist f s"
proof (induction f s i rule: find_at.induct)
  case (2 f x xs i)
  then show ?case by (auto simp: sublist_Cons_right)
qed simp

lemma find_at_shift: "find_at f s (i + k) = map_option ((+) i) (find_at f s k)"
proof (induction f s k rule: find_at.induct)
  case (2 f x xs k)
  then show ?case by (metis add_Suc_right find_at.simps(2) option.simps(9))
qed simp

lemma wfind_None: "wfind s f 0 = None \<longleftrightarrow> \<not> sublist f s"
  by (simp add: wfind_def find_at_None)

lemma wfind_Some:
  assumes "wfind s f pos = Some p"
  shows "pos \<le> p" and "p + length f \<le> length s" and "prefix f (drop p s)"
proof -
  from assms have len: "pos \<le> length s" and f: "find_at f (drop pos s) pos = Some p"
    by (auto simp: wfind_def split: if_splits)
  note * = find_at_Some [OF f]
  show "pos \<le> p" using * by simp
  then have eq: "drop (p - pos) (drop pos s) = drop p s" by simp
  have "prefix f (drop (p - pos) (drop pos s))" using * by blast
  then show pre: "prefix f (drop p s)" by (simp only: eq)
  have "p - pos \<le> length s - pos" using * by simp
  then have "p \<le> length s" using \<open>pos \<le> p\<close> len by arith
  moreover have "length f \<le> length s - p" using prefix_length_le [OF pre] by simp
  ultimately show "p + length f \<le> length s" by simp
qed

lemma wfind_append: "wfind (d @ r) f (length d) = map_option ((+) (length d)) (wfind r f 0)"
  using find_at_shift [of f r "length d" 0] by (simp add: wfind_def)

lemma wfind_first:
  assumes "wfind s f 0 = Some p" and "f \<noteq> []"
  shows "\<not> sublist f (take p s)"
proof
  assume "sublist f (take p s)"
  then obtain a b where t: "take p s = a @ f @ b" by (auto simp: sublist_def)
  from assms have p: "p \<le> length s" using wfind_Some(2) [OF assms(1)] by simp
  then have "length a + length f + length b = p" using arg_cong [OF t, of length] by simp
  with assms(2) have "length a < p" by (cases f) auto
  moreover from t have "s = a @ f @ b @ drop p s"
    by (metis append.assoc append_take_drop_id)
  then have "prefix f (drop (length a) s)"
    by (metis append_eq_conv_conj prefixI)
  ultimately show False
    using find_at_Some [of f s 0 p] assms(1) by (simp add: wfind_def)
qed

lemma wfind_Nil: "p \<le> length s \<Longrightarrow> wfind s [] p = Some p"
  by (cases "drop p s") (simp_all add: wfind_def)

subsection \<open>The pieces between separators\<close>

text \<open>
  The reference for count, split and replaceAll: the pieces of \<open>s\<close> that end at an occurrence
  of \<open>f\<close>, found from the left without overlap, and the rest after the last occurrence.
\<close>

function chunks :: "'a list \<Rightarrow> 'a list \<Rightarrow> 'a list list \<times> 'a list" where
  "chunks f s =
     (if f = [] then ([], s)
      else case wfind s f 0 of
        None \<Rightarrow> ([], s)
      | Some p \<Rightarrow> (take p s # fst (chunks f (drop (p + length f) s)),
                   snd (chunks f (drop (p + length f) s))))"
  by pat_completeness auto
termination
proof (relation "measure (\<lambda>(f, s). length s)")
  fix f s :: "'a list" and p
  assume "f \<noteq> []" and "wfind s f 0 = Some p"
  then have "length s - (p + length f) < length s"
    using wfind_Some(2) [of s f 0 p] by (cases f) auto
  then show "((f, drop (p + length f) s), f, s) \<in> measure (\<lambda>(f, s). length s)" by simp
  then show "((f, drop (p + length f) s), f, s) \<in> measure (\<lambda>(f, s). length s)" .
qed simp_all

declare chunks.simps [simp del]

lemma chunks_None: "wfind s f 0 = None \<Longrightarrow> chunks f s = ([], s)"
  by (simp add: chunks.simps)

lemma chunks_Some:
  "f \<noteq> [] \<Longrightarrow> wfind s f 0 = Some p \<Longrightarrow>
     chunks f s = (take p s # fst (chunks f (drop (p + length f) s)),
                   snd (chunks f (drop (p + length f) s)))"
  by (subst chunks.simps) simp

text \<open>Induction along the occurrences of a non-empty \<open>f\<close>.\<close>

lemma chunks_induct [consumes 1, case_names none found]:
  assumes f: "f \<noteq> []"
    and none: "\<And>s. wfind s f 0 = None \<Longrightarrow> P s"
    and found: "\<And>s p. wfind s f 0 = Some p \<Longrightarrow> P (drop (p + length f) s) \<Longrightarrow> P s"
  shows "P s"
proof (induction s rule: length_induct)
  case (1 s)
  show ?case
  proof (cases "wfind s f 0")
    case (Some p)
    then have "length (drop (p + length f) s) < length s"
      using wfind_Some(2) [OF Some] f by (cases f) auto
    with 1 Some found show ?thesis by blast
  qed (rule none)
qed

lemma wfind_split:
  assumes "wfind s f 0 = Some p"
  shows "s = take p s @ f @ drop (p + length f) s"
proof -
  have "take (length f) (drop p s) = f"
    using wfind_Some(3) [OF assms] by (metis append_eq_conv_conj prefixE)
  with wfind_Some(2) [OF assms] show ?thesis by (rule take_drop_split)
qed

lemma chunks_join:
  assumes f: "f \<noteq> []"
  shows "concat (map (\<lambda>p. p @ f) (fst (chunks f s))) @ snd (chunks f s) = s"
  using f
proof (induction s rule: chunks_induct)
  case (none s)
  then show ?case by (simp add: chunks_None)
next
  case (found s p)
  then show ?case
    using wfind_split [OF found(1)] by (simp add: chunks_Some [OF f found(1)])
qed

lemma chunks_rest_free:
  assumes f: "f \<noteq> []"
  shows "\<not> sublist f (snd (chunks f s))"
  using f
proof (induction s rule: chunks_induct)
  case (none s)
  then show ?case by (simp add: chunks_None wfind_None)
next
  case (found s p)
  then show ?case by (simp add: chunks_Some [OF f found(1)])
qed

lemma chunks_pieces_free:
  assumes f: "f \<noteq> []"
  shows "\<forall>p \<in> set (fst (chunks f s)). \<not> sublist f p"
  using f
proof (induction s rule: chunks_induct)
  case (none s)
  then show ?case by (simp add: chunks_None)
next
  case (found s p)
  then show ?case using wfind_first [OF found(1) f]
    by (simp add: chunks_Some [OF f found(1)])
qed

lemma count_loop_chunks:
  assumes f: "f \<noteq> []"
  shows "count_loop (d @ r) f (length d) n = Some (n + length (fst (chunks f r)))"
  using f
proof (induction r arbitrary: d n rule: chunks_induct)
  case (none r)
  then show ?case by (simp add: count_loop.simps wfind_append chunks_None)
next
  case (found r p)
  let ?d = "d @ take p r @ f"
  have r: "d @ r = ?d @ drop (p + length f) r" and len: "length d + p + length f = length ?d"
    using wfind_split [OF found(1)] wfind_Some(2) [OF found(1)] by simp_all
  have "count_loop (d @ r) f (length d) n = count_loop (d @ r) f (length d + p + length f) (n + 1)"
    by (subst count_loop.simps) (simp add: wfind_append found(1))
  also have "\<dots> = count_loop (?d @ drop (p + length f) r) f (length ?d) (n + 1)"
    by (simp only: r len)
  also have "\<dots> = Some (n + 1 + length (fst (chunks f (drop (p + length f) r))))"
    by (rule found(2))
  finally show ?case by (simp add: chunks_Some [OF f found(1)])
qed

lemma split_loop_chunks:
  assumes f: "f \<noteq> []"
  shows "split_loop (d @ r) f (wfind (d @ r) f (length d)) (length d) acc = Some (acc @ fst (chunks f r))"
  using f
proof (induction r arbitrary: d acc rule: chunks_induct)
  case (none r)
  then show ?case by (simp add: split_loop.simps wfind_append chunks_None)
next
  case (found r p)
  let ?d = "d @ take p r @ f"
  have r: "d @ r = ?d @ drop (p + length f) r" and len: "length d + p + length f = length ?d"
    using wfind_split [OF found(1)] wfind_Some(2) [OF found(1)] by simp_all
  have "split_loop (d @ r) f (wfind (d @ r) f (length d)) (length d) acc
      = split_loop (d @ r) f (wfind (d @ r) f (length d + p + length f)) (length d + p + length f)
          (acc @ [take p r])"
    by (subst split_loop.simps) (simp add: wfind_append found(1))
  also have "\<dots> = split_loop (?d @ drop (p + length f) r) f
      (wfind (?d @ drop (p + length f) r) f (length ?d)) (length ?d) (acc @ [take p r])"
    by (simp only: r len)
  also have "\<dots> = Some ((acc @ [take p r]) @ fst (chunks f (drop (p + length f) r)))"
    by (rule found(2))
  finally show ?case by (simp add: chunks_Some [OF f found(1)])
qed

lemma replace_loop_chunks:
  assumes f: "f \<noteq> []"
  shows "replace_loop (d @ r) f xb (wfind (d @ r) f (length d))
       = Some (d @ concat (map (\<lambda>p. p @ xb) (fst (chunks f r))) @ snd (chunks f r))"
  using f
proof (induction r arbitrary: d rule: chunks_induct)
  case (none r)
  then show ?case by (simp add: replace_loop.simps wfind_append chunks_None)
next
  case (found r p)
  let ?d = "d @ take p r @ xb" and ?r = "drop (p + length f) r"
  have tmp: "wreplace (d @ r) (length d + p) (length f) xb = ?d @ ?r"
    by (simp add: wreplace_def add.assoc)
  have len: "length d + p + length xb = length ?d"
    using wfind_Some(2) [OF found(1)] by simp
  have "replace_loop (d @ r) f xb (wfind (d @ r) f (length d))
      = replace_loop (?d @ ?r) f xb (wfind (?d @ ?r) f (length ?d))"
    by (subst replace_loop.simps) (simp add: wfind_append found(1) tmp len del: append_assoc)
  also have "\<dots> = Some (?d @ concat (map (\<lambda>p. p @ xb) (fst (chunks f ?r))) @ snd (chunks f ?r))"
    by (rule found(2))
  finally show ?case by (simp add: chunks_Some [OF f found(1)])
qed

lemma xs_count_chunks: "f \<noteq> [] \<Longrightarrow> xs_count s f = Some (length (fst (chunks f s)))"
  using count_loop_chunks [of f "[]" s 0] by (simp add: xs_count_def xs_IsEmpty_def)

lemma xs_split_chunks: "f \<noteq> [] \<Longrightarrow> xs_split s f = Some (fst (chunks f s))"
  using split_loop_chunks [of f "[]" s "[]"] by (simp add: xs_split_def xs_count_chunks)

lemma xs_replaceAll_chunks:
  "f \<noteq> [] \<Longrightarrow> xs_replaceAll s f xb
     = Some (concat (map (\<lambda>p. p @ xb) (fst (chunks f s))) @ snd (chunks f s))"
  using replace_loop_chunks [of f "[]" s xb] by (simp add: xs_replaceAll_def xs_IsEmpty_def)

text \<open>With an empty separator the search finds the same position for ever.\<close>

lemma split_loop_empty_step:
  assumes IH: "\<And>s d st cur acc r. f s d st cur acc = Some r \<Longrightarrow>
      d = [] \<longrightarrow> (\<forall>q. st = Some q \<longrightarrow> length s < q)"
    and eq: "(case st of None \<Rightarrow> Some acc
      | Some p \<Rightarrow> f s d (wfind s d (p + length d)) (p + length d)
          (acc @ [take (p - cur) (drop cur s)])) = Some r"
  shows "d = [] \<longrightarrow> (\<forall>q. st = Some q \<longrightarrow> length s < q)"
proof (intro impI allI)
  fix q assume d: "d = []" and q: "st = Some q"
  show "length s < q"
  proof (rule ccontr)
    assume "\<not> length s < q"
    then have "wfind s d q = Some q" using d by (simp add: wfind_Nil)
    with IH [of s d "Some q" q "acc @ [take (q - cur) (drop cur s)]" r] eq d q
    show False using \<open>\<not> length s < q\<close> by simp
  qed
qed

lemma split_loop_empty:
  assumes "p \<le> length s"
  shows "split_loop s [] (Some p) cur acc = None"
proof (rule ccontr)
  assume "split_loop s [] (Some p) cur acc \<noteq> None"
  then obtain r where ret: "split_loop s [] (Some p) cur acc = Some r" by blast
  have "([] :: 'a list) = [] \<longrightarrow> (\<forall>q. Some p = Some q \<longrightarrow> length s < q)"
    by (rule split_loop.raw_induct [where P = "\<lambda>s d st cur acc r.
          d = [] \<longrightarrow> (\<forall>q. st = Some q \<longrightarrow> length s < q)", OF split_loop_empty_step ret])
  with assms show False by simp
qed

subsection \<open>Numbers\<close>

lemma unat_digit: "n < 10 \<Longrightarrow> unat (of_nat (48 + n) :: wchar) = 48 + n"
  by (subst unat_of_nat) simp

lemma digit_char: "n < 10 \<Longrightarrow> iswdigit (of_nat (48 + n)) \<and> unat (of_nat (48 + n) :: wchar) - 48 = n"
  using unat_digit [of n] by (simp add: iswdigit_def word_le_nat_alt)

lemma digits_val_snoc: "digits_val (ds @ [c]) = digits_val ds * 10 + (unat c - 48)"
  by (simp add: digits_val_def)

lemma dec_digits_props:
  "digits_val (dec_digits n) = n \<and> list_all iswdigit (dec_digits n) \<and> dec_digits n \<noteq> []"
proof (induction n rule: dec_digits.induct)
  case (1 n)
  show ?case
  proof (cases "n < 10")
    case True
    with digit_char [of n] show ?thesis
      by (simp add: dec_digits.simps [of n] digits_val_def)
  next
    case False
    have "n mod 10 < 10" by simp
    note d = digit_char [OF this]
    from "1" [OF False] False d show ?thesis
      by (simp add: dec_digits.simps [of n] digits_val_snoc del: of_nat_add)
  qed
qed

lemma digits_no_space: "list_all iswdigit ds \<Longrightarrow> dropWhile iswspace ds = ds"
  by (cases ds) (auto simp: iswdigit_def iswspace_def word_le_nat_alt)

lemma digits_no_sign: "list_all iswdigit ds \<Longrightarrow> wsign ds = (False, ds)"
  by (cases ds) (auto simp: iswdigit_def wsign_def word_le_nat_alt)

lemma takeWhile_digits: "list_all iswdigit ds \<Longrightarrow> takeWhile iswdigit ds = ds"
  by (simp add: takeWhile_eq_all_conv list_all_iff)

lemma stoi32_to_wstring:
  "stoi32 (to_wstring i) = (if - (2 ^ 31) \<le> i \<and> i < 2 ^ 31 then Inr i else Inl OutOfRange)"
proof (cases "i < 0")
  case True
  have "dropWhile iswspace (45 # dec_digits (nat (- i))) = 45 # dec_digits (nat (- i))"
    by (simp add: iswspace_def)
  with True show ?thesis using dec_digits_props [of "nat (- i)"]
    by (simp add: stoi32_def to_wstring_def wsign_def takeWhile_digits)
next
  case False
  then show ?thesis using dec_digits_props [of "nat i"]
    by (simp add: stoi32_def to_wstring_def digits_no_space digits_no_sign takeWhile_digits)
qed

subsection \<open>Properties\<close>



text \<open>Split by the empty string never returns: the search succeeds for ever at position 0.\<close>

lemma split_by_empty_never_returns: "xs_split s [] = None"
  by (simp add: xs_split_def xs_count_def xs_IsEmpty_def wfind_Nil split_loop_empty)

text \<open>C20: replaceAll of a non-empty pattern always returns, and its result is the pieces split
  finds, each followed by the replacement instead of the pattern, and the unchanged rest: every
  non-overlapping occurrence is replaced once, from the left, and text that a replacement brings
  in is not searched again.\<close>

theorem replaceAll_is_split_and_join:
  assumes "xa \<noteq> []"
  shows "\<exists>ps rest. xs_split s xa = Some ps \<and> s = concat (map (\<lambda>p. p @ xa) ps) @ rest
      \<and> \<not> sublist xa rest
      \<and> xs_replaceAll s xa xb = Some (concat (map (\<lambda>p. p @ xb) ps) @ rest)"
  using assms chunks_join [OF assms, of s] chunks_rest_free [OF assms, of s]
  by (intro exI [of _ "fst (chunks xa s)"] exI [of _ "snd (chunks xa s)"])
    (simp add: xs_split_chunks xs_replaceAll_chunks)

theorem replaceAll_is_split_and_join_witness:
  "xs_replaceAll [1, 2, 2, 2 :: nat] [2] [2, 2] = Some [1, 2, 2, 2, 2, 2, 2]
   \<and> (\<exists>ps rest. xs_split [1, 2, 2, 2 :: nat] [2] = Some ps
        \<and> [1, 2, 2, 2] = concat (map (\<lambda>p. p @ [2]) ps) @ rest \<and> \<not> sublist [2] rest
        \<and> xs_replaceAll [1, 2, 2, 2] [2] [2, 2] = Some (concat (map (\<lambda>p. p @ [2, 2]) ps) @ rest))"
proof
  show "xs_replaceAll [1, 2, 2, 2 :: nat] [2] [2, 2] = Some [1, 2, 2, 2, 2, 2, 2]"
    by (simp add: xs_replaceAll_def xs_IsEmpty_def replace_loop.simps wfind_def wreplace_def)
qed (rule replaceAll_is_split_and_join, simp)

text \<open>A number written into an XString is read back by toInt: exactly for every int; for a
  DWORD as long as it fits an int, and as 0 (the swallowed out_of_range) when it does not.\<close>

lemma toInt_of_number:
  "xs_toInt (xs_of_int n) = sint n
   \<and> xs_toInt (xs_of_dword dw) = (if uint dw < 2 ^ 31 then uint dw else 0)"
proof -
  have "- (2 ^ 31) \<le> sint n" "sint n < 2 ^ 31"
    using sint_greater_eq [of n] sint_less [of n] by simp_all
  moreover have "- (2 ^ 31) \<le> uint dw" by (rule order_trans [OF _ uint_ge_0]) simp
  ultimately show ?thesis
    by (simp add: xs_toInt_def xs_of_int_def xs_of_dword_def stoi32_to_wstring)
qed

end
