(* ===== verification/X_Format.thy ===== *)
theory X_Format
  imports X_String
begin

text \<open>
  Ext::Format (String/EXFormat.hpp, String/EXFormatTypes.hpp): \<open>Format(fmt, args...)\<close> turns its
  arguments into strings (\<open>format_as\<close>) and format_trans walks over the format string with a
  pointer, three flags, a type name and an index. The pointer is \<open>fPos\<close>; reading at the length
  gives the terminating NUL, reading behind it is undefined (\<open>OutOfBounds\<close>), and so is indexing
  the argument vector behind its end (\<open>OutOfRange\<close>). One pass of the
  while loop is \<open>fmt_step\<close>, made of the four blocks of the body in their order; the loop is a
  \<open>partial_function\<close> whose \<open>None\<close> means that it never ends. The counters nIndex and nArgsIdx
  are shorts, with the conversions to size_t of the comparisons written out.
\<close>

subsection \<open>Arguments\<close>

text \<open>The overloads of format_as; an argument type without an overload (an XString, say) takes
  the generic template.\<close>

datatype fmt_arg =
    AInt u32
  | AShort "16 word"
  | AWcstr xstring
  | ACstr "byte list"
  | ADword u32
  | AUint u32
  | AWstring xstring
  | AOther

fun format_as :: "fmt_arg \<Rightarrow> xstring" where
  "format_as AOther = wlit ''unknown type''"
| "format_as (AInt Value) = to_wstring (sint Value)"
| "format_as (AShort Value) = to_wstring (sint Value)"
| "format_as (AWcstr Value) = c_str_of Value"
| "format_as (ACstr Value) = map scast (takeWhile (\<lambda>b. b \<noteq> 0) Value)"
| "format_as (ADword Value) = to_wstring (uint Value)"
| "format_as (AUint Value) = to_wstring (uint Value)"
| "format_as (AWstring Value) = Value"

fun format_args_impl :: "xstring list \<Rightarrow> fmt_arg list \<Rightarrow> xstring list" where
  "format_args_impl vecArgs [] = vecArgs"
| "format_args_impl vecArgs (value # args) = format_args_impl (vecArgs @ [format_as value]) args"

text \<open>Util::isTrue of a std::wstring (Util/EXUtil.hpp).\<close>

definition isTrue :: "xstring \<Rightarrow> bool" where
  "isTrue s = (s = wlit ''Y'' \<or> s = wlit ''y'' \<or> s = wlit ''True'' \<or> s = wlit ''TRUE'' \<or> s = wlit ''1'')"

subsection \<open>The state of format_trans\<close>

record fmt =
  fRet :: xstring
  fPlace :: bool
  fType :: bool
  fBracket :: bool
  fsType :: xstring
  fIndex :: int
  fArgsIdx :: int
  fPos :: nat

definition fmt_init :: fmt where
  "fmt_init = \<lparr>fRet = [], fPlace = False, fType = False, fBracket = False, fsType = [],
     fIndex = -1, fArgsIdx = 0, fPos = 0\<rparr>"

text \<open>How a block of the loop body ends: with \<open>continue\<close>, or by falling into the next one.\<close>

datatype flow = Cont fmt | Fall fmt

fun flow_state :: "flow \<Rightarrow> fmt" where
  "flow_state (Cont st) = st"
| "flow_state (Fall st) = st"

fun flow_then :: "flow res \<Rightarrow> (fmt \<Rightarrow> flow res) \<Rightarrow> flow res" where
  "flow_then (Inl e) f = Inl e"
| "flow_then (Inr (Cont st)) f = Inr (Cont st)"
| "flow_then (Inr (Fall st)) f = f st"

abbreviation lbrace :: wchar where "lbrace \<equiv> 123"
abbreviation rbrace :: wchar where "rbrace \<equiv> 125"
abbreviation colon :: wchar where "colon \<equiv> 58"

definition rd :: "xstring \<Rightarrow> nat \<Rightarrow> wchar res" where
  "rd s p = (if p < length s then Inr (s ! p) else if p = length s then Inr 0 else Inl OutOfBounds)"

definition vec_arg :: "xstring list \<Rightarrow> int \<Rightarrow> xstring res" where
  "vec_arg args i = (if 0 \<le> i \<and> nat i < length args then Inr (args ! nat i) else Inl OutOfRange)"

text \<open>\<open>_vecArgs.size() >= ( i + 1 )\<close>: the int is converted to size_t.\<close>

definition has_arg :: "xstring list \<Rightarrow> int \<Rightarrow> bool" where
  "has_arg args i = (to_size (i + 1) \<le> length args)"

subsection \<open>The blocks of the loop body\<close>

definition fmt_bracket :: "xstring \<Rightarrow> fmt \<Rightarrow> flow res" where
  "fmt_bracket s st =
     (if \<not> fBracket st then Inr (Fall st)
      else case rd s (fPos st) of Inl e \<Rightarrow> Inl e | Inr c \<Rightarrow>
        (let p = (if c = rbrace then fPos st + 1 else fPos st) in
         case rd s p of Inl e \<Rightarrow> Inl e | Inr c' \<Rightarrow>
           if c' = rbrace
           then Inr (Cont (st\<lparr>fRet := fRet st @ [lbrace, rbrace], fBracket := False,
                             fPlace := False, fPos := p + 1\<rparr>))
           else Inr (Fall (st\<lparr>fRet := fRet st @ [lbrace], fBracket := False,
                             fPlace := False, fPos := p\<rparr>))))"

definition bool_text :: "xstring \<Rightarrow> xstring" where
  "bool_text a = (if isTrue a then wlit ''true'' else wlit ''false'')"

definition fmt_type :: "xstring list \<Rightarrow> xstring \<Rightarrow> fmt \<Rightarrow> flow res" where
  "fmt_type args s st =
     (if \<not> (fPlace st \<and> fType st) then Inr (Fall st)
      else case rd s (fPos st) of Inl e \<Rightarrow> Inl e | Inr c \<Rightarrow>
        if c \<noteq> lbrace \<and> c \<noteq> rbrace
        then Inr (Cont (st\<lparr>fsType := fsType st @ [c], fPos := fPos st + 1\<rparr>))
        else if c = rbrace then
          (if fsType st = wlit ''b'' \<or> fsType st = wlit ''B'' then
             (if fIndex st = -1 then
                (if has_arg args (fArgsIdx st) then
                   (case vec_arg args (fArgsIdx st) of Inl e \<Rightarrow> Inl e | Inr a \<Rightarrow>
                      Inr (Cont (st\<lparr>fRet := fRet st @ bool_text a,
                                   fArgsIdx := to_short (fArgsIdx st + 1), fPos := fPos st + 1,
                                   fPlace := False, fType := False, fsType := []\<rparr>)))
                 else Inr (Fall (st\<lparr>fPlace := False, fType := False, fsType := [],
                                   fPos := fPos st + 1\<rparr>)))
              else
                (if has_arg args (fIndex st) then
                   (case vec_arg args (fIndex st) of Inl e \<Rightarrow> Inl e | Inr a \<Rightarrow>
                      Inr (Cont (st\<lparr>fRet := fRet st @ bool_text a, fPos := fPos st + 1,
                                   fPlace := False, fIndex := -1, fsType := []\<rparr>)))
                 else Inr (Fall (st\<lparr>fIndex := -1, fType := False, fsType := [],
                                   fPlace := False, fPos := fPos st + 1\<rparr>))))
           else Inr (Fall (st\<lparr>fIndex := -1, fsType := [], fPlace := False, fType := False,
                             fPos := fPos st + 1\<rparr>)))
        else Inr (Fall st))"

definition fmt_place :: "xstring list \<Rightarrow> xstring \<Rightarrow> fmt \<Rightarrow> flow res" where
  "fmt_place args s st =
     (case rd s (fPos st) of Inl e \<Rightarrow> Inl e | Inr c \<Rightarrow>
        if c = lbrace then Inr (Cont (st\<lparr>fBracket := True, fPos := fPos st + 1\<rparr>))
        else if c = rbrace then
          (if fType st = False \<and> fIndex st = -1 then
             (if has_arg args (fArgsIdx st) then
                (case vec_arg args (fArgsIdx st) of Inl e \<Rightarrow> Inl e | Inr a \<Rightarrow>
                   Inr (Cont (st\<lparr>fRet := fRet st @ a, fArgsIdx := to_short (fArgsIdx st + 1),
                                fPos := fPos st + 1, fPlace := False\<rparr>)))
              else Inr (Fall (st\<lparr>fPlace := False, fPos := fPos st + 1\<rparr>)))
           else if fType st = False \<and> fIndex st > -1 then
             (if has_arg args (fIndex st) then
                (case vec_arg args (fIndex st) of Inl e \<Rightarrow> Inl e | Inr a \<Rightarrow>
                   Inr (Cont (st\<lparr>fRet := fRet st @ a, fPos := fPos st + 1, fPlace := False,
                                fIndex := -1\<rparr>)))
              else Inr (Fall (st\<lparr>fIndex := -1, fPlace := False, fPos := fPos st + 1\<rparr>)))
           else Inr (Fall st))
        else if c = colon then Inr (Fall (st\<lparr>fType := True, fPos := fPos st + 1\<rparr>))
        else if iswdigit c then
          (let nIdx = int (unat c) - 48 in
           Inr (Cont (st\<lparr>fIndex := (if fIndex st = -1 then nIdx
                                    else to_short (fIndex st * 10 + nIdx)),
                        fPos := fPos st + 1\<rparr>)))
        else Inr (Fall st))"

definition fmt_text :: "xstring \<Rightarrow> fmt \<Rightarrow> flow res" where
  "fmt_text s st =
     (case rd s (fPos st) of Inl e \<Rightarrow> Inl e | Inr c \<Rightarrow>
        if c = lbrace then Inr (Fall (st\<lparr>fPlace := True, fPos := fPos st + 1\<rparr>))
        else Inr (Fall (st\<lparr>fRet := fRet st @ [c], fPos := fPos st + 1\<rparr>)))"

definition fmt_step :: "xstring list \<Rightarrow> xstring \<Rightarrow> fmt \<Rightarrow> fmt res" where
  "fmt_step args s st =
     map_sum id flow_state
       (flow_then (flow_then (fmt_bracket s st) (fmt_type args s))
          (\<lambda>st'. if fPlace st' then fmt_place args s st' else fmt_text s st'))"

partial_function (option) fmt_loop :: "xstring list \<Rightarrow> xstring \<Rightarrow> fmt \<Rightarrow> xstring res option" where
  "fmt_loop args s st =
     (case rd s (fPos st) of
        Inl e \<Rightarrow> Some (Inl e)
      | Inr c \<Rightarrow>
          if c = 0 then Some (Inr (fRet st))
          else (case fmt_step args s st of
                  Inl e \<Rightarrow> Some (Inl e)
                | Inr st' \<Rightarrow> fmt_loop args s st'))"

declare fmt_loop.simps [code]

definition format_trans :: "xstring list \<Rightarrow> xstring \<Rightarrow> xstring res option" where
  "format_trans args s = fmt_loop args s fmt_init"

definition cFormat_Format :: "xstring \<Rightarrow> fmt_arg list \<Rightarrow> xstring res option" where
  "cFormat_Format s args = format_trans (format_args_impl [] args) s"

definition Format :: "xstring \<Rightarrow> fmt_arg list \<Rightarrow> xstring res option" where
  "Format s args = cFormat_Format (xs_toWString s) args"

lemmas fmt_defs = fmt_step_def fmt_bracket_def fmt_type_def fmt_place_def fmt_text_def

lemma Format_args: "Format s args = format_trans (map format_as args) s"
proof -
  have "format_args_impl vs args = vs @ map format_as args" for vs
    by (induction args arbitrary: vs) auto
  then show ?thesis by (simp add: Format_def cFormat_Format_def xs_toWString_def)
qed


subsection \<open>Running the loop\<close>

text \<open>A text character is neither a brace nor NUL; \<open>clean\<close> is a state outside a placeholder.\<close>

definition text_char :: "wchar \<Rightarrow> bool" where
  "text_char c = (c \<noteq> 0 \<and> c \<noteq> lbrace \<and> c \<noteq> rbrace)"

definition clean :: "xstring \<Rightarrow> int \<Rightarrow> nat \<Rightarrow> fmt" where
  "clean ret ai p = \<lparr>fRet = ret, fPlace = False, fType = False, fBracket = False, fsType = [],
     fIndex = -1, fArgsIdx = ai, fPos = p\<rparr>"

definition opened :: "xstring \<Rightarrow> int \<Rightarrow> nat \<Rightarrow> fmt" where
  "opened ret ai p = (clean ret ai p)\<lparr>fPlace := True\<rparr>"

lemma fmt_init_clean: "fmt_init = clean [] 0 0"
  by (simp add: fmt_init_def clean_def)

lemma rd_append [simp]:
  "rd (d @ c # r) (length d) = Inr c" "rd d (length d) = Inr 0"
  "rd d (Suc (length d)) = Inl OutOfBounds"
  by (simp_all add: rd_def)

lemma fmt_loop_next:
  "rd s (fPos st) = Inr c \<Longrightarrow> c \<noteq> 0 \<Longrightarrow> fmt_step args s st = Inr st' \<Longrightarrow>
     fmt_loop args s st = fmt_loop args s st'"
  by (subst fmt_loop.simps) simp

lemma fmt_loop_stop: "fmt_loop args s (clean ret ai (length s)) = Some (Inr ret)"
  by (subst fmt_loop.simps) (simp add: clean_def)

lemma step_text:
  assumes "text_char c"
  shows "fmt_loop args (d @ c # r) (clean ret ai (length d))
       = fmt_loop args (d @ c # r) (clean (ret @ [c]) ai (length d + 1))"
  using assms by (intro fmt_loop_next [of _ _ c]) (simp_all add: clean_def text_char_def fmt_defs)

lemma run_text:
  "list_all text_char t \<Longrightarrow>
     fmt_loop args (d @ t @ r) (clean ret ai (length d))
       = fmt_loop args (d @ t @ r) (clean (ret @ t) ai (length d + length t))"
proof (induction t arbitrary: d ret)
  case (Cons c t)
  have "fmt_loop args (d @ (c # t) @ r) (clean ret ai (length d))
      = fmt_loop args ((d @ [c]) @ t @ r) (clean (ret @ [c]) ai (length (d @ [c])))"
    using step_text [of c args d "t @ r"] Cons.prems by simp
  also have "\<dots> = fmt_loop args ((d @ [c]) @ t @ r)
      (clean ((ret @ [c]) @ t) ai (length (d @ [c]) + length t))"
    using Cons.prems by (intro Cons.IH) simp
  finally show ?case by simp
qed simp

lemma step_open:
  "fmt_loop args (d @ lbrace # r) (clean ret ai (length d))
     = fmt_loop args (d @ lbrace # r) (opened ret ai (length d + 1))"
  by (intro fmt_loop_next [of _ _ lbrace]) (simp_all add: clean_def opened_def fmt_defs)

lemma has_arg_iff:
  assumes "- (2 ^ 15) \<le> i" "i < 2 ^ 15" "length args < 2 ^ 63"
  shows "has_arg args i \<longleftrightarrow> -1 \<le> i \<and> i < int (length args)"
proof (cases "i + 1 < 0")
  case True
  then have "2 ^ 63 \<le> to_size (i + 1)" using assms by (intro to_size_neg) auto
  with True assms show ?thesis by (simp add: has_arg_def)
next
  case False
  then have "to_size (i + 1) = nat (i + 1)" using assms by (intro to_size_nonneg) auto
  with False show ?thesis by (auto simp: has_arg_def)
qed

lemma has_arg_nat: "n < 2 ^ 15 \<Longrightarrow> has_arg args (int n) \<longleftrightarrow> n < length args"
proof -
  assume n: "n < 2 ^ 15"
  have "to_size (int n + 1) = nat (int n + 1)" using n by (intro to_size_nonneg) auto
  then show ?thesis by (auto simp: has_arg_def)
qed

lemma close_arg:
  assumes "n < length args" and "n < 2 ^ 15 - 1"
  shows "fmt_loop args (d @ lbrace # rbrace # r) (opened ret (int n) (length d + 1))
     = fmt_loop args (d @ lbrace # rbrace # r) (clean (ret @ args ! n) (int (Suc n)) (length d + 2))"
proof -
  have rd: "rd (d @ lbrace # rbrace # r) (Suc (length d)) = Inr rbrace"
    by (simp add: rd_def nth_append)
  have "to_short (int n + 1) = int n + 1" using assms by (intro to_short_id) auto
  then have "to_short (int n + 1) = 1 + int n" "to_short (1 + int n) = 1 + int n"
    by (simp_all add: add.commute)
  then show ?thesis using assms rd
    by (intro fmt_loop_next [of _ _ rbrace])
      (simp_all add: clean_def opened_def fmt_defs has_arg_nat vec_arg_def)
qed

lemma close_no_arg:
  assumes "length args \<le> n" and "n < 2 ^ 15"
  shows "fmt_loop args (d @ lbrace # rbrace # r) (opened ret (int n) (length d + 1))
     = fmt_loop args (d @ lbrace # rbrace # r) (clean ret (int n) (length d + 2))"
proof -
  have rd: "rd (d @ lbrace # rbrace # r) (Suc (length d)) = Inr rbrace"
    by (simp add: rd_def nth_append)
  then show ?thesis using assms
    by (intro fmt_loop_next [of _ _ rbrace])
      (simp_all add: clean_def opened_def fmt_defs has_arg_nat)
qed

text \<open>The format string that alternates texts with empty placeholders, and what it should give.\<close>

fun seq_format :: "xstring \<Rightarrow> xstring list \<Rightarrow> xstring" where
  "seq_format t [] = t"
| "seq_format t (u # us) = t @ [lbrace, rbrace] @ seq_format u us"

fun seq_result :: "xstring \<Rightarrow> xstring list \<Rightarrow> xstring list \<Rightarrow> xstring" where
  "seq_result t [] args = t"
| "seq_result t (u # us) [] = t @ seq_result u us []"
| "seq_result t (u # us) (a # args) = t @ a @ seq_result u us args"

lemma run_seq:
  "list_all text_char t \<Longrightarrow> list_all (list_all text_char) us \<Longrightarrow> n + length us < 2 ^ 15 \<Longrightarrow>
     fmt_loop args (d @ seq_format t us) (clean ret (int n) (length d))
       = Some (Inr (ret @ seq_result t us (drop n args)))"
proof (induction us arbitrary: t d ret n)
  case Nil
  then show ?case
    using run_text [of t args d "[]" ret "int n"] fmt_loop_stop [of args "d @ t"] by simp
next
  case (Cons u us)
  let ?s = "d @ seq_format t (u # us)" and ?d = "d @ t"
  have s: "?s = ?d @ lbrace # rbrace # seq_format u us" by simp
  have s2: "?s = (?d @ [lbrace, rbrace]) @ seq_format u us" and len: "length ?d + 2 = length (?d @ [lbrace, rbrace])"
    by simp_all
  have "fmt_loop args ?s (clean ret (int n) (length d))
      = fmt_loop args ?s (clean (ret @ t) (int n) (length ?d))"
    using run_text [of t args d "lbrace # rbrace # seq_format u us" ret "int n"] Cons.prems by simp
  also have "\<dots> = fmt_loop args ?s (opened (ret @ t) (int n) (length ?d + 1))"
    unfolding s by (rule step_open)
  also have "\<dots> = Some (Inr (ret @ seq_result t (u # us) (drop n args)))"
  proof (cases "n < length args")
    case True
    then have "fmt_loop args ?s (opened (ret @ t) (int n) (length ?d + 1))
        = fmt_loop args ?s (clean ((ret @ t) @ args ! n) (int (Suc n)) (length ?d + 2))"
      unfolding s using Cons.prems by (intro close_arg) auto
    also have "\<dots> = Some (Inr (((ret @ t) @ args ! n) @ seq_result u us (drop (Suc n) args)))"
      unfolding s2 len using Cons.prems by (intro Cons.IH) auto
    also have "((ret @ t) @ args ! n) @ seq_result u us (drop (Suc n) args)
        = ret @ seq_result t (u # us) (args ! n # drop (Suc n) args)" by simp
    also have "args ! n # drop (Suc n) args = drop n args"
      using True by (rule Cons_nth_drop_Suc)
    finally show ?thesis .
  next
    case False
    then have "fmt_loop args ?s (opened (ret @ t) (int n) (length ?d + 1))
        = fmt_loop args ?s (clean (ret @ t) (int n) (length ?d + 2))"
      unfolding s using Cons.prems by (intro close_no_arg) auto
    also have "\<dots> = Some (Inr ((ret @ t) @ seq_result u us (drop n args)))"
      unfolding s2 len using Cons.prems by (intro Cons.IH) auto
    finally show ?thesis using False by simp
  qed
  finally show ?case .
qed

text \<open>Inside a typed placeholder.\<close>

definition typed :: "xstring \<Rightarrow> int \<Rightarrow> xstring \<Rightarrow> nat \<Rightarrow> fmt" where
  "typed ret ai ty p = (clean ret ai p)\<lparr>fPlace := True, fType := True, fsType := ty\<rparr>"

lemma step_colon:
  "fmt_loop args (d @ lbrace # colon # r) (opened ret ai (length d + 1))
     = fmt_loop args (d @ lbrace # colon # r) (typed ret ai [] (length d + 2))"
proof -
  have "rd (d @ lbrace # colon # r) (Suc (length d)) = Inr colon"
    by (simp add: rd_def nth_append)
  then show ?thesis
    by (intro fmt_loop_next [of _ _ colon])
      (simp_all add: clean_def opened_def typed_def fmt_defs)
qed

lemma run_type:
  "list_all text_char ty \<Longrightarrow>
     fmt_loop args (d @ ty @ r) (typed ret ai ty0 (length d))
       = fmt_loop args (d @ ty @ r) (typed ret ai (ty0 @ ty) (length d + length ty))"
proof (induction ty arbitrary: d ty0)
  case (Cons c ty)
  have "fmt_loop args (d @ (c # ty) @ r) (typed ret ai ty0 (length d))
      = fmt_loop args (d @ (c # ty) @ r) (typed ret ai (ty0 @ [c]) (length d + 1))"
    using Cons.prems
    by (intro fmt_loop_next [of _ _ c]) (simp_all add: clean_def typed_def fmt_defs text_char_def)
  also have "\<dots> = fmt_loop args ((d @ [c]) @ ty @ r) (typed ret ai (ty0 @ [c]) (length (d @ [c])))"
    by simp
  also have "\<dots> = fmt_loop args ((d @ [c]) @ ty @ r)
      (typed ret ai ((ty0 @ [c]) @ ty) (length (d @ [c]) + length ty))"
    using Cons.prems by (intro Cons.IH) simp
  finally show ?case by simp
qed simp

lemma close_unknown_type:
  assumes "ty \<noteq> wlit ''b''" and "ty \<noteq> wlit ''B''"
  shows "fmt_loop args (d @ [rbrace]) (typed ret ai ty (length d)) = Some (Inl OutOfBounds)"
proof -
  have step: "fmt_step args (d @ [rbrace]) (typed ret ai ty (length d))
      = Inr (clean (ret @ [0]) ai (Suc (Suc (length d))))"
    using assms by (simp add: typed_def clean_def fmt_defs) (simp add: rd_def)
  have "fmt_loop args (d @ [rbrace]) (typed ret ai ty (length d))
      = fmt_loop args (d @ [rbrace]) (clean (ret @ [0]) ai (Suc (Suc (length d))))"
    using step by (intro fmt_loop_next [of _ _ rbrace]) (simp_all add: typed_def clean_def)
  then show ?thesis by (subst (asm) (2) fmt_loop.simps) (simp add: clean_def rd_def)
qed

subsection \<open>Loops that make no progress\<close>

lemma fmt_loop_stuck_step:
  assumes IH: "\<And>args s st r. f args s st = Some r \<Longrightarrow>
      \<not> (\<exists>c. rd s (fPos st) = Inr c \<and> c \<noteq> 0 \<and> fmt_step args s st = Inr st)"
    and eq: "(case rd s (fPos st) of Inl e \<Rightarrow> Some (Inl e)
      | Inr c \<Rightarrow> if c = 0 then Some (Inr (fRet st))
          else (case fmt_step args s st of Inl e \<Rightarrow> Some (Inl e) | Inr st' \<Rightarrow> f args s st')) = Some r"
  shows "\<not> (\<exists>c. rd s (fPos st) = Inr c \<and> c \<noteq> 0 \<and> fmt_step args s st = Inr st)"
  using IH [of args s st r] eq by auto

lemma fmt_loop_stuck:
  assumes "rd s (fPos st) = Inr c" "c \<noteq> 0" "fmt_step args s st = Inr st"
  shows "fmt_loop args s st = None"
proof (rule ccontr)
  assume "fmt_loop args s st \<noteq> None"
  then obtain r where ret: "fmt_loop args s st = Some r" by blast
  have "\<not> (\<exists>c. rd s (fPos st) = Inr c \<and> c \<noteq> 0 \<and> fmt_step args s st = Inr st)"
    by (rule fmt_loop.raw_induct [where P = "\<lambda>args s st r.
          \<not> (\<exists>c. rd s (fPos st) = Inr c \<and> c \<noteq> 0 \<and> fmt_step args s st = Inr st)",
          OF fmt_loop_stuck_step ret])
  with assms show False by blast
qed

subsection \<open>The argument vector is never indexed out of range\<close>

definition idx_ok :: "int \<Rightarrow> int \<Rightarrow> bool" where
  "idx_ok i a = (- (2 ^ 15) \<le> i \<and> i < 2 ^ 15 \<and> - (2 ^ 15) \<le> a \<and> a < 2 ^ 15 \<and> a \<noteq> -1)"

definition fmt_inv :: "fmt \<Rightarrow> bool" where
  "fmt_inv st = idx_ok (fIndex st) (fArgsIdx st)"

fun good_flow :: "flow res \<Rightarrow> bool" where
  "good_flow (Inl e) = (e \<noteq> OutOfRange)"
| "good_flow (Inr fl) = fmt_inv (flow_state fl)"

lemma vec_arg_ok:
  "has_arg args i \<Longrightarrow> - (2 ^ 15) \<le> i \<Longrightarrow> i < 2 ^ 15 \<Longrightarrow> i \<noteq> -1 \<Longrightarrow> length args < 2 ^ 63
     \<Longrightarrow> vec_arg args i = Inr (args ! nat i)"
  by (auto simp: has_arg_iff vec_arg_def)

lemma rd_good: "rd s p = Inl e \<Longrightarrow> e \<noteq> OutOfRange"
  by (auto simp: rd_def split: if_splits)

lemma to_short_bounds: "- (2 ^ 15) \<le> to_short x" "to_short x < 2 ^ 15"
  using to_short_range [of x] by simp_all

lemma to_short_suc: "- (2 ^ 15) \<le> i \<Longrightarrow> i < 2 ^ 15 \<Longrightarrow> 0 \<le> i \<Longrightarrow> to_short (i + 1) \<noteq> -1"
  by (cases "i = 2 ^ 15 - 1") (simp_all add: to_short_def)

lemma has_arg_nonneg:
  "has_arg args i \<Longrightarrow> - (2 ^ 15) \<le> i \<Longrightarrow> i < 2 ^ 15 \<Longrightarrow> i \<noteq> -1 \<Longrightarrow> length args < 2 ^ 63 \<Longrightarrow> 0 \<le> i"
  by (auto simp: has_arg_iff)

lemma idx_ok_index: "idx_ok i a \<Longrightarrow> idx_ok (-1) a \<and> idx_ok (to_short k) a"
  using to_short_bounds [of k] by (simp add: idx_ok_def)

lemma idx_ok_digit: "idx_ok i a \<Longrightarrow> iswdigit c \<Longrightarrow> idx_ok (int (unat c) - 48) a"
  by (simp add: idx_ok_def iswdigit_def word_le_def)

lemma idx_ok_args:
  "idx_ok i a \<Longrightarrow> has_arg args a \<Longrightarrow> length args < 2 ^ 63 \<Longrightarrow>
     idx_ok i (to_short (a + 1)) \<and> idx_ok (-1) (to_short (a + 1)) \<and> vec_arg args a = Inr (args ! nat a)"
  using has_arg_nonneg [of args a] to_short_bounds [of "a + 1"] to_short_suc [of a] vec_arg_ok [of args a]
  by (simp add: idx_ok_def)

lemma idx_ok_vec:
  "idx_ok i a \<Longrightarrow> has_arg args i \<Longrightarrow> i \<noteq> -1 \<Longrightarrow> length args < 2 ^ 63 \<Longrightarrow>
     vec_arg args i = Inr (args ! nat i)"
  by (simp add: idx_ok_def vec_arg_ok)

lemma good_bracket: "fmt_inv st \<Longrightarrow> good_flow (fmt_bracket s st)"
  by (auto simp: fmt_inv_def fmt_bracket_def Let_def dest: rd_good split: sum.splits)

lemma good_text: "fmt_inv st \<Longrightarrow> good_flow (fmt_text s st)"
  by (auto simp: fmt_inv_def fmt_text_def dest: rd_good split: sum.splits)

lemma good_type:
  assumes "fmt_inv st" and "length args < 2 ^ 63"
  shows "good_flow (fmt_type args s st)"
  using assms idx_ok_index [of "fIndex st" "fArgsIdx st"]
    idx_ok_args [of "fIndex st" "fArgsIdx st" args] idx_ok_vec [of "fIndex st" "fArgsIdx st" args]
  by (auto simp: fmt_inv_def fmt_type_def dest: rd_good split: sum.splits)

lemma good_place:
  assumes "fmt_inv st" and "length args < 2 ^ 63"
  shows "good_flow (fmt_place args s st)"
  using assms idx_ok_index [of "fIndex st" "fArgsIdx st"] idx_ok_digit [of "fIndex st" "fArgsIdx st"]
    idx_ok_args [of "fIndex st" "fArgsIdx st" args] idx_ok_vec [of "fIndex st" "fArgsIdx st" args]
  by (auto simp: fmt_inv_def fmt_place_def Let_def dest: rd_good split: sum.splits)

lemma good_then:
  "good_flow m \<Longrightarrow> (\<And>st. fmt_inv st \<Longrightarrow> good_flow (f st)) \<Longrightarrow> good_flow (flow_then m f)"
  by (induction m f rule: flow_then.induct) auto

lemma good_step:
  assumes "fmt_inv st" and "length args < 2 ^ 63"
  shows "case fmt_step args s st of Inl e \<Rightarrow> e \<noteq> OutOfRange | Inr st' \<Rightarrow> fmt_inv st'"
proof -
  let ?m = "flow_then (flow_then (fmt_bracket s st) (fmt_type args s))
          (\<lambda>st'. if fPlace st' then fmt_place args s st' else fmt_text s st')"
  have "good_flow ?m"
    using assms by (intro good_then good_bracket) (auto intro: good_type good_place good_text)
  then show ?thesis by (cases ?m) (simp_all add: fmt_step_def)
qed

lemma fmt_loop_safe_step:
  assumes IH: "\<And>args s st r. f args s st = Some r \<Longrightarrow>
      length args < 2 ^ 63 \<longrightarrow> fmt_inv st \<longrightarrow> r \<noteq> Inl OutOfRange"
    and eq: "(case rd s (fPos st) of Inl e \<Rightarrow> Some (Inl e)
      | Inr c \<Rightarrow> if c = 0 then Some (Inr (fRet st))
          else (case fmt_step args s st of Inl e \<Rightarrow> Some (Inl e) | Inr st' \<Rightarrow> f args s st')) = Some r"
  shows "length args < 2 ^ 63 \<longrightarrow> fmt_inv st \<longrightarrow> r \<noteq> Inl OutOfRange"
proof (intro impI)
  assume "length args < 2 ^ 63" "fmt_inv st"
  with good_step [of st args s] IH eq show "r \<noteq> Inl OutOfRange"
    by (auto dest: rd_good split: sum.splits if_splits)
qed

subsection \<open>Properties\<close>

text \<open>C15: texts without braces, separated by empty placeholders: the result is the texts with the
  arguments in between, in order; placeholders beyond the last argument disappear and surplus
  arguments are ignored. In particular the call returns and reads nothing out of bounds.\<close>

theorem Format_sequential:
  assumes "list_all text_char t" and "list_all (list_all text_char) us" and "length us < 2 ^ 15"
  shows "Format (seq_format t us) args = Some (Inr (seq_result t us (map format_as args)))"
  using run_seq [of t us 0 "map format_as args" "[]" "[]"] assms
  by (simp add: Format_args format_trans_def fmt_init_clean)

theorem Format_sequential_witness:
  "seq_format (wlit ''a'') [wlit ''b'', wlit ''c''] = wlit ''a{}b{}c''
   \<and> Format (seq_format (wlit ''a'') [wlit ''b'', wlit ''c'']) [AInt 7]
       = Some (Inr (seq_result (wlit ''a'') [wlit ''b'', wlit ''c''] (map format_as [AInt 7])))"
proof
  show "seq_format (wlit ''a'') [wlit ''b'', wlit ''c''] = wlit ''a{}b{}c''"
    by (simp add: wlit_def)
qed (rule Format_sequential, simp_all add: wlit_def text_char_def)

text \<open>The example in the header's comment, Format( "{} {0} {} {2:b}", 10, 20, 1 ), gives
  "10 10 20 true" as documented.\<close>

lemma Format_documented_example:
  "Format (wlit ''{} {0} {} {2:b}'') [AInt 10, AInt 20, AInt 1] = Some (Inr (wlit ''10 10 20 true''))"
  by (simp add: Format_args format_trans_def fmt_init_def fmt_loop.simps fmt_defs rd_def wlit_def
      vec_arg_def has_arg_def to_size_def to_short_def bool_text_def isTrue_def iswdigit_def
      to_wstring_def dec_digits.simps)

text \<open>After a text, an opening brace followed by a character that is neither a brace, a
  colon nor a digit makes Format loop for ever: no branch of the body advances the pointer.\<close>

lemma Format_bad_placeholder_never_returns:
  assumes "list_all text_char t" and "text_char c" and "c \<noteq> colon" and "\<not> iswdigit c"
  shows "Format (t @ lbrace # c # r) args = None"
proof -
  let ?s = "t @ lbrace # c # r" and ?st = "opened t 0 (length t + 1)" and ?as = "map format_as args"
  have rd: "rd ?s (length t + 1) = Inr c" by (simp add: rd_def nth_append)
  have "fmt_loop ?as ?s (clean [] 0 0) = fmt_loop ?as ?s ?st"
    using run_text [OF assms(1), of ?as "[]" "lbrace # c # r" "[]" 0]
      step_open [of ?as t "c # r" t 0] by simp
  moreover have "fmt_step ?as ?s ?st = Inr ?st"
    using assms rd by (simp add: opened_def clean_def fmt_defs text_char_def)
  then have "fmt_loop ?as ?s ?st = None"
    using assms(2) rd by (intro fmt_loop_stuck [of _ _ c]) (simp_all add: opened_def clean_def text_char_def)
  ultimately show ?thesis by (simp add: Format_args format_trans_def fmt_init_clean)
qed

lemma Format_bad_placeholder_never_returns_witness:
  "Format (wlit ''id={name}'') [AInt 1] = None"
  using Format_bad_placeholder_never_returns
    [of "wlit ''id=''" "wchr (CHR ''n'')" "wlit ''ame}''" "[AInt 1]"]
  by (simp add: wlit_def wchr_def text_char_def iswdigit_def)


text \<open>C40: whatever the format string, Format never indexes its argument vector out of range:
  the short counters can overflow, but the comparison with size() then fails.\<close>

theorem Format_args_in_range:
  assumes "length args < 2 ^ 63"
  shows "Format s args \<noteq> Some (Inl OutOfRange)"
proof
  assume "Format s args = Some (Inl OutOfRange)"
  then have ret: "fmt_loop (map format_as args) s fmt_init = Some (Inl OutOfRange)"
    by (simp add: Format_args format_trans_def)
  have "length (map format_as args) < 2 ^ 63 \<longrightarrow> fmt_inv fmt_init
      \<longrightarrow> (Inl OutOfRange :: xstring res) \<noteq> Inl OutOfRange"
    by (rule fmt_loop.raw_induct [where P = "\<lambda>args s st r. length args < 2 ^ 63 \<longrightarrow> fmt_inv st
          \<longrightarrow> r \<noteq> Inl OutOfRange", OF fmt_loop_safe_step ret])
  with assms show False by (simp add: fmt_inv_def idx_ok_def fmt_init_def)
qed

theorem Format_args_in_range_witness:
  "length [AInt 1] < 2 ^ 63 \<and> Format (wlit ''{5}{}{}'') [AInt 1] \<noteq> Some (Inl OutOfRange)"
  using Format_args_in_range [of "[AInt 1]" "wlit ''{5}{}{}''"] by simp

text \<open>A type name other than b at the end of the format string makes Format read behind its
  terminator: the type block skips the closing brace and falls into the text block, which copies
  the NUL and steps over it.\<close>

lemma Format_unknown_type_reads_past_end:
  assumes "list_all text_char t" and "list_all text_char ty"
    and "ty \<noteq> wlit ''b''" and "ty \<noteq> wlit ''B''"
  shows "Format (t @ [lbrace, colon] @ ty @ [rbrace]) args = Some (Inl OutOfBounds)"
proof -
  let ?as = "map format_as args" and ?r = "ty @ [rbrace]"
  let ?s = "t @ lbrace # colon # ?r" and ?d = "(t @ [lbrace, colon]) @ ty"
  have "fmt_loop ?as ?s (clean [] 0 0) = fmt_loop ?as ?s (typed t 0 [] (length t + 2))"
    using run_text [OF assms(1), of ?as "[]" "lbrace # colon # ?r" "[]" 0]
      step_open [of ?as t "colon # ?r" t 0] step_colon [of ?as t ?r t 0] by simp
  also have "\<dots> = fmt_loop ?as (?d @ [rbrace]) (typed t 0 ty (length ?d))"
    using run_type [OF assms(2), of ?as "t @ [lbrace, colon]" "[rbrace]" t 0 "[]"] by simp
  also have "\<dots> = Some (Inl OutOfBounds)"
    using assms(3,4) by (rule close_unknown_type)
  finally show ?thesis by (simp add: Format_args format_trans_def fmt_init_clean)
qed

lemma Format_unknown_type_reads_past_end_witness:
  "Format (wlit ''n={:x}'') [AInt 1] = Some (Inl OutOfBounds)"
  using Format_unknown_type_reads_past_end [of "wlit ''n=''" "wlit ''x''" "[AInt 1]"]
  by (simp add: wlit_def text_char_def)

text \<open>The type flag survives an indexed boolean placeholder: after "{0:b}" a plain "{}" is
  read as a placeholder with an empty type, prints nothing and, at the end of the format string,
  leads behind the terminator. The same two placeholders in the other order work.\<close>

lemma Format_stale_type_flag:
  "Format (wlit ''{0:b}{}'') [AInt 1, AInt 2] = Some (Inl OutOfBounds)
   \<and> Format (wlit ''{}{0:b}'') [AInt 1, AInt 2] = Some (Inr (wlit ''1true''))"
  by (simp add: Format_args format_trans_def fmt_init_def fmt_loop.simps fmt_defs rd_def wlit_def
      vec_arg_def has_arg_def to_size_def to_short_def bool_text_def isTrue_def iswdigit_def
      to_wstring_def dec_digits.simps)

end
