(* ===== verification/Event_Queue.thy ===== *)
theory Event_Queue
  imports Ex_Prelude
begin

text \<open>
  The blocking queues: Ext::Queue::eventQueue (Util/ExDataStruct.hpp), used by the module
  manager, the network receiver and the Windows IPC server, and nsIPC::eventQueue
  (IPC/EXIPC_unix.h), used by the Unix IPC server. \<open>equeue\<close> is the shared state (\<open>_queue\<close> and
  \<open>_isStop\<close>); a DeQueue that would wait on the condition variable is \<open>None\<close>. The second half
  adds the threads: each is outside, about to test the wait condition with the lock held,
  waiting on the condition variable, or back with a value.
\<close>

record 'a equeue =
  eqItems :: "'a list"
  eqStop :: bool

definition eq_new :: "'a equeue" where
  "eq_new = \<lparr>eqItems = [], eqStop = False\<rparr>"

subsection \<open>Ext::Queue::eventQueue\<close>

definition eq_DeQueue :: "'a \<Rightarrow> 'a equeue \<Rightarrow> ('a \<times> 'a equeue) option" where
  "eq_DeQueue T q =
     (if eqItems q = [] \<and> eqStop q = False then None
      else if eqStop q then Some (T, q)
      else Some (hd (eqItems q), q\<lparr>eqItems := tl (eqItems q)\<rparr>))"

definition eq_EnQueue :: "'a \<Rightarrow> 'a equeue \<Rightarrow> 'a equeue" where
  "eq_EnQueue item q = q\<lparr>eqItems := eqItems q @ [item]\<rparr>"

definition eq_Stop :: "'a equeue \<Rightarrow> 'a equeue" where
  "eq_Stop q = q\<lparr>eqStop := True\<rparr>"

definition eq_Size :: "'a equeue \<Rightarrow> int" where
  "eq_Size q = to_int32 (int (length (eqItems q)))"

subsection \<open>nsIPC::eventQueue\<close>

definition uq_DeQueue :: "'a \<Rightarrow> 'a equeue \<Rightarrow> ('a \<times> 'a equeue) option" where
  "uq_DeQueue T q =
     (if eqItems q = [] then None
      else if eqStop q then Some (T, q)
      else Some (hd (eqItems q), q\<lparr>eqItems := tl (eqItems q)\<rparr>))"

definition uq_EnQueue :: "'a \<Rightarrow> 'a equeue \<Rightarrow> 'a equeue" where
  "uq_EnQueue item q = q\<lparr>eqItems := eqItems q @ [item]\<rparr>"

definition uq_Stop :: "'a equeue \<Rightarrow> 'a equeue" where
  "uq_Stop q = q\<lparr>eqStop := True\<rparr>"

definition uq_Size :: "'a equeue \<Rightarrow> int" where
  "uq_Size q = to_int32 (int (length (eqItems q)))"

lemmas queue_defs [step_defs] = eq_new_def eq_DeQueue_def eq_EnQueue_def eq_Stop_def eq_Size_def
  uq_DeQueue_def uq_EnQueue_def uq_Stop_def uq_Size_def

subsection \<open>The contract of a queue\<close>

text \<open>A client's calls in the order the lock admits them; \<open>None\<close> when a DeQueue blocks.\<close>

datatype 'a qop = QEnq 'a | QDeq

fun q_run :: "('a \<Rightarrow> 'q \<Rightarrow> 'q) \<Rightarrow> ('q \<Rightarrow> ('a \<times> 'q) option) \<Rightarrow> 'q \<Rightarrow> 'a qop list \<Rightarrow> ('a list \<times> 'q) option" where
  "q_run enq deq q [] = Some ([], q)"
| "q_run enq deq q (QEnq x # ops) = q_run enq deq (enq x q) ops"
| "q_run enq deq q (QDeq # ops) =
     (case deq q of
        None \<Rightarrow> None
      | Some (x, q') \<Rightarrow> map_option (\<lambda>(outs, q''). (x # outs, q'')) (q_run enq deq q' ops))"

fun enqueued :: "'a qop list \<Rightarrow> 'a list" where
  "enqueued [] = []"
| "enqueued (QEnq x # ops) = x # enqueued ops"
| "enqueued (QDeq # ops) = enqueued ops"

fun dequeues :: "'a qop list \<Rightarrow> nat" where
  "dequeues [] = 0"
| "dequeues (QEnq x # ops) = dequeues ops"
| "dequeues (QDeq # ops) = Suc (dequeues ops)"

locale event_queue =
  fixes enq :: "'a \<Rightarrow> 'q \<Rightarrow> 'q"
    and deq :: "'q \<Rightarrow> ('a \<times> 'q) option"
    and halt :: "'q \<Rightarrow> 'q"
    and items :: "'q \<Rightarrow> 'a list"
    and stopped :: "'q \<Rightarrow> bool"
  assumes items_enq: "items (enq x q) = items q @ [x]"
    and stopped_enq: "stopped (enq x q) = stopped q"
    and items_halt: "items (halt q) = items q"
    and stopped_halt: "stopped (halt q)"
    and deq_empty: "\<not> stopped q \<Longrightarrow> items q = [] \<Longrightarrow> deq q = None"
    and deq_front: "\<not> stopped q \<Longrightarrow> items q = x # xs \<Longrightarrow>
          \<exists>q'. deq q = Some (x, q') \<and> items q' = xs \<and> \<not> stopped q'"
    and deq_stopped: "stopped q \<Longrightarrow> deq q = Some (y, q') \<Longrightarrow> q' = q"
begin

lemma deq_Some:
  assumes "\<not> stopped q" and "deq q = Some (x, q')"
  shows "items q = x # items q'" and "\<not> stopped q'"
proof -
  from assms have "items q \<noteq> []" using deq_empty by fastforce
  then obtain y ys where ys: "items q = y # ys" by (cases "items q") auto
  from deq_front [OF assms(1) ys] assms(2) ys
  show "items q = x # items q'" "\<not> stopped q'" by auto
qed

lemma fifo:
  "\<not> stopped q \<Longrightarrow> q_run enq deq q ops = Some (outs, q') \<Longrightarrow>
     outs @ items q' = items q @ enqueued ops \<and> \<not> stopped q' \<and> length outs = dequeues ops"
proof (induction ops arbitrary: q outs)
  case (Cons op ops)
  show ?case
  proof (cases op)
    case (QEnq x)
    with Cons.IH [of "enq x q" outs] Cons.prems show ?thesis by (simp add: items_enq stopped_enq)
  next
    case QDeq
    with Cons.prems obtain x q1 outs1 where d: "deq q = Some (x, q1)"
      and r: "q_run enq deq q1 ops = Some (outs1, q')" and outs: "outs = x # outs1"
      by (auto split: option.splits prod.splits)
    note f = deq_Some [OF Cons.prems(1) d]
    from Cons.IH [OF f(2) r] f outs QDeq show ?thesis by simp
  qed
qed simp

lemma never_blocks_with_items:
  "\<not> stopped q \<Longrightarrow> dequeues ops \<le> length (items q) \<Longrightarrow> \<exists>r. q_run enq deq q ops = Some r"
proof (induction ops arbitrary: q)
  case (Cons op ops)
  show ?case
  proof (cases op)
    case (QEnq x)
    with Cons.IH [of "enq x q"] Cons.prems show ?thesis by (simp add: items_enq stopped_enq)
  next
    case QDeq
    with Cons.prems(2) obtain y ys where ys: "items q = y # ys" by (cases "items q") auto
    from deq_front [OF Cons.prems(1) ys] obtain q1 where
      d: "deq q = Some (y, q1)" "items q1 = ys" "\<not> stopped q1" by blast
    with Cons.IH [OF d(3)] Cons.prems(2) ys QDeq show ?thesis by (auto simp: split_beta)
  qed
qed simp

end

locale stoppable_queue = event_queue +
  assumes deq_after_halt: "stopped q \<Longrightarrow> deq q \<noteq> None"
begin

lemma halt_releases: "deq (halt q) \<noteq> None"
  by (rule deq_after_halt) (rule stopped_halt)

end

interpretation exq: stoppable_queue eq_EnQueue "eq_DeQueue T" eq_Stop eqItems eqStop for T
  by unfold_locales (auto simp: queue_defs split: if_splits)

interpretation unq: event_queue uq_EnQueue "uq_DeQueue T" uq_Stop eqItems eqStop for T
  by unfold_locales (auto simp: queue_defs split: if_splits)

subsection \<open>Threads on a queue\<close>

datatype 'a qpc = QOut | QReady | QWait | QRet 'a

record 'a qsys =
  sysQ :: "'a equeue"
  sysPc :: "nat \<Rightarrow> 'a qpc"

text \<open>
  What threads inside DeQueue do by themselves: enter and take the lock, find that they must
  wait, or leave with a value. Only a notification moves a waiting thread.
\<close>

inductive q_inner :: "('a equeue \<Rightarrow> ('a \<times> 'a equeue) option) \<Rightarrow> 'a qsys \<Rightarrow> 'a qsys \<Rightarrow> bool"
  for deq where
  enter: "sysPc s t = QOut \<Longrightarrow> q_inner deq s (s\<lparr>sysPc := (sysPc s)(t := QReady)\<rparr>)"
| block: "sysPc s t = QReady \<Longrightarrow> deq (sysQ s) = None \<Longrightarrow>
     q_inner deq s (s\<lparr>sysPc := (sysPc s)(t := QWait)\<rparr>)"
| comeback: "sysPc s t = QReady \<Longrightarrow> deq (sysQ s) = Some (x, q') \<Longrightarrow>
     q_inner deq s (s\<lparr>sysQ := q', sysPc := (sysPc s)(t := QRet x)\<rparr>)"
| leave: "sysPc s t = QRet x \<Longrightarrow> q_inner deq s (s\<lparr>sysPc := (sysPc s)(t := QOut)\<rparr>)"

text \<open>notify_one wakes one waiting thread if there is one; notify_all wakes all.\<close>

inductive notify_one :: "'a qsys \<Rightarrow> 'a qsys \<Rightarrow> bool" where
  nobody: "\<forall>t. sysPc s t \<noteq> QWait \<Longrightarrow> notify_one s s"
| wake: "sysPc s t = QWait \<Longrightarrow> notify_one s (s\<lparr>sysPc := (sysPc s)(t := QReady)\<rparr>)"

definition notify_all :: "'a qsys \<Rightarrow> 'a qsys" where
  "notify_all s = s\<lparr>sysPc := (\<lambda>t. if sysPc s t = QWait then QReady else sysPc s t)\<rparr>"

definition eq_Stop_sys :: "'a qsys \<Rightarrow> 'a qsys \<Rightarrow> bool" where
  "eq_Stop_sys s s' = notify_one (s\<lparr>sysQ := eq_Stop (sysQ s)\<rparr>) s'"

definition eq_EnQueue_sys :: "'a \<Rightarrow> 'a qsys \<Rightarrow> 'a qsys \<Rightarrow> bool" where
  "eq_EnQueue_sys x s s' = notify_one (s\<lparr>sysQ := eq_EnQueue x (sysQ s)\<rparr>) s'"

definition uq_Stop_sys :: "'a qsys \<Rightarrow> 'a qsys" where
  "uq_Stop_sys s = notify_all (s\<lparr>sysQ := uq_Stop (sysQ s)\<rparr>)"

definition waiting :: "'a qsys \<Rightarrow> nat set" where
  "waiting s = {t. sysPc s t = QWait}"

inductive_cases notify_oneE: "notify_one s s'"

lemma q_inner_waiting: "q_inner deq s s' \<Longrightarrow> waiting s \<subseteq> waiting s'"
  by (induction rule: q_inner.induct) (auto simp: waiting_def)

lemma q_inner_star_waiting: "(q_inner deq)\<^sup>*\<^sup>* s s' \<Longrightarrow> waiting s \<subseteq> waiting s'"
  by (induction rule: rtranclp_induct) (auto dest: q_inner_waiting)

lemma notify_one_waiting: "notify_one s s' \<Longrightarrow> \<exists>t. waiting s - {t} \<subseteq> waiting s'"
  by (erule notify_oneE) (auto simp: waiting_def)

text \<open>A stopped, empty Unix queue stays so, and nobody comes back from it.\<close>

definition uq_dead :: "'a qsys \<Rightarrow> bool" where
  "uq_dead s = (eqItems (sysQ s) = [])"

lemma uq_dead_step: "q_inner (uq_DeQueue T) s s' \<Longrightarrow> uq_dead s \<Longrightarrow> uq_dead s'"
  by (induction rule: q_inner.induct) (auto simp: uq_dead_def uq_DeQueue_def)

lemma uq_dead_returns:
  "q_inner (uq_DeQueue T) s s' \<Longrightarrow> uq_dead s \<Longrightarrow> sysPc s' t = QRet x \<Longrightarrow> sysPc s t = QRet x"
  by (induction rule: q_inner.induct) (auto simp: uq_dead_def uq_DeQueue_def split: if_splits)

subsection \<open>Properties\<close>

text \<open>C3: eventQueue is first in, first out: in any run of EnQueue and DeQueue calls on a queue
  that is not stopped, the values handed out, followed by what is left in the queue, are the
  initial content followed by the values put in, and each DeQueue hands out one value.\<close>

theorem eventQueue_fifo:
  assumes "\<not> eqStop q" and "q_run eq_EnQueue (eq_DeQueue T) q ops = Some (outs, q')"
  shows "outs @ eqItems q' = eqItems q @ enqueued ops \<and> length outs = dequeues ops"
  using exq.fifo [OF assms] by simp

theorem eventQueue_fifo_witness:
  "q_run eq_EnQueue (eq_DeQueue (0 :: nat)) eq_new [QEnq 5, QEnq 6, QDeq] = Some ([5], \<lparr>eqItems = [6], eqStop = False\<rparr>)
   \<and> [5] @ eqItems \<lparr>eqItems = [6 :: nat], eqStop = False\<rparr> = eqItems (eq_new :: nat equeue) @ enqueued [QEnq 5, QEnq 6, QDeq]"
proof -
  have run: "q_run eq_EnQueue (eq_DeQueue (0 :: nat)) eq_new [QEnq 5, QEnq 6, QDeq]
      = Some ([5], \<lparr>eqItems = [6], eqStop = False\<rparr>)" by (simp add: queue_defs)
  moreover have "\<not> eqStop (eq_new :: nat equeue)" by (simp add: eq_new_def)
  ultimately show ?thesis using eventQueue_fifo by fastforce
qed

text \<open>The Stop of eventQueue notifies one thread only: however the threads inside DeQueue run on
  after it, all the threads that were waiting but at most one are still waiting, so a destructor
  that joins several workers waits for ever.\<close>

lemma eventQueue_Stop_strands_waiters:
  assumes "eq_Stop_sys s s1" and "(q_inner (eq_DeQueue T))\<^sup>*\<^sup>* s1 s2"
  shows "\<exists>t. waiting s - {t} \<subseteq> waiting s2 \<and> eqStop (sysQ s1)"
proof -
  have w: "waiting (s\<lparr>sysQ := eq_Stop (sysQ s)\<rparr>) = waiting s" by (simp add: waiting_def)
  obtain t where "waiting s - {t} \<subseteq> waiting s1"
    using notify_one_waiting [OF assms(1) [unfolded eq_Stop_sys_def]] w by auto
  moreover have "waiting s1 \<subseteq> waiting s2" using assms(2) by (rule q_inner_star_waiting)
  moreover have "eqStop (sysQ s1)"
    using assms(1) by (auto simp: eq_Stop_sys_def eq_Stop_def elim: notify_oneE)
  ultimately show ?thesis by blast
qed

lemma eventQueue_Stop_strands_waiters_witness:
  "\<exists>t. waiting \<lparr>sysQ = eq_new :: nat equeue, sysPc = (\<lambda>_. QWait)(2 := QOut)\<rparr> - {t}
     \<subseteq> waiting \<lparr>sysQ = \<lparr>eqItems = [] :: nat list, eqStop = True\<rparr>,
                sysPc = (\<lambda>_. QWait)(2 := QOut, 0 := QReady)\<rparr>"
proof -
  let ?s = "\<lparr>sysQ = eq_new :: nat equeue, sysPc = (\<lambda>_. QWait)(2 := QOut)\<rparr>"
  let ?s1 = "\<lparr>sysQ = \<lparr>eqItems = [] :: nat list, eqStop = True\<rparr>,
               sysPc = (\<lambda>_. QWait)(2 := QOut, 0 := QReady)\<rparr>"
  have "eq_Stop_sys ?s ?s1"
    using notify_one.wake [of "?s\<lparr>sysQ := eq_Stop (sysQ ?s)\<rparr>" 0]
    by (simp add: eq_Stop_sys_def eq_Stop_def eq_new_def)
  moreover have "(q_inner (eq_DeQueue (0 :: nat)))\<^sup>*\<^sup>* ?s1 ?s1" by simp
  ultimately show ?thesis using eventQueue_Stop_strands_waiters [of ?s ?s1 0 ?s1] by blast
qed

text \<open>Stop of the Unix queue on an empty queue wakes every waiting thread, but its DeQueue
  tests only for emptiness: no thread returns from DeQueue after it.\<close>

lemma unix_Stop_never_releases:
  assumes "eqItems (sysQ s) = []" and "(q_inner (uq_DeQueue T))\<^sup>*\<^sup>* (uq_Stop_sys s) s'"
    and "sysPc s' t = QRet x"
  shows "sysPc s t = QRet x"
proof -
  have "uq_dead (uq_Stop_sys s)"
    using assms(1) by (simp add: uq_dead_def uq_Stop_sys_def notify_all_def uq_Stop_def)
  with assms(2) have "uq_dead s' \<and> (sysPc s' t = QRet x \<longrightarrow> sysPc (uq_Stop_sys s) t = QRet x)"
    by (induction rule: rtranclp_induct) (auto dest: uq_dead_step uq_dead_returns)
  with assms(3) show ?thesis
    by (simp add: uq_Stop_sys_def notify_all_def split: if_splits)
qed

lemma unix_Stop_never_releases_witness:
  "sysPc (uq_Stop_sys \<lparr>sysQ = eq_new, sysPc = (\<lambda>_. QWait)(1 := QRet (7 :: nat))\<rparr>) 1 = QRet 7
   \<and> sysPc \<lparr>sysQ = eq_new, sysPc = (\<lambda>_. QWait)(1 := QRet (7 :: nat))\<rparr> 1 = QRet 7"
proof -
  let ?s = "\<lparr>sysQ = eq_new, sysPc = (\<lambda>_. QWait)(1 := QRet (7 :: nat))\<rparr>"
  have ret: "sysPc (uq_Stop_sys ?s) 1 = QRet 7" by (simp add: uq_Stop_sys_def notify_all_def)
  moreover have "sysPc ?s 1 = QRet 7"
    by (rule unix_Stop_never_releases [of ?s 0 "uq_Stop_sys ?s", OF _ _ ret]) (simp_all add: eq_new_def)
  ultimately show ?thesis by blast
qed

end
