(* ===== verification/Module_Base.thy ===== *)
theory Module_Base
  imports Ex_Prelude
begin

text \<open>
  Ext::Module::cModuleBase (Module/EXModuleBase.cpp/.hpp, ExModuleDefines.hpp): the life cycle of
  a module. \<open>'u\<close> is what a derived class adds; its overrides of the pure virtual functions are
  the \<open>vtable\<close>, where \<open>None\<close> is a function still pure (the table of cModuleBase itself, which is
  the one in force inside its destructor). The abstract life cycle is the automaton \<open>lc_next\<close>.
\<close>

datatype eModuleState =
    MODULE_STATE_NONE
  | MODULE_STATE_INIT
  | MODULE_STATE_START
  | MODULE_STATE_STOP
  | MODULE_STATE_FINAL

record 'u cModuleBase =
  mbName :: xstring
  mbGroup :: xstring
  mbIsStop :: bool
  mbIsRunning :: bool
  mbState :: eModuleState
  mbUser :: 'u

record 'u vtable =
  vInit :: "('u \<Rightarrow> bool \<times> 'u) option"
  vStart :: "('u \<Rightarrow> bool \<times> 'u) option"
  vStop :: "('u \<Rightarrow> bool \<times> 'u) option"
  vFinal :: "('u \<Rightarrow> bool \<times> 'u) option"
  vNotify :: "(xstring \<Rightarrow> 'u \<Rightarrow> bool \<times> 'u) option"

definition pure_vtable :: "'u vtable" where
  "pure_vtable = \<lparr>vInit = None, vStart = None, vStop = None, vFinal = None, vNotify = None\<rparr>"

definition mb_new :: "'u \<Rightarrow> 'u cModuleBase" where
  "mb_new u = \<lparr>mbName = [], mbGroup = [], mbIsStop = False, mbIsRunning = False,
     mbState = MODULE_STATE_NONE, mbUser = u\<rparr>"

subsection \<open>The operations\<close>

definition vcall :: "('u \<Rightarrow> bool \<times> 'u) option \<Rightarrow> 'u cModuleBase \<Rightarrow> (bool \<times> 'u cModuleBase) res" where
  "vcall f m = (case f of None \<Rightarrow> Inl PureVirtualCall
     | Some g \<Rightarrow> (let (isSuccess, u) = g (mbUser m) in Inr (isSuccess, m\<lparr>mbUser := u\<rparr>)))"

definition GetModuleState :: "'u cModuleBase \<Rightarrow> eModuleState" where
  "GetModuleState m = mbState m"

definition setModuleState :: "eModuleState \<Rightarrow> 'u cModuleBase \<Rightarrow> 'u cModuleBase" where
  "setModuleState st m = m\<lparr>mbState := st\<rparr>"

definition ModuleInit :: "'u vtable \<Rightarrow> 'u cModuleBase \<Rightarrow> (bool \<times> 'u cModuleBase) res" where
  "ModuleInit vt m =
     (if mbIsRunning m then Inr (False, m)
      else let state = GetModuleState m in
        if state = MODULE_STATE_INIT \<or> state = MODULE_STATE_START \<or> state = MODULE_STATE_STOP
        then Inr (False, m)
        else case vcall (vInit vt) (m\<lparr>mbIsRunning := True\<rparr>) of
            Inl e \<Rightarrow> Inl e
          | Inr (isSuccess, m') \<Rightarrow>
              Inr (isSuccess, (setModuleState MODULE_STATE_INIT m')\<lparr>mbIsRunning := False\<rparr>))"

definition ModuleStart :: "'u vtable \<Rightarrow> 'u cModuleBase \<Rightarrow> (bool \<times> 'u cModuleBase) res" where
  "ModuleStart vt m =
     (if mbIsRunning m then Inr (False, m)
      else let state = GetModuleState m in
        if state = MODULE_STATE_NONE \<or> state = MODULE_STATE_START \<or> state = MODULE_STATE_FINAL
        then Inr (False, m)
        else case vcall (vStart vt) (m\<lparr>mbIsRunning := True\<rparr>) of
            Inl e \<Rightarrow> Inl e
          | Inr (isSuccess, m') \<Rightarrow>
              Inr (isSuccess, (setModuleState MODULE_STATE_START m')\<lparr>mbIsRunning := False\<rparr>))"

definition ModuleStop :: "'u vtable \<Rightarrow> 'u cModuleBase \<Rightarrow> (bool \<times> 'u cModuleBase) res" where
  "ModuleStop vt m =
     (if mbIsRunning m then Inr (False, m)
      else let state = GetModuleState m in
        if state = MODULE_STATE_NONE \<or> state = MODULE_STATE_INIT \<or> state = MODULE_STATE_FINAL
        then Inr (False, m)
        else case vcall (vStop vt) (m\<lparr>mbIsRunning := True\<rparr>) of
            Inl e \<Rightarrow> Inl e
          | Inr (isSuccess, m') \<Rightarrow>
              Inr (isSuccess, (setModuleState MODULE_STATE_STOP m')\<lparr>mbIsRunning := False\<rparr>))"

definition ModuleFinal :: "'u vtable \<Rightarrow> 'u cModuleBase \<Rightarrow> (bool \<times> 'u cModuleBase) res" where
  "ModuleFinal vt m =
     (if mbIsRunning m then Inr (False, m)
      else if GetModuleState m \<noteq> MODULE_STATE_STOP then Inr (False, m)
      else case vcall (vFinal vt) (m\<lparr>mbIsRunning := True\<rparr>) of
          Inl e \<Rightarrow> Inl e
        | Inr (isSuccess, m') \<Rightarrow>
            Inr (isSuccess, (setModuleState MODULE_STATE_FINAL m')\<lparr>mbIsRunning := False\<rparr>))"

text \<open>
  The destructor of cModuleBase runs after those of the derived classes: its virtual calls see
  the table of cModuleBase.
\<close>

definition mb_destroy :: "'u cModuleBase \<Rightarrow> 'u cModuleBase res" where
  "mb_destroy m =
     (let state = GetModuleState m; m1 = m\<lparr>mbIsRunning := False, mbIsStop := True\<rparr> in
      case (if state = MODULE_STATE_START then map_sum id snd (ModuleStop pure_vtable m1) else Inr m1) of
        Inl e \<Rightarrow> Inl e
      | Inr m2 \<Rightarrow>
          (if state = MODULE_STATE_INIT \<or> state = MODULE_STATE_STOP
           then map_sum id snd (ModuleFinal pure_vtable m2) else Inr m2))"

lemmas mb_defs [step_defs] = ModuleInit_def ModuleStart_def ModuleStop_def ModuleFinal_def
  GetModuleState_def setModuleState_def vcall_def

subsection \<open>cModuleNetwork (Network/EXNetworkModule.cpp)\<close>

definition network_vtable :: "unit vtable" where
  "network_vtable = \<lparr>vInit = Some (\<lambda>u. (True, u)), vStart = Some (\<lambda>u. (True, u)),
     vStop = Some (\<lambda>u. (True, u)), vFinal = Some (\<lambda>u. (True, u)),
     vNotify = Some (\<lambda>sNotifyJobs u. (True, u))\<rparr>"

subsection \<open>MODULE_NOTIFY_INFO (ExModuleDefines.hpp)\<close>

record notify_info =
  niGroup :: xstring
  niJobs :: xstring

definition notify_none :: notify_info where
  "notify_none = \<lparr>niGroup = [], niJobs = []\<rparr>"

definition notify_group :: "xstring \<Rightarrow> xstring \<Rightarrow> notify_info" where
  "notify_group sGroup sJobs = \<lparr>niGroup = sGroup, niJobs = sJobs\<rparr>"

definition notify_jobs :: "xstring \<Rightarrow> notify_info" where
  "notify_jobs sJobs = \<lparr>niGroup = [], niJobs = sJobs\<rparr>"

definition isEmpty :: "notify_info \<Rightarrow> bool" where
  "isEmpty i = (niGroup i = [] \<and> niJobs i = [])"

subsection \<open>The abstract life cycle\<close>

datatype mb_op = OpInit | OpStart | OpStop | OpFinal

fun lc_ok :: "mb_op \<Rightarrow> eModuleState \<Rightarrow> bool" where
  "lc_ok OpInit st = (st = MODULE_STATE_NONE \<or> st = MODULE_STATE_FINAL)"
| "lc_ok OpStart st = (st = MODULE_STATE_INIT \<or> st = MODULE_STATE_STOP)"
| "lc_ok OpStop st = (st = MODULE_STATE_START \<or> st = MODULE_STATE_STOP)"
| "lc_ok OpFinal st = (st = MODULE_STATE_STOP)"

fun lc_target :: "mb_op \<Rightarrow> eModuleState" where
  "lc_target OpInit = MODULE_STATE_INIT"
| "lc_target OpStart = MODULE_STATE_START"
| "lc_target OpStop = MODULE_STATE_STOP"
| "lc_target OpFinal = MODULE_STATE_FINAL"

definition lc_next :: "mb_op \<Rightarrow> eModuleState \<Rightarrow> eModuleState" where
  "lc_next op st = (if lc_ok op st then lc_target op else st)"

text \<open>The overrides that a sequence of calls runs, in order.\<close>

fun lc_trace :: "eModuleState \<Rightarrow> mb_op list \<Rightarrow> mb_op list" where
  "lc_trace st [] = []"
| "lc_trace st (op # ops) =
     (if lc_ok op st then [op] else []) @ lc_trace (lc_next op st) ops"

fun hook :: "'u vtable \<Rightarrow> mb_op \<Rightarrow> ('u \<Rightarrow> bool \<times> 'u) option" where
  "hook vt OpInit = vInit vt"
| "hook vt OpStart = vStart vt"
| "hook vt OpStop = vStop vt"
| "hook vt OpFinal = vFinal vt"

fun mb_do :: "'u vtable \<Rightarrow> mb_op \<Rightarrow> 'u cModuleBase \<Rightarrow> (bool \<times> 'u cModuleBase) res" where
  "mb_do vt OpInit m = ModuleInit vt m"
| "mb_do vt OpStart m = ModuleStart vt m"
| "mb_do vt OpStop m = ModuleStop vt m"
| "mb_do vt OpFinal m = ModuleFinal vt m"

fun mb_run :: "'u vtable \<Rightarrow> mb_op list \<Rightarrow> 'u cModuleBase \<Rightarrow> 'u cModuleBase res" where
  "mb_run vt [] m = Inr m"
| "mb_run vt (op # ops) m =
     (case mb_do vt op m of Inl e \<Rightarrow> Inl e | Inr (isSuccess, m') \<Rightarrow> mb_run vt ops m')"

fun run_hooks :: "'u vtable \<Rightarrow> mb_op list \<Rightarrow> 'u \<Rightarrow> 'u" where
  "run_hooks vt [] u = u"
| "run_hooks vt (op # ops) u = run_hooks vt ops (snd (the (hook vt op) u))"

definition overridden :: "'u vtable \<Rightarrow> bool" where
  "overridden vt = (\<forall>op. hook vt op \<noteq> None)"

lemma mb_do_running: "mbIsRunning m \<Longrightarrow> mb_do vt op m = Inr (False, m)"
  by (cases op) (simp_all add: mb_defs)

lemma mb_do_refused: "\<not> lc_ok op (mbState m) \<Longrightarrow> mb_do vt op m = Inr (False, m)"
  by (cases op; cases "mbState m") (simp_all add: mb_defs)

lemma mb_do_done:
  assumes "\<not> mbIsRunning m" and "lc_ok op (mbState m)" and "hook vt op = Some f"
  shows "mb_do vt op m = Inr (fst (f (mbUser m)),
           m\<lparr>mbUser := snd (f (mbUser m)), mbState := lc_target op\<rparr>)"
  using assms by (cases op; cases m) (auto simp: mb_defs split_beta)

lemma run_hooks_append: "run_hooks vt (xs @ ys) u = run_hooks vt ys (run_hooks vt xs u)"
  by (induction xs arbitrary: u) auto

lemma mb_run_lifecycle:
  assumes "overridden vt" and "\<not> mbIsRunning m"
  shows "mb_run vt ops m = Inr (m\<lparr>mbState := fold lc_next ops (mbState m),
           mbUser := run_hooks vt (lc_trace (mbState m) ops) (mbUser m)\<rparr>)"
  using assms(2)
proof (induction ops arbitrary: m)
  case (Cons op ops)
  show ?case
  proof (cases "lc_ok op (mbState m)")
    case True
    from assms(1) obtain f where f: "hook vt op = Some f" by (auto simp: overridden_def)
    with True Cons show ?thesis by (simp add: mb_do_done lc_next_def)
  next
    case False
    with Cons show ?thesis by (simp add: mb_do_refused lc_next_def)
  qed
qed simp

lemma trace_without_start:
  assumes "OpStart \<notin> set ops" and "st \<in> {MODULE_STATE_NONE, MODULE_STATE_INIT}"
  shows "set (lc_trace st ops) \<subseteq> {OpInit} \<and>
         fold lc_next ops st \<in> {MODULE_STATE_NONE, MODULE_STATE_INIT}"
  using assms
proof (induction ops arbitrary: st)
  case (Cons op ops)
  then have "lc_next op st \<in> {MODULE_STATE_NONE, MODULE_STATE_INIT}"
    by (cases op) (auto simp: lc_next_def)
  moreover have "lc_ok op st \<Longrightarrow> op = OpInit" using Cons.prems by (cases op) auto
  ultimately show ?case using Cons.IH [of "lc_next op st"] Cons.prems by auto
qed simp

subsection \<open>ModuleInit in several threads\<close>

text \<open>
  The atomic steps of ModuleInit: the test of \<open>_isRunning\<close>, the read of the state, the store to
  \<open>_isRunning\<close>, moduleInit itself, setModuleState and the last store.
\<close>

datatype init_pc = I_Test | I_State | I_Enter | I_Hook | I_Leave | I_Done

record init_sys =
  isRunning :: bool
  isState :: eModuleState
  isPc :: "nat \<Rightarrow> init_pc"

definition init_start :: init_sys where
  "init_start = \<lparr>isRunning = False, isState = MODULE_STATE_NONE, isPc = (\<lambda>_. I_Test)\<rparr>"

inductive init_step :: "init_sys \<Rightarrow> init_sys \<Rightarrow> bool" where
  test: "isPc s t = I_Test \<Longrightarrow>
     init_step s (s\<lparr>isPc := (isPc s)(t := if isRunning s then I_Done else I_State)\<rparr>)"
| state: "isPc s t = I_State \<Longrightarrow>
     init_step s (s\<lparr>isPc := (isPc s)(t := if lc_ok OpInit (isState s) then I_Enter else I_Done)\<rparr>)"
| enter: "isPc s t = I_Enter \<Longrightarrow>
     init_step s (s\<lparr>isRunning := True, isPc := (isPc s)(t := I_Hook)\<rparr>)"
| hook: "isPc s t = I_Hook \<Longrightarrow>
     init_step s (s\<lparr>isState := MODULE_STATE_INIT, isPc := (isPc s)(t := I_Leave)\<rparr>)"
| leave: "isPc s t = I_Leave \<Longrightarrow>
     init_step s (s\<lparr>isRunning := False, isPc := (isPc s)(t := I_Done)\<rparr>)"

lemmas init_steps = init_step.test init_step.state init_step.enter

subsection \<open>Properties\<close>

text \<open>C4: the life cycle of a module: when its four overrides exist, any sequence of ModuleInit,
  ModuleStart, ModuleStop and ModuleFinal calls moves the state along the life cycle automaton,
  runs exactly the overrides of the calls the automaton admits, in their order, and leaves
  everything else of the module alone, whatever the overrides return.\<close>

theorem module_lifecycle:
  assumes "overridden vt" and "\<not> mbIsRunning m"
  shows "mb_run vt ops m = Inr (m\<lparr>mbState := fold lc_next ops (mbState m),
           mbUser := run_hooks vt (lc_trace (mbState m) ops) (mbUser m)\<rparr>)"
  using assms by (rule mb_run_lifecycle)

theorem module_lifecycle_witness:
  "mb_run network_vtable [OpInit, OpFinal, OpStart, OpStart, OpStop, OpFinal] (mb_new ())
     = Inr ((mb_new ())\<lparr>mbState := MODULE_STATE_FINAL\<rparr>)"
proof -
  have "overridden network_vtable"
    unfolding overridden_def
  proof
    fix op show "hook network_vtable op \<noteq> None" by (cases op) (simp_all add: network_vtable_def)
  qed
  from module_lifecycle [OF this, of "mb_new ()" "[OpInit, OpFinal, OpStart, OpStart, OpStop, OpFinal]"]
  show ?thesis by (simp add: mb_new_def lc_next_def)
qed

text \<open>A module that is never started is never finalised: without a ModuleStart call no
  sequence of calls runs moduleStop or moduleFinal (moduleInit runs at most once), and the
  destructor does nothing more, so what moduleInit acquired stays.\<close>

lemma module_init_never_finalised:
  assumes "overridden vt" and "OpStart \<notin> set ops"
  shows "\<exists>n m. mb_run vt ops (mb_new u) = Inr m \<and> mbUser m = run_hooks vt (replicate n OpInit) u
           \<and> mb_destroy m = Inr (m\<lparr>mbIsStop := True\<rparr>)"
proof -
  let ?tr = "lc_trace MODULE_STATE_NONE ops" and ?m = "(mb_new u)
    \<lparr>mbState := fold lc_next ops MODULE_STATE_NONE, mbUser := run_hooks vt (lc_trace MODULE_STATE_NONE ops) u\<rparr>"
  have run: "mb_run vt ops (mb_new u) = Inr ?m"
    using mb_run_lifecycle [OF assms(1), of "mb_new u" ops] by (simp add: mb_new_def)
  have tr: "set ?tr \<subseteq> {OpInit}" and st: "fold lc_next ops MODULE_STATE_NONE \<in> {MODULE_STATE_NONE, MODULE_STATE_INIT}"
    using trace_without_start [OF assms(2), of MODULE_STATE_NONE] by auto
  have "?tr = replicate (length ?tr) OpInit" using tr by (intro replicate_eqI) auto
  then have "mbUser ?m = run_hooks vt (replicate (length ?tr) OpInit) u" by simp
  moreover have "mb_destroy ?m = Inr (?m\<lparr>mbIsStop := True\<rparr>)"
    using st by (auto simp: mb_destroy_def mb_new_def mb_defs Let_def)
  ultimately show ?thesis using run by blast
qed

lemma module_init_never_finalised_witness:
  "\<exists>n m. mb_run network_vtable [OpInit, OpStop, OpFinal] (mb_new ()) = Inr m
     \<and> mbUser m = run_hooks network_vtable (replicate n OpInit) ()
     \<and> mb_destroy m = Inr (m\<lparr>mbIsStop := True\<rparr>)"
proof (rule module_init_never_finalised)
  show "overridden network_vtable" unfolding overridden_def
  proof
    fix op show "hook network_vtable op \<noteq> None" by (cases op) (simp_all add: network_vtable_def)
  qed
qed simp

text \<open>Destroying a module calls a pure virtual function exactly when its state is START or
  STOP: cModuleBase's destructor tries to stop or finalise it after the overrides are gone.\<close>

lemma module_destructor_pure_call:
  "mb_destroy m = Inl PureVirtualCall \<longleftrightarrow> mbState m = MODULE_STATE_START \<or> mbState m = MODULE_STATE_STOP"
  by (cases "mbState m") (simp_all add: mb_destroy_def mb_defs pure_vtable_def Let_def)

text \<open>the \<open>_isRunning\<close> flag is tested and set in two steps, so it does not keep two threads
  out of moduleInit: both can be inside it at once.\<close>

lemma module_init_not_exclusive:
  "\<exists>s. init_step\<^sup>*\<^sup>* init_start s \<and> isPc s 0 = I_Hook \<and> isPc s 1 = I_Hook"
proof -
  let ?pc = "\<lambda>a b. (\<lambda>_. I_Test)(0 := a, Suc 0 := b)"
  let ?s = "\<lambda>r a b. \<lparr>isRunning = r, isState = MODULE_STATE_NONE, isPc = ?pc a b\<rparr>"
  have eq: "init_start = ?s False I_Test I_Test" by (simp add: init_start_def fun_eq_iff)
  have "init_step (?s False I_Test I_Test) (?s False I_State I_Test)"
    using init_steps(1) [of "?s False I_Test I_Test" 0] by (simp add: fun_upd_twist)
  moreover have "init_step (?s False I_State I_Test) (?s False I_State I_State)"
    using init_steps(1) [of "?s False I_State I_Test" 1] by simp
  moreover have "init_step (?s False I_State I_State) (?s False I_Enter I_State)"
    using init_steps(2) [of "?s False I_State I_State" 0] by (simp add: fun_upd_twist)
  moreover have "init_step (?s False I_Enter I_State) (?s False I_Enter I_Enter)"
    using init_steps(2) [of "?s False I_Enter I_State" 1] by simp
  moreover have "init_step (?s False I_Enter I_Enter) (?s True I_Hook I_Enter)"
    using init_steps(3) [of "?s False I_Enter I_Enter" 0] by (simp add: fun_upd_twist)
  moreover have "init_step (?s True I_Hook I_Enter) (?s True I_Hook I_Hook)"
    using init_steps(3) [of "?s True I_Hook I_Enter" 1] by simp
  ultimately have "init_step\<^sup>*\<^sup>* init_start (?s True I_Hook I_Hook)"
    unfolding eq by (meson converse_rtranclp_into_rtranclp rtranclp.rtrancl_refl)
  then show ?thesis by force
qed

end
