(* ===== verification/Module_Manager.thy ===== *)
theory Module_Manager
  imports Module_Base Std_Map Event_Queue X_String
begin

text \<open>
  Ext::Module::cModuleManager (Module/EXModuleManager.cpp/.hpp) and the Singleton template
  (Base/Singleton.hpp). A module is an address of the store \<open>mmStore\<close>, a shared_ptr an address
  or \<open>None\<close>; \<open>mmVt\<close> gives the class of the object at an address. \<open>mmLock\<close> is what the calling
  thread holds of \<open>_lckModule\<close>: taking it exclusively while holding it in any mode, or shared
  while holding it exclusively, never returns (\<open>SelfDeadlock\<close>); a second shared hold is
  granted, which is what happens while no other thread waits for the lock.
\<close>

datatype lock_state = LFree | LShared nat | LExcl

fun lock_shared :: "lock_state \<Rightarrow> lock_state res" where
  "lock_shared LFree = Inr (LShared 0)"
| "lock_shared (LShared n) = Inr (LShared (Suc n))"
| "lock_shared LExcl = Inl SelfDeadlock"

fun unlock_shared :: "lock_state \<Rightarrow> lock_state" where
  "unlock_shared (LShared (Suc n)) = LShared n"
| "unlock_shared l = LFree"

fun lock_excl :: "lock_state \<Rightarrow> lock_state res" where
  "lock_excl LFree = Inr LExcl"
| "lock_excl l = Inl SelfDeadlock"

record 'u cModuleManager =
  mmIsStop :: bool
  mmMap :: "(xstring, nat option) smap"
  mmLock :: lock_state
  mmQueue :: "notify_info equeue"
  mmStore :: "nat \<Rightarrow> 'u cModuleBase"
  mmVt :: "nat \<Rightarrow> 'u vtable"

definition mm_new :: "(nat \<Rightarrow> 'u cModuleBase) \<Rightarrow> (nat \<Rightarrow> 'u vtable) \<Rightarrow> 'u cModuleManager" where
  "mm_new store vt = \<lparr>mmIsStop = False, mmMap = [], mmLock = LFree, mmQueue = eq_new,
     mmStore = store, mmVt = vt\<rparr>"

subsection \<open>The registry\<close>

definition IsExistModule :: "xstring \<Rightarrow> 'u cModuleManager \<Rightarrow> (bool \<times> 'u cModuleManager) res" where
  "IsExistModule sModuleName mm =
     (case lock_shared (mmLock mm) of
        Inl e \<Rightarrow> Inl e
      | Inr l \<Rightarrow> Inr (smap_contains (mmMap mm) sModuleName, mm\<lparr>mmLock := unlock_shared l\<rparr>))"

definition GetModuleBase :: "xstring \<Rightarrow> 'u cModuleManager \<Rightarrow> (nat option \<times> 'u cModuleManager) res" where
  "GetModuleBase sModuleName mm =
     (case lock_shared (mmLock mm) of
        Inl e \<Rightarrow> Inl e
      | Inr l \<Rightarrow>
          (case IsExistModule sModuleName (mm\<lparr>mmLock := l\<rparr>) of
             Inl e \<Rightarrow> Inl e
           | Inr (ex, mm1) \<Rightarrow>
               Inr (if ex then the (map_of (mmMap mm1) sModuleName) else None,
                    mm1\<lparr>mmLock := unlock_shared (mmLock mm1)\<rparr>)))"

definition insertModule ::
    "xstring \<Rightarrow> xstring \<Rightarrow> nat option \<Rightarrow> 'u cModuleManager \<Rightarrow> (bool \<times> 'u cModuleManager) res" where
  "insertModule sModuleName sModuleGroup spModule mm =
     (case lock_excl (mmLock mm) of
        Inl e \<Rightarrow> Inl e
      | Inr l \<Rightarrow>
          (let mm1 = mm\<lparr>mmLock := l, mmMap := smap_assign sModuleName spModule (mmMap mm)\<rparr> in
           case spModule of
             None \<Rightarrow> Inl NullDeref
           | Some a \<Rightarrow>
               (case ModuleInit (mmVt mm1 a)
                       (mmStore mm1 a\<lparr>mbName := sModuleName, mbGroup := sModuleGroup\<rparr>) of
                  Inl e \<Rightarrow> Inl e
                | Inr (isSuccess, m) \<Rightarrow>
                    Inr (isSuccess, mm1\<lparr>mmStore := (mmStore mm1)(a := m), mmLock := LFree\<rparr>))))"

definition insertModule_nogroup ::
    "xstring \<Rightarrow> nat option \<Rightarrow> 'u cModuleManager \<Rightarrow> (bool \<times> 'u cModuleManager) res" where
  "insertModule_nogroup sModuleName spModule mm =
     (case lock_excl (mmLock mm) of
        Inl e \<Rightarrow> Inl e
      | Inr l \<Rightarrow>
          (let mm1 = mm\<lparr>mmLock := l, mmMap := smap_assign sModuleName spModule (mmMap mm)\<rparr> in
           case spModule of
             None \<Rightarrow> Inl NullDeref
           | Some a \<Rightarrow>
               (case ModuleInit (mmVt mm1 a) (mmStore mm1 a) of
                  Inl e \<Rightarrow> Inl e
                | Inr (isSuccess, m) \<Rightarrow>
                    Inr (isSuccess, mm1\<lparr>mmStore := (mmStore mm1)(a := m), mmLock := LFree\<rparr>))))"

text \<open>Both overloads of RegisterModule: the one taking a raw pointer only wraps it.\<close>

definition RegisterModule ::
    "xstring \<Rightarrow> xstring \<Rightarrow> nat option \<Rightarrow> 'u cModuleManager \<Rightarrow> (bool \<times> 'u cModuleManager) res" where
  "RegisterModule sModuleName sModuleGroup spModule mm =
     (case IsExistModule sModuleName mm of
        Inl e \<Rightarrow> Inl e
      | Inr (ex, mm1) \<Rightarrow>
          (if ex then Inr (False, mm1) else insertModule sModuleName sModuleGroup spModule mm1))"

definition deleteModule :: "xstring \<Rightarrow> 'u cModuleManager \<Rightarrow> (bool \<times> 'u cModuleManager) res" where
  "deleteModule sModuleName mm =
     (case lock_excl (mmLock mm) of
        Inl e \<Rightarrow> Inl e
      | Inr l \<Rightarrow>
          (case GetModuleBase sModuleName (mm\<lparr>mmLock := l\<rparr>) of
             Inl e \<Rightarrow> Inl e
           | Inr (None, mm1) \<Rightarrow> Inl NullDeref
           | Inr (Some a, mm1) \<Rightarrow>
               (case ModuleStop (mmVt mm1 a) (mmStore mm1 a) of
                  Inl e \<Rightarrow> Inl e
                | Inr (isStopped, m) \<Rightarrow>
                    (let mm2 = mm1\<lparr>mmStore := (mmStore mm1)(a := m)\<rparr> in
                     if \<not> isStopped then Inr (False, mm2\<lparr>mmLock := LFree\<rparr>)
                     else case ModuleFinal (mmVt mm2 a) (mmStore mm2 a) of
                         Inl e \<Rightarrow> Inl e
                       | Inr (isFinal, m') \<Rightarrow>
                           (let mm3 = mm2\<lparr>mmStore := (mmStore mm2)(a := m')\<rparr> in
                            if \<not> isFinal then Inr (False, mm3\<lparr>mmLock := LFree\<rparr>)
                            else Inr (True, mm3\<lparr>mmMap := smap_erase sModuleName (mmMap mm3),
                                               mmLock := LFree\<rparr>))))))"

definition UnRegisterModule :: "xstring \<Rightarrow> 'u cModuleManager \<Rightarrow> (bool \<times> 'u cModuleManager) res" where
  "UnRegisterModule sModuleName mm =
     (case IsExistModule sModuleName mm of
        Inl e \<Rightarrow> Inl e
      | Inr (ex, mm1) \<Rightarrow> (if \<not> ex then Inr (True, mm1) else deleteModule sModuleName mm1))"

text \<open>GetModule of EXModuleManager.hpp; the dynamic cast is the parameter \<open>cast\<close>.\<close>

definition GetModule ::
    "(nat \<Rightarrow> bool) \<Rightarrow> xstring \<Rightarrow> 'u cModuleManager \<Rightarrow> (nat option \<times> 'u cModuleManager) res" where
  "GetModule cast sModuleName mm =
     (case IsExistModule sModuleName mm of
        Inl e \<Rightarrow> Inl e
      | Inr (ex, mm1) \<Rightarrow>
          (if \<not> ex then Inr (None, mm1)
           else case GetModuleBase sModuleName mm1 of
               Inl e \<Rightarrow> Inl e
             | Inr (p, mm2) \<Rightarrow>
                 Inr (case p of None \<Rightarrow> None | Some a \<Rightarrow> if cast a then Some a else None, mm2)))"

subsection \<open>Notifications\<close>

definition NotifyAllModule :: "xstring \<Rightarrow> 'u cModuleManager \<Rightarrow> bool \<times> 'u cModuleManager" where
  "NotifyAllModule sNotifyJobs mm =
     (let info = notify_jobs sNotifyJobs in
      (True, mm\<lparr>mmQueue := eq_EnQueue info (mmQueue mm)\<rparr>))"

text \<open>The call \<open>_notifyQueue.EnQueue( sNotifyJobs )\<close> converts the string, not \<open>info\<close>.\<close>

definition NotifyGroupModule :: "xstring \<Rightarrow> xstring \<Rightarrow> 'u cModuleManager \<Rightarrow> bool \<times> 'u cModuleManager" where
  "NotifyGroupModule sGroup sNotifyJobs mm =
     (let info = notify_group sGroup sNotifyJobs in
      (True, mm\<lparr>mmQueue := eq_EnQueue (notify_jobs sNotifyJobs) (mmQueue mm)\<rparr>))"

text \<open>The body of the for loop of notifyAllModule, and the loop over the map.\<close>

definition notify_one_module :: "notify_info \<Rightarrow> nat option \<Rightarrow> 'u cModuleManager \<Rightarrow> 'u cModuleManager res" where
  "notify_one_module info value mm =
     (case lock_shared (mmLock mm) of
        Inl e \<Rightarrow> Inl e
      | Inr l \<Rightarrow>
          (case value of
             None \<Rightarrow> Inl NullDeref
           | Some a \<Rightarrow>
               (let m = mmStore mm a in
                if GetModuleState m \<noteq> MODULE_STATE_START then Inr (mm\<lparr>mmLock := unlock_shared l\<rparr>)
                else if \<not> xs_IsEmpty (niGroup info) \<and> mbGroup m \<noteq> niGroup info
                then Inr (mm\<lparr>mmLock := unlock_shared l\<rparr>)
                else case vcall (map_option (\<lambda>f. f (niJobs info)) (vNotify (mmVt mm a))) m of
                    Inl e \<Rightarrow> Inl e
                  | Inr (r, m') \<Rightarrow>
                      Inr (mm\<lparr>mmStore := (mmStore mm)(a := m'), mmLock := unlock_shared l\<rparr>))))"

fun notify_entries :: "notify_info \<Rightarrow> (xstring \<times> nat option) list \<Rightarrow> 'u cModuleManager \<Rightarrow> 'u cModuleManager res" where
  "notify_entries info [] mm = Inr mm"
| "notify_entries info ((key, value) # es) mm =
     (case notify_one_module info value mm of
        Inl e \<Rightarrow> Inl e
      | Inr mm' \<Rightarrow> notify_entries info es mm')"

text \<open>One round of the while loop of notifyAllModule; \<open>None\<close> while DeQueue waits.\<close>

definition notifyAllModule_round :: "'u cModuleManager \<Rightarrow> 'u cModuleManager res option" where
  "notifyAllModule_round mm =
     (if mmIsStop mm then Some (Inr mm)
      else case eq_DeQueue notify_none (mmQueue mm) of
          None \<Rightarrow> None
        | Some (info, q) \<Rightarrow>
            (let mm1 = mm\<lparr>mmQueue := q\<rparr> in
             if isEmpty info then Some (Inr mm1)
             else Some (notify_entries info (mmMap mm1) mm1)))"

text \<open>
  The destructor sets \<open>_isStop\<close> and joins the notification thread. The thread is before the test
  of the loop, inside DeQueue, or has left the loop.
\<close>

datatype notify_pc = NTest | NDeQueue | NExit

inductive notify_thread ::
    "notify_pc \<times> 'u cModuleManager \<Rightarrow> notify_pc \<times> 'u cModuleManager \<Rightarrow> bool" where
  go: "\<not> mmIsStop mm \<Longrightarrow> notify_thread (NTest, mm) (NDeQueue, mm)"
| exit: "mmIsStop mm \<Longrightarrow> notify_thread (NTest, mm) (NExit, mm)"
| round: "eq_DeQueue notify_none (mmQueue mm) = Some (info, q) \<Longrightarrow>
     (if isEmpty info then Inr (mm\<lparr>mmQueue := q\<rparr>)
      else notify_entries info (mmMap mm) (mm\<lparr>mmQueue := q\<rparr>)) = Inr mm' \<Longrightarrow>
     notify_thread (NDeQueue, mm) (NTest, mm')"

definition mm_destroy_begin :: "'u cModuleManager \<Rightarrow> 'u cModuleManager" where
  "mm_destroy_begin mm = mm\<lparr>mmIsStop := True\<rparr>"

inductive_cases notify_DeQueueE: "notify_thread (NDeQueue, mm) s"

subsection \<open>Singleton (Base/Singleton.hpp)\<close>

text \<open>\<open>_flag\<close> remembers that call_once has run; \<open>mk\<close> is what \<open>new T\<close> gives.\<close>

record 'a singleton =
  sgInstance :: "'a option"
  sgFlag :: bool

definition sg_init :: "'a singleton" where
  "sg_init = \<lparr>sgInstance = None, sgFlag = False\<rparr>"

definition GetInstance :: "'a \<Rightarrow> 'a singleton \<Rightarrow> 'a option \<times> 'a singleton" where
  "GetInstance mk g =
     (let g' = (if sgInstance g = None
                then (if sgFlag g then g else g\<lparr>sgInstance := Some mk, sgFlag := True\<rparr>)
                else g)
      in (sgInstance g', g'))"

definition DestroyInstance :: "'a singleton \<Rightarrow> 'a singleton" where
  "DestroyInstance g = (if sgInstance g \<noteq> None then g\<lparr>sgInstance := None\<rparr> else g)"

subsection \<open>Lemmas\<close>

definition mm_ok :: "'u cModuleManager \<Rightarrow> bool" where
  "mm_ok mm = (mmLock mm = LFree \<and> smap_ok (mmMap mm) \<and> (\<forall>(k, v) \<in> set (mmMap mm). v \<noteq> None))"

lemma mm_ok_lookup:
  "mm_ok mm \<Longrightarrow> smap_contains (mmMap mm) n \<Longrightarrow> \<exists>a. map_of (mmMap mm) n = Some (Some a)"
proof -
  assume ok: "mm_ok mm" and "smap_contains (mmMap mm) n"
  then obtain v where v: "map_of (mmMap mm) n = Some v" by (auto simp: smap_contains_def)
  then have "(n, v) \<in> set (mmMap mm)" by (rule map_of_SomeD)
  with ok have "v \<noteq> None" by (fastforce simp: mm_ok_def)
  with v show ?thesis by blast
qed

lemma IsExistModule_free [simp]:
  "mmLock mm = LFree \<Longrightarrow> IsExistModule n mm = Inr (smap_contains (mmMap mm) n, mm)"
  by (simp add: IsExistModule_def)

lemma GetModuleBase_free [simp]:
  "mmLock mm = LFree \<Longrightarrow> GetModuleBase n mm =
     Inr (if smap_contains (mmMap mm) n then the (map_of (mmMap mm) n) else None, mm)"
  by (simp add: GetModuleBase_def IsExistModule_def)

lemma GetModuleBase_excl [simp]: "mmLock mm = LExcl \<Longrightarrow> GetModuleBase n mm = Inl SelfDeadlock"
  by (simp add: GetModuleBase_def)

text \<open>What a registration leaves, whether or not moduleInit succeeds.\<close>

definition registered :: "xstring \<Rightarrow> xstring \<Rightarrow> nat \<Rightarrow> 'u cModuleBase \<Rightarrow> 'u cModuleManager \<Rightarrow> 'u cModuleManager" where
  "registered n g a m mm = mm\<lparr>mmMap := smap_assign n (Some a) (mmMap mm),
     mmStore := (mmStore mm)(a := m\<lparr>mbName := n, mbGroup := g\<rparr>)\<rparr>"

lemma RegisterModule_new:
  assumes "mmLock mm = LFree" and "\<not> smap_contains (mmMap mm) n"
    and "ModuleInit (mmVt mm a) ((mmStore mm a)\<lparr>mbName := n, mbGroup := g\<rparr>) = Inr (ok, m)"
  shows "RegisterModule n g (Some a) mm = Inr (ok, registered n g a m mm)"
proof -
  have "m\<lparr>mbName := n, mbGroup := g\<rparr> = m"
    using assms(3) by (auto simp: mb_defs Let_def split: if_splits option.splits prod.splits)
  with assms show ?thesis by (simp add: RegisterModule_def insertModule_def registered_def)
qed

lemma mm_ok_registered [inv_intros]: "mm_ok mm \<Longrightarrow> mm_ok (registered n g a m mm)"
  using smap.entries_assign [of "mmMap mm" n "Some a"]
  by (auto simp: mm_ok_def registered_def smap_ok_assign)

subsection \<open>Dispatching a notification\<close>

definition targeted :: "notify_info \<Rightarrow> 'u cModuleBase \<Rightarrow> bool" where
  "targeted info m =
     (mbState m = MODULE_STATE_START \<and> (niGroup info = [] \<or> mbGroup m = niGroup info))"

definition notified :: "'u vtable \<Rightarrow> xstring \<Rightarrow> 'u cModuleBase \<Rightarrow> 'u cModuleBase" where
  "notified vt jobs m = m\<lparr>mbUser := snd (the (vNotify vt) jobs (mbUser m))\<rparr>"

definition deliver :: "notify_info \<Rightarrow> nat set \<Rightarrow> 'u cModuleManager \<Rightarrow> 'u cModuleManager" where
  "deliver info A mm = mm\<lparr>mmStore := (\<lambda>a. if a \<in> A \<and> targeted info (mmStore mm a)
      then notified (mmVt mm a) (niJobs info) (mmStore mm a) else mmStore mm a)\<rparr>"

definition addrs :: "(xstring \<times> nat option) list \<Rightarrow> nat list" where
  "addrs es = List.map_filter snd es"

lemma addrs_simps [simp]: "addrs [] = []" "addrs ((k, None) # es) = addrs es"
  "addrs ((k, Some a) # es) = a # addrs es"
  by (simp_all add: addrs_def map_filter_def)

lemma notify_one_module_deliver:
  assumes "mmLock mm = LFree" and "vNotify (mmVt mm a) \<noteq> None"
  shows "notify_one_module info (Some a) mm = Inr (deliver info {a} mm)"
  using assms
  by (auto simp: notify_one_module_def mb_defs targeted_def xs_IsEmpty_def Let_def deliver_def
      notified_def split_beta fun_eq_iff intro!: cModuleManager.equality)

lemma deliver_deliver:
  "A \<inter> B = {} \<Longrightarrow> deliver info B (deliver info A mm) = deliver info (A \<union> B) mm"
  by (auto simp: deliver_def fun_eq_iff intro!: cModuleManager.equality)

lemma notify_entries_deliver:
  assumes "mmLock mm = LFree" and "\<forall>(k, v) \<in> set es. v \<noteq> None" and "distinct (addrs es)"
    and "\<forall>a \<in> set (addrs es). vNotify (mmVt mm a) \<noteq> None"
  shows "notify_entries info es mm = Inr (deliver info (set (addrs es)) mm)"
  using assms
proof (induction es arbitrary: mm)
  case Nil
  show ?case by (auto simp: deliver_def)
next
  case (Cons e es)
  from Cons.prems(2) obtain k a where e: "e = (k, Some a)" by (cases e) auto
  have eq: "mmLock (deliver info {a} mm) = mmLock mm" "mmVt (deliver info {a} mm) = mmVt mm"
    by (simp_all add: deliver_def)
  have "notify_entries info es (deliver info {a} mm)
      = Inr (deliver info (set (addrs es)) (deliver info {a} mm))"
    using Cons.prems e by (intro Cons.IH) (auto simp: eq)
  moreover have "{a} \<inter> set (addrs es) = {}" using Cons.prems(3) e by simp
  ultimately show ?case
    using Cons.prems e by (simp add: notify_one_module_deliver deliver_deliver)
qed

subsection \<open>Properties\<close>

text \<open>Registering a fresh module under a free name runs its moduleInit and puts it in the
  registry whether or not moduleInit succeeds: the answer is that of moduleInit, lookups of the
  name give the module, which is in state INIT with its name and group, lookups of other names
  are as before, and a second registration of the name is refused.\<close>

lemma RegisterModule_registers:
  assumes "mm_ok mm" and "\<not> smap_contains (mmMap mm) n" and "vInit (mmVt mm a) = Some f"
    and "mmStore mm a = mb_new u"
  shows "\<exists>mm'. RegisterModule n g (Some a) mm = Inr (fst (f u), mm') \<and> mm_ok mm'
     \<and> GetModuleBase n mm' = Inr (Some a, mm')
     \<and> mmStore mm' a = (mb_new (snd (f u)))\<lparr>mbName := n, mbGroup := g, mbState := MODULE_STATE_INIT\<rparr>
     \<and> (\<forall>k r. k = n \<or> GetModuleBase k mm \<noteq> Inr (r, mm) \<or> GetModuleBase k mm' = Inr (r, mm'))
     \<and> (\<forall>g' p. RegisterModule n g' p mm' = Inr (False, mm'))"
proof -
  define m where "m = (mb_new (snd (f u)))\<lparr>mbName := n, mbGroup := g, mbState := MODULE_STATE_INIT\<rparr>"
  have free: "mmLock mm = LFree" using assms(1) by (simp add: mm_ok_def)
  have init: "ModuleInit (mmVt mm a) ((mmStore mm a)\<lparr>mbName := n, mbGroup := g\<rparr>) = Inr (fst (f u), m)"
    using assms(3,4) by (simp add: mb_defs mb_new_def m_def split_beta)
  let ?mm = "registered n g a m mm"
  have reg: "RegisterModule n g (Some a) mm = Inr (fst (f u), ?mm)"
    by (rule RegisterModule_new [OF free assms(2) init])
  have free': "mmLock ?mm = LFree" using free by (simp add: registered_def)
  have "GetModuleBase n ?mm = Inr (Some a, ?mm)"
    using free' by (simp add: registered_def map_of_smap_assign)
  moreover have "mmStore ?mm a = m" by (simp add: registered_def m_def)
  moreover have "k = n \<or> GetModuleBase k mm \<noteq> Inr (r, mm) \<or> GetModuleBase k ?mm = Inr (r, ?mm)" for k r
    using free free' by (auto simp: registered_def map_of_smap_assign)
  moreover have "RegisterModule n g' p ?mm = Inr (False, ?mm)" for g' p
    using free' by (simp add: RegisterModule_def registered_def)
  ultimately show ?thesis
    using reg mm_ok_registered [OF assms(1)] unfolding m_def by blast
qed

text \<open>A class whose moduleInit fails and whose NotifyModule counts.\<close>

definition demo_vtable :: "nat vtable" where
  "demo_vtable = \<lparr>vInit = Some (\<lambda>u. (False, u)), vStart = Some (\<lambda>u. (True, u)),
     vStop = Some (\<lambda>u. (True, u)), vFinal = Some (\<lambda>u. (True, u)), vNotify = Some (\<lambda>j u. (True, Suc u))\<rparr>"

definition demo_mm :: "nat cModuleManager" where
  "demo_mm = mm_new (\<lambda>_. mb_new 0) (\<lambda>_. demo_vtable)"

lemma RegisterModule_registers_witness:
  "\<exists>mm'. RegisterModule [97] [103] (Some 3) demo_mm = Inr (False, mm') \<and> GetModuleBase [97] mm' = Inr (Some 3, mm')"
proof -
  have "mm_ok demo_mm" "\<not> smap_contains (mmMap demo_mm) [97]" "mmStore demo_mm 3 = mb_new 0"
    "vInit (mmVt demo_mm 3) = Some (\<lambda>u. (False, u))"
    by (simp_all add: demo_mm_def mm_new_def mm_ok_def smap_ok_def demo_vtable_def)
  from RegisterModule_registers [OF this(1,2,4,3), of "[103]"] show ?thesis by auto
qed

text \<open>UnRegisterModule of a registered module never returns: deleteModule holds the lock
  exclusively when it calls GetModuleBase, which takes it again.\<close>

lemma UnRegisterModule_deadlocks:
  assumes "mm_ok mm" and "smap_contains (mmMap mm) n"
  shows "UnRegisterModule n mm = Inl SelfDeadlock"
proof -
  have free: "mmLock mm = LFree" using assms(1) by (simp add: mm_ok_def)
  with assms(2) show ?thesis by (simp add: UnRegisterModule_def deleteModule_def)
qed

lemma UnRegisterModule_deadlocks_witness:
  "smap_contains (mmMap (registered [97] [] 3 (mb_new 0) demo_mm)) [97]
   \<and> UnRegisterModule [97] (registered [97] [] 3 (mb_new 0) demo_mm) = Inl SelfDeadlock"
proof -
  have ok: "mm_ok (registered [97] [] 3 (mb_new 0) demo_mm)"
    by (rule mm_ok_registered) (simp add: demo_mm_def mm_new_def mm_ok_def smap_ok_def)
  moreover have c: "smap_contains (mmMap (registered [97] [] 3 (mb_new 0) demo_mm)) [97]"
    by (simp add: registered_def)
  ultimately show ?thesis using UnRegisterModule_deadlocks [OF ok c] by blast
qed

text \<open>C6: the notification thread hands a queued notification to each registered module that is
  started and, when the notification names a group, is of that group: it runs its NotifyModule
  once with the jobs of the notification, and changes nothing else.\<close>

theorem notifyAllModule_dispatch:
  assumes "mm_ok mm" and "\<not> mmIsStop mm" and "mmQueue mm = \<lparr>eqItems = info # rest, eqStop = False\<rparr>"
    and "\<not> isEmpty info" and "distinct (addrs (mmMap mm))"
    and "\<forall>a \<in> set (addrs (mmMap mm)). vNotify (mmVt mm a) \<noteq> None"
  shows "notifyAllModule_round mm = Some (Inr
     (mm\<lparr>mmQueue := \<lparr>eqItems = rest, eqStop = False\<rparr>,
         mmStore := (\<lambda>a. if a \<in> set (addrs (mmMap mm)) \<and> mbState (mmStore mm a) = MODULE_STATE_START
               \<and> (niGroup info = [] \<or> mbGroup (mmStore mm a) = niGroup info)
             then (mmStore mm a)\<lparr>mbUser := snd (the (vNotify (mmVt mm a)) (niJobs info) (mbUser (mmStore mm a)))\<rparr>
             else mmStore mm a)\<rparr>))"
proof -
  let ?mm = "mm\<lparr>mmQueue := \<lparr>eqItems = rest, eqStop = False\<rparr>\<rparr>"
  have "notify_entries info (mmMap ?mm) ?mm = Inr (deliver info (set (addrs (mmMap ?mm))) ?mm)"
    using assms(1,5,6) by (intro notify_entries_deliver) (auto simp: mm_ok_def)
  with assms(2-4) show ?thesis
    by (simp add: notifyAllModule_round_def eq_DeQueue_def deliver_def targeted_def notified_def
        cong: if_cong)
qed

text \<open>A manager with two started modules of the groups "a" and "b".\<close>

definition two_mm :: "notify_info list \<Rightarrow> nat cModuleManager" where
  "two_mm q = demo_mm\<lparr>mmMap := [([1], Some 1), ([2], Some 2)],
     mmStore := (\<lambda>a. (mb_new 0)\<lparr>mbState := MODULE_STATE_START,
                  mbGroup := (if a = 1 then wlit ''a'' else wlit ''b'')\<rparr>),
     mmQueue := \<lparr>eqItems = q, eqStop = False\<rparr>\<rparr>"

lemma two_mm_ok:
  "mm_ok (two_mm q)" "\<not> mmIsStop (two_mm q)" "distinct (addrs (mmMap (two_mm q)))"
  "mmQueue (two_mm q) = \<lparr>eqItems = q, eqStop = False\<rparr>"
  "\<forall>a \<in> set (addrs (mmMap (two_mm q))). vNotify (mmVt (two_mm q) a) \<noteq> None"
  by (simp_all add: two_mm_def demo_mm_def mm_new_def mm_ok_def smap_ok_def demo_vtable_def)

theorem notifyAllModule_dispatch_witness:
  "\<exists>mm'. notifyAllModule_round (two_mm [notify_group (wlit ''a'') [7]]) = Some (Inr mm')
     \<and> mbUser (mmStore mm' 1) = 1 \<and> mbUser (mmStore mm' 2) = 0"
proof -
  have ne: "\<not> isEmpty (notify_group (wlit ''a'') [7])" by (simp add: isEmpty_def notify_group_def)
  show ?thesis
    using notifyAllModule_dispatch [OF two_mm_ok(1,2,4) ne two_mm_ok(3,5)]
    by (simp add: two_mm_def demo_mm_def mm_new_def demo_vtable_def mb_new_def notify_group_def
        wlit_def)
qed

text \<open>NotifyGroupModule notifies all groups: the group is not put into the queue, so the round
  that takes the notification runs NotifyModule of every registered started module, whatever its
  group.\<close>

lemma NotifyGroupModule_reaches_every_group:
  assumes "mm_ok mm" and "\<not> mmIsStop mm" and "mmQueue mm = eq_new" and "jobs \<noteq> []"
    and "distinct (addrs (mmMap mm))"
    and "\<forall>a \<in> set (addrs (mmMap mm)). vNotify (mmVt mm a) \<noteq> None"
  shows "\<exists>mm'. notifyAllModule_round (snd (NotifyGroupModule g jobs mm)) = Some (Inr mm') \<and>
     (\<forall>a \<in> set (addrs (mmMap mm)). mbState (mmStore mm a) = MODULE_STATE_START \<longrightarrow>
        mbUser (mmStore mm' a) = snd (the (vNotify (mmVt mm a)) jobs (mbUser (mmStore mm a))))"
proof -
  let ?m1 = "snd (NotifyGroupModule g jobs mm)" and ?info = "notify_jobs jobs"
  have m1: "?m1 = mm\<lparr>mmQueue := \<lparr>eqItems = [?info], eqStop = False\<rparr>\<rparr>"
    using assms(3) by (simp add: NotifyGroupModule_def eq_EnQueue_def eq_new_def)
  let ?m2 = "?m1\<lparr>mmQueue := eq_new\<rparr>"
  have "notify_entries ?info (mmMap ?m2) ?m2 = Inr (deliver ?info (set (addrs (mmMap ?m2))) ?m2)"
    using assms(1,5,6) by (intro notify_entries_deliver) (auto simp: m1 mm_ok_def)
  then have "notifyAllModule_round ?m1 = Some (Inr (deliver ?info (set (addrs (mmMap ?m2))) ?m2))"
    using assms(2,4) by (simp add: notifyAllModule_round_def m1 eq_DeQueue_def eq_new_def
        isEmpty_def notify_jobs_def)
  then show ?thesis by (simp add: deliver_def targeted_def notified_def notify_jobs_def m1)
qed

lemma NotifyGroupModule_reaches_every_group_witness:
  "\<exists>mm'. notifyAllModule_round (snd (NotifyGroupModule (wlit ''a'') [7] (two_mm []))) = Some (Inr mm')
     \<and> mbGroup (mmStore (two_mm []) 2) \<noteq> wlit ''a'' \<and> mbUser (mmStore mm' 2) = 1"
proof -
  have q: "mmQueue (two_mm []) = eq_new" by (simp add: two_mm_ok eq_new_def)
  have j: "[7 :: wchar] \<noteq> []" by simp
  have g: "mbGroup (mmStore (two_mm []) 2) \<noteq> wlit ''a''" by (simp add: two_mm_def wlit_def)
  obtain mm' where mm': "notifyAllModule_round (snd (NotifyGroupModule (wlit ''a'') [7] (two_mm []))) = Some (Inr mm')"
    and "\<forall>a \<in> set (addrs (mmMap (two_mm []))). mbState (mmStore (two_mm []) a) = MODULE_STATE_START \<longrightarrow>
       mbUser (mmStore mm' a) = snd (the (vNotify (mmVt (two_mm []) a)) [7] (mbUser (mmStore (two_mm []) a)))"
    using NotifyGroupModule_reaches_every_group [OF two_mm_ok(1,2) q j two_mm_ok(3,5), of "wlit ''a''"]
    by blast
  then have "mbUser (mmStore mm' 2) = 1"
    by (simp add: two_mm_def demo_mm_def mm_new_def demo_vtable_def mb_new_def)
  with mm' g show ?thesis by blast
qed

text \<open>Destroying the manager hangs: when the notification thread waits in DeQueue on the empty
  queue, setting \<open>_isStop\<close> does not wake it, it never leaves its loop, and the join of the
  destructor never returns (the queue itself is stopped only after the join).\<close>

lemma manager_destructor_hangs:
  assumes "mmQueue mm = eq_new" and "notify_thread\<^sup>*\<^sup>* (NDeQueue, mm_destroy_begin mm) (pc, mm')"
  shows "pc \<noteq> NExit"
proof -
  have stuck: "\<not> notify_thread (NDeQueue, mm_destroy_begin mm) s" for s
    using assms(1) by (auto simp: mm_destroy_begin_def eq_new_def eq_DeQueue_def elim: notify_DeQueueE)
  from assms(2) have "(pc, mm') = (NDeQueue, mm_destroy_begin mm)"
    by (cases rule: converse_rtranclpE) (auto simp: stuck)
  then show ?thesis by simp
qed

lemma manager_destructor_hangs_witness:
  "notify_thread (NTest, demo_mm) (NDeQueue, demo_mm) \<and> NDeQueue \<noteq> NExit"
proof
  show "notify_thread (NTest, demo_mm) (NDeQueue, demo_mm)"
    by (rule notify_thread.go) (simp add: demo_mm_def mm_new_def)
  have "mmQueue demo_mm = eq_new" by (simp add: demo_mm_def mm_new_def)
  from manager_destructor_hangs [OF this, of NDeQueue "mm_destroy_begin demo_mm"]
  show "NDeQueue \<noteq> NExit" by simp
qed

text \<open>A Singleton hands out the same object until DestroyInstance, and after it no object ever
  again: call_once has been used up, so GetInstance gives a null pointer from then on.\<close>

lemma singleton_dead_after_destroy:
  "fst (GetInstance a sg_init) = Some a
   \<and> GetInstance b (snd (GetInstance a sg_init)) = (Some a, snd (GetInstance a sg_init))
   \<and> GetInstance b (DestroyInstance (snd (GetInstance a sg_init)))
       = (None, DestroyInstance (snd (GetInstance a sg_init)))"
  by (simp add: GetInstance_def DestroyInstance_def sg_init_def)

end
