(* ===== verification/Packet.thy ===== *)
theory Packet
  imports Ex_Prelude
begin

text \<open>
  The packets of Ext::Network (Network/EXNetwork.cpp convertReceiveMsg and convertSendMsg,
  EXNetwork.hpp ExtractPacketData): four bytes with the size of the body and four with the
  message id, both big endian, then the body. A char is a \<open>byte\<close>; \<open>tuPacketMsg\<close> is the tuple of
  size, id and body.
\<close>

type_synonym PacketData = "byte list"
type_synonym MSGID = u32
type_synonym tuPacketMsg = "nat \<times> MSGID \<times> PacketData"

subsection \<open>convertSendMsg\<close>

definition be32_bytes :: "u32 \<Rightarrow> byte list" where
  "be32_bytes n = [ucast (drop_bit 24 n AND 255), ucast (drop_bit 16 n AND 255),
                   ucast (drop_bit 8 n AND 255), ucast (n AND 255)]"

definition convertSendMsg :: "MSGID \<Rightarrow> PacketData \<Rightarrow> byte list" where
  "convertSendMsg msgId vecData =
     (let nSize = word_of_nat (length vecData) in be32_bytes nSize @ be32_bytes msgId @ vecData)"

subsection \<open>convertReceiveMsg\<close>

text \<open>The loop that moves the first bytes of vecChar to vecTmp: at(0) throws when none is left.\<close>

fun move_front :: "nat \<Rightarrow> byte list \<Rightarrow> byte list \<Rightarrow> (byte list \<times> byte list) res" where
  "move_front 0 vecTmp vecChar = Inr (vecTmp, vecChar)"
| "move_front (Suc n) vecTmp [] = Inl OutOfRange"
| "move_front (Suc n) vecTmp (c # vecChar) = move_front n (vecTmp @ [c]) vecChar"

definition be32_value :: "byte list \<Rightarrow> u32" where
  "be32_value v = push_bit 8 (push_bit 8 (push_bit 8 (ucast (v ! 0)) OR ucast (v ! 1)) OR ucast (v ! 2))
     OR ucast (v ! 3)"

definition convertReceiveMsg :: "byte list \<Rightarrow> tuPacketMsg res" where
  "convertReceiveMsg vecChar =
     (case move_front 4 [] vecChar of
        Inl e \<Rightarrow> Inl e
      | Inr (vecTmp, vecChar1) \<Rightarrow>
          (let nSize = be32_value vecTmp in
           case move_front 4 [] vecChar1 of
             Inl e \<Rightarrow> Inl e
           | Inr (vecTmp', vecChar2) \<Rightarrow>
               (let nMsgId = be32_value vecTmp';
                    nBody = min nSize (word_of_nat (length vecChar2))
                in Inr (unat nSize, nMsgId, take (unat nBody) vecChar2))))"

subsection \<open>ExtractPacketData\<close>

text \<open>A trivially copyable T is its sizeof(T) bytes; \<open>T data{}\<close> starts as zeros.\<close>

definition ExtractPacketData :: "nat \<Rightarrow> tuPacketMsg \<Rightarrow> byte list" where
  "ExtractPacketData sizeT tuMsg =
     (let vecRaw = snd (snd tuMsg); n = min sizeT (length vecRaw)
      in take n vecRaw @ replicate (sizeT - n) 0)"

subsection \<open>Lemmas\<close>

lemma length_be32_bytes [simp]: "length (be32_bytes n) = 4"
  by (simp add: be32_bytes_def)

lemma take_length_take: "take k r = take (length (take k r)) r"
  by (cases "k \<le> length r") simp_all

lemma and255: "(w AND 255 :: u32) = take_bit 8 w"
  by (simp add: take_bit_eq_mask mask_eq_exp_minus_1)

lemma ucast_and255: "(ucast (w AND 255 :: u32) :: byte) = ucast w"
  unfolding and255 by (rule bit_word_eqI) (auto simp: bit_simps)

lemma be32_value_bytes: "be32_value (be32_bytes n) = n"
proof (rule bit_word_eqI)
  fix i assume "i < LENGTH(32)"
  then have "i < 32" by simp
  then consider "i < 8" | "8 \<le> i" "i < 16" | "16 \<le> i" "i < 24" | "24 \<le> i" "i < 32" by linarith
  then show "bit (be32_value (be32_bytes n)) i = bit n i"
    by cases (auto simp: be32_value_def be32_bytes_def ucast_and255 bit_simps)
qed

lemma move_front_append: "length h = n \<Longrightarrow> move_front n t (h @ r) = Inr (t @ h, r)"
proof (induction n arbitrary: t h)
  case (Suc n)
  then obtain c h' where "h = c # h'" "length h' = n" by (cases h) auto
  with Suc.IH [of h' "t @ [c]"] show ?case by simp
qed simp

lemma move_front_short: "length v < n \<Longrightarrow> move_front n t v = Inl OutOfRange"
proof (induction n arbitrary: t v)
  case (Suc n)
  then show ?case by (cases v) auto
qed simp

lemma convertReceiveMsg_split:
  assumes "length h = 4" and "length i = 4"
  shows "convertReceiveMsg (h @ i @ r) =
    Inr (unat (be32_value h), be32_value i, take (unat (min (be32_value h) (word_of_nat (length r)))) r)"
  using assms by (simp add: convertReceiveMsg_def move_front_append Let_def)

lemma length_convertSendMsg [simp]: "length (convertSendMsg i d) = 8 + length d"
  by (simp add: convertSendMsg_def)

subsection \<open>Properties\<close>

text \<open>C1: a packet survives the way from convertSendMsg to convertReceiveMsg, whatever the
  receive buffer holds behind it: size, message id and body come back, and ExtractPacketData
  gives the bytes of a structure of that size.\<close>

theorem packet_roundtrip:
  assumes "length data + length junk < 2 ^ 32"
  shows "convertReceiveMsg (convertSendMsg msgId data @ junk) = Inr (length data, msgId, data)
     \<and> ExtractPacketData (length data) (length data, msgId, data) = data"
proof -
  have "unat (word_of_nat (length (data @ junk)) :: u32) = length data + length junk"
    unfolding length_append unat_of_nat using assms by (intro mod_less) simp
  moreover have "unat (word_of_nat (length data) :: u32) = length data"
    unfolding unat_of_nat using assms by (intro mod_less) simp
  ultimately have le: "word_of_nat (length data) \<le> (word_of_nat (length (data @ junk)) :: u32)"
    by (simp only: word_le_nat_alt)
  have "unat (word_of_nat (length data) :: u32) = length data"
    using assms by (simp add: unat_of_nat)
  then show ?thesis
    using convertReceiveMsg_split [of "be32_bytes (word_of_nat (length data))" "be32_bytes msgId" "data @ junk"] le
    by (simp add: convertSendMsg_def be32_value_bytes min_def ExtractPacketData_def)
qed

theorem packet_roundtrip_witness:
  "convertReceiveMsg (convertSendMsg 7 [1, 200, 3] @ [0, 0]) = Inr (3, 7, [1, 200, 3])"
  using packet_roundtrip [of "[1, 200, 3]" "[0, 0]" 7] by simp

text \<open>C32: convertReceiveMsg throws exactly on buffers shorter than the header, and otherwise gives
  a body no longer than the size field and the buffer.\<close>

theorem convertReceiveMsg_total:
  "convertReceiveMsg v = Inl OutOfRange \<and> length v < 8
   \<or> (\<exists>n i d. convertReceiveMsg v = Inr (n, i, d) \<and> 8 \<le> length v \<and> length d \<le> n
        \<and> d = take (length d) (drop 8 v))"
proof (cases "length v < 8")
  case True
  show ?thesis
  proof (cases "length v < 4")
    case True
    then show ?thesis by (simp add: convertReceiveMsg_def move_front_short)
  next
    case False
    define h r where "h = take 4 v" and "r = drop 4 v"
    have v: "v = h @ r" and h: "length h = 4" and r: "length r < 4"
      using True False by (simp_all add: h_def r_def)
    show ?thesis
      using True h r unfolding v by (simp add: convertReceiveMsg_def move_front_append move_front_short Let_def)
  qed
next
  case False
  define h i r where "h = take 4 v" and "i = take 4 (drop 4 v)" and "r = drop 8 v"
  have v: "v = h @ i @ r"
    unfolding h_def i_def r_def by (metis add_numeral_left append_take_drop_id drop_drop numeral_Bit0 numeral_code(2))
  have l: "length h = 4" "length i = 4" using False by (simp_all add: h_def i_def)
  let ?k = "unat (min (be32_value h) (word_of_nat (length r)))"
  have "?k \<le> unat (be32_value h)" by (simp add: min_def word_le_nat_alt)
  moreover have "take ?k r = take (length (take ?k r)) r" by (rule take_length_take)
  moreover have "convertReceiveMsg v = Inr (unat (be32_value h), be32_value i, take ?k r)"
    unfolding v by (rule convertReceiveMsg_split [OF l])
  ultimately show ?thesis using False unfolding r_def [symmetric] by fastforce
qed

end
