(* ===== verification/Tcp_Socket.thy ===== *)
theory Tcp_Socket
  imports Packet X_String
begin

text \<open>
  The TCP layer (Network/include/Socket/Socket.cpp, TCPClient.cpp, TCPServer.cpp). The socket
  calls of the operating system are a parameter, the record \<open>os\<close> of functions on a state \<open>'w\<close> of
  the outside world; \<open>win\<close> selects the WINDOWS branch of the sources. Sockets are integers with
  -1 for INVALID_SOCKET. A receive buffer is the list of its bytes (a null pointer and an empty
  buffer are treated alike by the code), writing or reading outside it is \<open>OutOfBounds\<close>. The
  int counter \<open>tot\<close> (total in the sources) and its conversions to size_t are written out. Log messages are not
  modelled. Loops that wait on the peer are \<open>partial_function\<close>s, \<open>None\<close> meaning for ever.
\<close>

record timeval =
  tv_sec :: int
  tv_usec :: int

datatype recv_res = RData "byte list" | RClosed | RError bool  \<comment> \<open>the flag is WSAENOBUFS\<close>

record addrinfo =
  ai_family :: int
  ai_socktype :: int
  ai_protocol :: int
  ai_addr :: nat

datatype sockopt = SO_RCVTIMEO timeval | SO_SNDTIMEO timeval | SO_MSEC bool u32 | TCP_NODELAY | SO_REUSEADDR

record 'w os =
  os_getaddrinfo :: "byte list option \<Rightarrow> byte list \<Rightarrow> 'w \<Rightarrow> (int \<times> addrinfo list) \<times> 'w"
  os_socket :: "int \<Rightarrow> int \<Rightarrow> int \<Rightarrow> 'w \<Rightarrow> int \<times> 'w"
  os_setsockopt :: "int \<Rightarrow> sockopt \<Rightarrow> 'w \<Rightarrow> int \<times> 'w"
  os_connect :: "int \<Rightarrow> nat \<Rightarrow> 'w \<Rightarrow> int \<times> 'w"
  os_bind :: "int \<Rightarrow> nat \<Rightarrow> 'w \<Rightarrow> int \<times> 'w"
  os_listen :: "int \<Rightarrow> 'w \<Rightarrow> int \<times> 'w"
  os_select :: "int list \<Rightarrow> timeval option \<Rightarrow> 'w \<Rightarrow> (int \<times> int list) \<times> 'w"
  os_accept :: "int \<Rightarrow> 'w \<Rightarrow> int \<times> 'w"
  os_send :: "int \<Rightarrow> byte list \<Rightarrow> 'w \<Rightarrow> int \<times> 'w"
  os_recv :: "int \<Rightarrow> int \<Rightarrow> 'w \<Rightarrow> recv_res \<times> 'w"
  os_shutdown :: "int \<Rightarrow> 'w \<Rightarrow> int \<times> 'w"
  os_close :: "int \<Rightarrow> 'w \<Rightarrow> 'w"

abbreviation INVALID_SOCKET :: int where "INVALID_SOCKET \<equiv> -1"

subsection \<open>Socket.cpp\<close>

definition TimevalFromMsec :: "u32 \<Rightarrow> timeval" where
  "TimevalFromMsec time_msec = \<lparr>tv_sec = uint (time_msec div 1000), tv_usec = uint ((time_msec mod 1000) * 1000)\<rparr>"

definition select_timeval :: "nat \<Rightarrow> timeval option" where
  "select_timeval msec =
     (if msec > 0 then Some \<lparr>tv_sec = int (msec div 1000), tv_usec = int ((msec mod 1000) * 1000)\<rparr> else None)"

definition SelectSocket :: "'w os \<Rightarrow> bool \<Rightarrow> int \<Rightarrow> nat \<Rightarrow> 'w \<Rightarrow> int \<times> 'w" where
  "SelectSocket os win sd msec w =
     (if \<not> win \<and> sd < 0 then (-1, w)
      else let ((res, rset), w') = os_select os [sd] (select_timeval msec) w in
        if res \<le> 0 then (res, w')
        else if sd \<notin> set rset then (-1, w')
        else (1, w'))"

fun first_set :: "int list \<Rightarrow> int list \<Rightarrow> nat \<Rightarrow> nat option" where
  "first_set [] rset i = None"
| "first_set (s # ss) rset i = (if s \<in> set rset then Some i else first_set ss rset (Suc i))"

text \<open>The answer and the selected index, unchanged (\<open>sel\<close>) when none is found.\<close>

definition SelectSockets :: "'w os \<Rightarrow> int list \<Rightarrow> nat \<Rightarrow> nat \<Rightarrow> 'w \<Rightarrow> (int \<times> nat) \<times> 'w" where
  "SelectSockets os sockets msec sel w =
     (if sockets = [] then ((-1, sel), w)
      else let ((res, rset), w') = os_select os sockets (select_timeval msec) w in
        if res \<le> 0 then ((res, sel), w')
        else case first_set sockets rset 0 of
            Some i \<Rightarrow> ((1, i), w')
          | None \<Rightarrow> ((-1, sel), w'))"

subsection \<open>Sending\<close>

text \<open>
  The do-while loop of both Send functions. \<open>tot\<close> is an int, \<open>uSize - tot\<close> and the
  comparison are on size_t.
\<close>

partial_function (option) send_loop ::
    "'w os \<Rightarrow> int \<Rightarrow> byte list \<Rightarrow> int \<Rightarrow> 'w \<Rightarrow> (bool \<times> 'w) option" where
  "send_loop os sock pData tot w =
     (let (nSent, w') = os_send os sock (drop (nat tot) pData) w in
      if nSent < 0 then Some (False, w')
      else let tot' = to_int32 (tot + nSent) in
        if to_size tot' < length pData then send_loop os sock pData tot' w'
        else Some (True, w'))"

declare send_loop.simps [code]

subsection \<open>Receiving\<close>

definition write_at :: "byte list \<Rightarrow> int \<Rightarrow> byte list \<Rightarrow> byte list res" where
  "write_at buf pos d =
     (if 0 \<le> pos \<and> nat pos + length d \<le> length buf
      then Inr (take (nat pos) buf @ d @ drop (nat pos + length d) buf)
      else Inl OutOfBounds)"

text \<open>\<open>recv( sock, pData + tot, len, 0 )\<close>: its result and the buffer after it; len is an int on
  Windows. The second component of the result says that the call failed with WSAENOBUFS.\<close>

definition recv_len :: "bool \<Rightarrow> nat \<Rightarrow> int" where
  "recv_len win n = (if win then to_int32 (int n) else int n)"

definition recv_into ::
    "'w os \<Rightarrow> int \<Rightarrow> byte list \<Rightarrow> int \<Rightarrow> int \<Rightarrow> 'w \<Rightarrow> (int \<times> bool \<times> byte list \<times> 'w) res" where
  "recv_into os sock buf tot len w =
     (case os_recv os sock len w of
        (RData d, w') \<Rightarrow> map_sum id (\<lambda>buf'. (int (length d), False, buf', w')) (write_at buf tot d)
      | (RClosed, w') \<Rightarrow> Inr (0, False, buf, w')
      | (RError nobufs, w') \<Rightarrow> Inr (-1, nobufs, buf, w'))"

text \<open>The size field, built from (signed) chars: each is converted to unsigned int with sign
  extension before it is or-ed in.\<close>

definition header_size :: "byte list \<Rightarrow> u32" where
  "header_size v = push_bit 8 (push_bit 8 (push_bit 8 (scast (v ! 0)) OR scast (v ! 1)) OR scast (v ! 2))
     OR scast (v ! 3)"

text \<open>The do-while loop that reads the body.\<close>

partial_function (option) recv_loop ::
    "'w os \<Rightarrow> bool \<Rightarrow> int \<Rightarrow> bool \<Rightarrow> nat \<Rightarrow> nat \<Rightarrow> int \<Rightarrow> byte list \<Rightarrow> 'w \<Rightarrow> (int \<times> byte list \<times> 'w) res option" where
  "recv_loop os win sock bReadFully uMaxSize tries tot buf w =
     (case recv_into os sock buf tot (recv_len win (size_sub uMaxSize (to_size tot))) w of
        Inl e \<Rightarrow> Some (Inl e)
      | Inr (nRecvd, nobufs, buf', w') \<Rightarrow>
          (if nRecvd = 0 then Some (Inr (tot, buf', w'))
           else if win \<and> nRecvd < 0 \<and> nobufs then
             (if tries < 1000
              then (if bReadFully \<and> to_size tot < uMaxSize
                    then recv_loop os win sock bReadFully uMaxSize (Suc tries) tot buf' w'
                    else Some (Inr (tot, buf', w')))
              else Some (Inr (tot, buf', w')))
           else let tot' = to_int32 (tot + nRecvd) in
             if bReadFully \<and> to_size tot' < uMaxSize
             then recv_loop os win sock bReadFully uMaxSize tries tot' buf' w'
             else Some (Inr (tot', buf', w'))))"

declare recv_loop.simps [code]

text \<open>The common body of CTCPClient::Receive and CTCPServer::Receive.\<close>

definition recv_packet ::
    "'w os \<Rightarrow> bool \<Rightarrow> int \<Rightarrow> byte list \<Rightarrow> bool \<Rightarrow> 'w \<Rightarrow> (int \<times> byte list \<times> 'w) res option" where
  "recv_packet os win sock buf bReadFully w =
     (case recv_into os sock buf 0 4 w of
        Inl e \<Rightarrow> Some (Inl e)
      | Inr (nSize, nobufs, buf1, w1) \<Rightarrow>
          (if nSize = 0 then Some (Inr (0, buf1, w1))
           else if length buf1 < 4 then Some (Inl OutOfBounds)
           else let nTotalSize = header_size buf1;
                    uMaxSize = (if nTotalSize > 0 then unat nTotalSize else length buf) in
             case recv_into os sock buf1 nSize 4 w1 of
               Inl e \<Rightarrow> Some (Inl e)
             | Inr (nSize', nobufs', buf2, w2) \<Rightarrow>
                 (if nSize' = 0 then Some (Inr (0, buf2, w2))
                  else recv_loop os win sock bReadFully uMaxSize 0 (nSize + nSize') buf2 w2)))"

subsection \<open>CTCPClient\<close>

datatype SocketStatus = CONNECTED | DISCONNECTED

record tcp_client =
  tcStatus :: SocketStatus
  tcSocket :: int

definition tc_new :: tcp_client where
  "tc_new = \<lparr>tcStatus = DISCONNECTED, tcSocket = INVALID_SOCKET\<rparr>"

definition tc_SetRcvTimeout_tv :: "'w os \<Rightarrow> timeval \<Rightarrow> tcp_client \<Rightarrow> 'w \<Rightarrow> bool \<times> 'w" where
  "tc_SetRcvTimeout_tv os timeout c w =
     (let (iErr, w') = os_setsockopt os (tcSocket c) (SO_RCVTIMEO timeout) w in (\<not> iErr < 0, w'))"

definition tc_SetSndTimeout_tv :: "'w os \<Rightarrow> timeval \<Rightarrow> tcp_client \<Rightarrow> 'w \<Rightarrow> bool \<times> 'w" where
  "tc_SetSndTimeout_tv os timeout c w =
     (let (iErr, w') = os_setsockopt os (tcSocket c) (SO_SNDTIMEO timeout) w in (\<not> iErr < 0, w'))"

definition tc_SetRcvTimeout :: "'w os \<Rightarrow> bool \<Rightarrow> u32 \<Rightarrow> tcp_client \<Rightarrow> 'w \<Rightarrow> bool \<times> 'w" where
  "tc_SetRcvTimeout os win msec_timeout c w =
     (if \<not> win then tc_SetRcvTimeout_tv os (TimevalFromMsec msec_timeout) c w
      else let (iErr, w') = os_setsockopt os (tcSocket c) (SO_MSEC True msec_timeout) w in (\<not> iErr < 0, w'))"

definition tc_SetSndTimeout :: "'w os \<Rightarrow> bool \<Rightarrow> u32 \<Rightarrow> tcp_client \<Rightarrow> 'w \<Rightarrow> bool \<times> 'w" where
  "tc_SetSndTimeout os win msec_timeout c w =
     (if \<not> win then tc_SetSndTimeout_tv os (TimevalFromMsec msec_timeout) c w
      else let (iErr, w') = os_setsockopt os (tcSocket c) (SO_MSEC False msec_timeout) w in (\<not> iErr < 0, w'))"

definition tc_Disconnect :: "'w os \<Rightarrow> bool \<Rightarrow> tcp_client \<Rightarrow> 'w \<Rightarrow> bool \<times> tcp_client \<times> 'w" where
  "tc_Disconnect os win c w =
     (if tcStatus c \<noteq> CONNECTED then (True, c, w)
      else let c1 = c\<lparr>tcStatus := DISCONNECTED\<rparr> in
        if win then
          (let (iResult, w1) = os_shutdown os (tcSocket c1) w in
           if iResult = -1 then (False, c1, w1)
           else (True, c1\<lparr>tcSocket := INVALID_SOCKET\<rparr>, os_close os (tcSocket c1) w1))
        else (True, c1\<lparr>tcSocket := INVALID_SOCKET\<rparr>, os_close os (tcSocket c1) w))"

text \<open>The WINDOWS branch of Connect uses the first address, the other tries them in turn.\<close>

definition tc_connect_win ::
    "'w os \<Rightarrow> byte list \<Rightarrow> byte list \<Rightarrow> tcp_client \<Rightarrow> 'w \<Rightarrow> (bool \<times> tcp_client \<times> 'w) res" where
  "tc_connect_win os strServer strPort c w =
     (let ((iResult, addrs), w1) = os_getaddrinfo os (Some strServer) strPort w in
      if iResult \<noteq> 0 then Inr (False, c, w1)
      else case addrs of
          [] \<Rightarrow> Inl NullDeref
        | a # _ \<Rightarrow>
            (let (sock, w2) = os_socket os (ai_family a) (ai_socktype a) (ai_protocol a) w1;
                 c1 = c\<lparr>tcSocket := sock\<rparr> in
             if sock = INVALID_SOCKET then Inr (False, c1, w2)
             else let (iErr, w3) = os_setsockopt os sock TCP_NODELAY w2 in
               if iErr = INVALID_SOCKET then Inr (False, c1, os_close os sock w3)
               else let (iCon, w4) = os_connect os sock (ai_addr a) w3 in
                 if iCon \<noteq> -1 then Inr (True, c1\<lparr>tcStatus := CONNECTED\<rparr>, w4)
                 else Inr (False, c1, w4)))"

fun tc_connect_unix :: "'w os \<Rightarrow> addrinfo list \<Rightarrow> tcp_client \<Rightarrow> 'w \<Rightarrow> bool \<times> tcp_client \<times> 'w" where
  "tc_connect_unix os [] c w = (False, c, w)"
| "tc_connect_unix os (a # as) c w =
     (let (sock, w1) = os_socket os (ai_family a) (ai_socktype a) (ai_protocol a) w;
          c1 = c\<lparr>tcSocket := sock\<rparr> in
      if sock < 0 then tc_connect_unix os as c1 w1
      else let (iConRet, w2) = os_connect os sock (ai_addr a) w1 in
        if iConRet \<ge> 0 then (True, c1\<lparr>tcStatus := CONNECTED\<rparr>, w2)
        else tc_connect_unix os as c1 (os_close os sock w2))"

definition tc_Connect ::
    "'w os \<Rightarrow> bool \<Rightarrow> byte list \<Rightarrow> byte list \<Rightarrow> tcp_client \<Rightarrow> 'w \<Rightarrow> (bool \<times> tcp_client \<times> 'w) res" where
  "tc_Connect os win strServer strPort c w =
     (let (c1, w1) = (if tcStatus c = CONNECTED then snd (tc_Disconnect os win c w) else (c, w)) in
      if win then tc_connect_win os strServer strPort c1 w1
      else let ((iAddrInfoRet, addrs), w2) = os_getaddrinfo os (Some strServer) strPort w1 in
        if iAddrInfoRet \<noteq> 0 then Inr (False, c1, w2)
        else Inr (tc_connect_unix os addrs c1 w2))"

definition tc_Send :: "'w os \<Rightarrow> byte list \<Rightarrow> tcp_client \<Rightarrow> 'w \<Rightarrow> (bool \<times> 'w) option" where
  "tc_Send os pData c w =
     (if pData = [] then Some (False, w)
      else if tcStatus c \<noteq> CONNECTED then Some (False, w)
      else send_loop os (tcSocket c) pData 0 w)"

definition tc_Receive ::
    "'w os \<Rightarrow> bool \<Rightarrow> byte list \<Rightarrow> bool \<Rightarrow> tcp_client \<Rightarrow> 'w \<Rightarrow> (int \<times> byte list \<times> 'w) res option" where
  "tc_Receive os win buf bReadFully c w =
     (if buf = [] then Some (Inr (0, buf, w))
      else if tcStatus c \<noteq> CONNECTED then Some (Inr (-1, buf, w))
      else recv_packet os win (tcSocket c) buf bReadFully w)"

definition tc_destroy :: "'w os \<Rightarrow> bool \<Rightarrow> tcp_client \<Rightarrow> 'w \<Rightarrow> 'w" where
  "tc_destroy os win c w =
     (if tcStatus c = CONNECTED then snd (snd (tc_Disconnect os win c w)) else w)"

subsection \<open>CTCPServer\<close>

text \<open>\<open>svAddr\<close> is the Windows m_pResultAddrInfo (\<open>None\<close> for a null pointer), \<open>svPort\<close> the port of
  the Unix m_ServAddr.\<close>

record tcp_server =
  svListen :: int
  svAddr :: "addrinfo option"
  svPort :: nat

definition atoi :: "byte list \<Rightarrow> int" where
  "atoi s = (case stoi32 (map ucast s) of Inr v \<Rightarrow> v | Inl _ \<Rightarrow> 0)"

definition sv_new :: "'w os \<Rightarrow> bool \<Rightarrow> byte list \<Rightarrow> 'w \<Rightarrow> (tcp_server \<times> 'w) res" where
  "sv_new os win strPort w =
     (if win then
        (let ((iResult, addrs), w1) = os_getaddrinfo os None strPort w in
         if iResult \<noteq> 0 then Inl ResolveError
         else Inr (\<lparr>svListen = INVALID_SOCKET, svAddr = (case addrs of [] \<Rightarrow> None | a # _ \<Rightarrow> Some a),
                    svPort = 0\<rparr>, w1))
      else Inr (\<lparr>svListen = INVALID_SOCKET, svAddr = None, svPort = nat (atoi strPort mod 2 ^ 16)\<rparr>, w))"

definition sv_SetRcvTimeout_tv :: "'w os \<Rightarrow> int \<Rightarrow> timeval \<Rightarrow> 'w \<Rightarrow> bool \<times> 'w" where
  "sv_SetRcvTimeout_tv os ClientSocket Timeout w =
     (let (iErr, w') = os_setsockopt os ClientSocket (SO_RCVTIMEO Timeout) w in (\<not> iErr < 0, w'))"

definition sv_SetSndTimeout_tv :: "'w os \<Rightarrow> int \<Rightarrow> timeval \<Rightarrow> 'w \<Rightarrow> bool \<times> 'w" where
  "sv_SetSndTimeout_tv os ClientSocket Timeout w =
     (let (iErr, w') = os_setsockopt os ClientSocket (SO_SNDTIMEO Timeout) w in (\<not> iErr < 0, w'))"

definition sv_SetRcvTimeout :: "'w os \<Rightarrow> bool \<Rightarrow> int \<Rightarrow> u32 \<Rightarrow> 'w \<Rightarrow> bool \<times> 'w" where
  "sv_SetRcvTimeout os win ClientSocket msec_timeout w =
     (if \<not> win then sv_SetRcvTimeout_tv os ClientSocket (TimevalFromMsec msec_timeout) w
      else let (iErr, w') = os_setsockopt os ClientSocket (SO_MSEC True msec_timeout) w in (\<not> iErr < 0, w'))"

text \<open>The branch for other systems calls SetRcvTimeout.\<close>

definition sv_SetSndTimeout :: "'w os \<Rightarrow> bool \<Rightarrow> int \<Rightarrow> u32 \<Rightarrow> 'w \<Rightarrow> bool \<times> 'w" where
  "sv_SetSndTimeout os win ClientSocket msec_timeout w =
     (if \<not> win then sv_SetRcvTimeout_tv os ClientSocket (TimevalFromMsec msec_timeout) w
      else let (iErr, w') = os_setsockopt os ClientSocket (SO_MSEC False msec_timeout) w in (\<not> iErr < 0, w'))"

text \<open>The part of Listen that makes the listening socket, in its two versions.\<close>

definition sv_open_win :: "'w os \<Rightarrow> tcp_server \<Rightarrow> 'w \<Rightarrow> (bool \<times> tcp_server \<times> 'w) res" where
  "sv_open_win os sv w =
     (case svAddr sv of
        None \<Rightarrow> Inl NullDeref
      | Some a \<Rightarrow>
          (let (sock, w1) = os_socket os (ai_family a) (ai_socktype a) (ai_protocol a) w;
               sv1 = sv\<lparr>svListen := sock\<rparr> in
           if sock = INVALID_SOCKET then Inr (False, sv1\<lparr>svAddr := None\<rparr>, w1)
           else let (iErr, w2) = os_setsockopt os sock SO_REUSEADDR w1 in
             if iErr < 0 then Inr (False, sv1\<lparr>svAddr := None, svListen := INVALID_SOCKET\<rparr>, os_close os sock w2)
             else let (iResult, w3) = os_bind os sock (ai_addr a) w2; sv2 = sv1\<lparr>svAddr := None\<rparr> in
               if iResult = -1 then Inr (False, sv2\<lparr>svListen := INVALID_SOCKET\<rparr>, os_close os sock w3)
               else Inr (True, sv2, w3)))"

text \<open>AF_INET and SOCK_STREAM are 2 and 1.\<close>

definition sv_open_unix :: "'w os \<Rightarrow> tcp_server \<Rightarrow> 'w \<Rightarrow> (bool \<times> tcp_server \<times> 'w) res" where
  "sv_open_unix os sv w =
     (let (sock, w1) = os_socket os 2 1 0 w; sv1 = sv\<lparr>svListen := sock\<rparr> in
      if sock < 0 then Inr (False, sv1\<lparr>svListen := INVALID_SOCKET\<rparr>, w1)
      else let (iErr, w2) = os_setsockopt os sock SO_REUSEADDR w1 in
        if iErr < 0 then Inr (False, sv1\<lparr>svListen := INVALID_SOCKET\<rparr>, os_close os sock w2)
        else let (iResult, w3) = os_bind os sock (svPort sv) w2 in
          if iResult < 0 then Inr (False, sv1, w3)
          else Inr (True, sv1, w3))"

text \<open>The rest of Listen: listen, the bounded wait and accept. \<open>npos\<close> is ACCEPT_WAIT_INF_DELAY.\<close>

definition sv_wait :: "'w os \<Rightarrow> bool \<Rightarrow> nat \<Rightarrow> tcp_server \<Rightarrow> 'w \<Rightarrow> (int \<times> bool) \<times> 'w" where
  "sv_wait os win msec sv w =
     (let (ret, w1) = (if msec \<noteq> npos then SelectSocket os win (svListen sv) msec w else (1, w)) in
      if ret = 0 \<or> ret = -1 then ((INVALID_SOCKET, False), w1)
      else let (client, w2) = os_accept os (svListen sv) w1 in
        if (if win then client = INVALID_SOCKET else client < 0) then ((client, False), w2)
        else ((client, True), w2))"

definition sv_listen :: "'w os \<Rightarrow> bool \<Rightarrow> nat \<Rightarrow> tcp_server \<Rightarrow> 'w \<Rightarrow> (int \<times> bool) \<times> tcp_server \<times> 'w" where
  "sv_listen os win msec sv w =
     (let (iResult, w1) = os_listen os (svListen sv) w in
      if win then
        (if iResult = -1
         then ((INVALID_SOCKET, False), sv\<lparr>svListen := INVALID_SOCKET\<rparr>, os_close os (svListen sv) w1)
         else let (r, w2) = sv_wait os win msec sv w1 in (r, sv, w2))
      else
        (if iResult < 0 then ((INVALID_SOCKET, False), sv, w1)
         else let (r, w2) = sv_wait os win msec sv w1 in (r, sv, w2)))"

text \<open>Listen gives the accepted client socket and whether there is one.\<close>

definition sv_Listen :: "'w os \<Rightarrow> bool \<Rightarrow> nat \<Rightarrow> tcp_server \<Rightarrow> 'w \<Rightarrow> ((int \<times> bool) \<times> tcp_server \<times> 'w) res" where
  "sv_Listen os win msec sv w =
     (if svListen sv = INVALID_SOCKET then
        (case (if win then sv_open_win os sv w else sv_open_unix os sv w) of
           Inl e \<Rightarrow> Inl e
         | Inr (ok, sv1, w1) \<Rightarrow>
             (if \<not> ok then Inr ((INVALID_SOCKET, False), sv1, w1)
              else Inr (sv_listen os win msec sv1 w1)))
      else Inr (sv_listen os win msec sv w))"

definition sv_Receive ::
    "'w os \<Rightarrow> bool \<Rightarrow> int \<Rightarrow> byte list \<Rightarrow> bool \<Rightarrow> 'w \<Rightarrow> (int \<times> byte list \<times> 'w) res option" where
  "sv_Receive os win ClientSocket buf bReadFully w =
     (if \<not> win \<and> ClientSocket < 0 \<or> buf = [] then Some (Inr (0, buf, w))
      else recv_packet os win ClientSocket buf bReadFully w)"

definition sv_Send :: "'w os \<Rightarrow> bool \<Rightarrow> int \<Rightarrow> byte list \<Rightarrow> 'w \<Rightarrow> (bool \<times> 'w) option" where
  "sv_Send os win ClientSocket pData w =
     (if \<not> win \<and> ClientSocket < 0 \<or> pData = [] then Some (False, w)
      else send_loop os ClientSocket pData 0 w)"

definition sv_Disconnect :: "'w os \<Rightarrow> bool \<Rightarrow> int \<Rightarrow> 'w \<Rightarrow> bool \<times> 'w" where
  "sv_Disconnect os win ClientSocket w =
     (if win then
        (let (iResult, w1) = os_shutdown os ClientSocket w in
         if iResult = -1 then (False, w1) else (True, os_close os ClientSocket w1))
      else (True, os_close os ClientSocket w))"

definition sv_destroy :: "'w os \<Rightarrow> tcp_server \<Rightarrow> 'w \<Rightarrow> 'w" where
  "sv_destroy os sv w = os_close os (svListen sv) w"

subsection \<open>Sending everything\<close>

text \<open>
  The loops that send a packet in parts, here and in the TLS layer, have one shape: \<open>emit d tot\<close> hands
  over what is left of \<open>d\<close> behind \<open>tot\<close>, and the loop goes on until the int counter reaches the
  size. \<open>takes\<close> is the documented behaviour of the call underneath on a connection that stays up:
  it takes a non-empty prefix of what it is given; \<open>out\<close> is what has gone out so far.
\<close>

locale sending_loop =
  fixes emit :: "byte list \<Rightarrow> int \<Rightarrow> 'w \<Rightarrow> int \<times> 'w"
    and loop :: "byte list \<Rightarrow> int \<Rightarrow> 'w \<Rightarrow> (bool \<times> 'w) option"
  assumes step: "emit d tot w = (n, w') \<Longrightarrow> 0 < n \<Longrightarrow>
    loop d tot w = (if to_size (to_int32 (tot + n)) < length d then loop d (to_int32 (tot + n)) w' else Some (True, w'))"
begin

definition takes :: "('w \<Rightarrow> byte list) \<Rightarrow> byte list \<Rightarrow> bool" where
  "takes out d = (\<forall>tot w. 0 \<le> tot \<longrightarrow> nat tot < length d \<longrightarrow>
     0 < fst (emit d tot w) \<and> nat (fst (emit d tot w)) \<le> length d - nat tot \<and>
     out (snd (emit d tot w)) = out w @ take (nat (fst (emit d tot w))) (drop (nat tot) d))"

lemma loop_sends_all:
  assumes "takes out d" and "0 \<le> tot" and "nat tot < length d" and "length d < 2 ^ 31"
  shows "\<exists>w'. loop d tot w = Some (True, w') \<and> out w' = out w @ drop (nat tot) d"
  using assms(2,3)
proof (induction "length d - nat tot" arbitrary: tot w rule: less_induct)
  case less
  obtain n w1 where wr: "emit d tot w = (n, w1)" by (cases "emit d tot w")
  then have n: "0 < n" "nat n \<le> length d - nat tot" "out w1 = out w @ take (nat n) (drop (nat tot) d)"
    using assms(1) less.prems unfolding takes_def by (metis fst_conv snd_conv)+
  have le: "tot + n \<le> int (length d)" using n less.prems by linarith
  moreover have "int (length d) < 2147483648" using assms(4) by simp
  ultimately have bnd: "0 \<le> tot + n" "tot + n < 2147483648" using n(1) less.prems by linarith+
  then have t: "to_int32 (tot + n) = tot + n" by (intro to_int32_id) simp_all
  have s: "to_size (tot + n) = nat (tot + n)" using bnd by (intro to_size_nonneg) simp_all
  have go: "loop d tot w = (if nat (tot + n) < length d then loop d (tot + n) w1 else Some (True, w1))"
    using step [OF wr n(1)] by (simp add: t s)
  show ?case
  proof (cases "nat (tot + n) < length d")
    case True
    then have "length d - nat (tot + n) < length d - nat tot" using n(1) less.prems by linarith
    from less.hyps [OF this _ True, of w1] less.prems n(1) obtain w' where
      w': "loop d (tot + n) w1 = Some (True, w')" "out w' = out w1 @ drop (nat (tot + n)) d" by auto
    have "take (nat n) (drop (nat tot) d) @ drop (nat (tot + n)) d = drop (nat tot) d"
      using less.prems n(1) by (metis append_take_drop_id drop_drop nat_add_distrib add.commute less_imp_le)
    with w' n(3) True go show ?thesis by simp
  next
    case False
    then have "nat n = length d - nat tot" using le n(1) less.prems by linarith
    with False n(3) go show ?thesis by simp
  qed
qed

end

interpretation tcp: sending_loop "\<lambda>d tot. os_send os sock (drop (nat tot) d)" "send_loop os sock" for os sock
proof
  fix d tot n and w w' :: 'a
  assume "os_send os sock (drop (nat tot) d) w = (n, w')" and "0 < n"
  then show "send_loop os sock d tot w =
      (if to_size (to_int32 (tot + n)) < length d then send_loop os sock d (to_int32 (tot + n)) w' else Some (True, w'))"
    by (subst send_loop.simps) simp
qed

definition sends :: "'w os \<Rightarrow> int \<Rightarrow> ('w \<Rightarrow> byte list) \<Rightarrow> bool" where
  "sends os sock out = (\<forall>d w. d \<noteq> [] \<longrightarrow>
     0 < fst (os_send os sock d w) \<and> nat (fst (os_send os sock d w)) \<le> length d \<and>
     out (snd (os_send os sock d w)) = out w @ take (nat (fst (os_send os sock d w))) d)"

lemma send_loop_all:
  assumes "sends os sock out" and "0 \<le> tot" and "nat tot < length d" and "length d < 2 ^ 31"
  shows "\<exists>w'. send_loop os sock d tot w = Some (True, w') \<and> out w' = out w @ drop (nat tot) d"
proof (rule tcp.loop_sends_all [OF _ assms(2-4)])
  have "drop (nat tot) d \<noteq> []" if "nat tot < length d" for tot using that by simp
  then show "tcp.takes os sock out d"
    using assms(1) unfolding sends_def tcp.takes_def by (metis length_drop)
qed

subsection \<open>A byte stream\<close>

text \<open>
  A connection that delivers the given segments and is then closed: recv gives the next segment,
  or the part of it that fits; a negative length is an error.
\<close>

fun seg_recv :: "int \<Rightarrow> byte list list \<Rightarrow> recv_res \<times> byte list list" where
  "seg_recv len [] = (RClosed, [])"
| "seg_recv len (s # ss) =
     (if len < 0 then (RError False, s # ss)
      else if len = 0 then (RClosed, s # ss)
      else (RData (take (nat len) s), if length s \<le> nat len then ss else drop (nat len) s # ss))"

definition streams :: "byte list list os \<Rightarrow> bool" where
  "streams os = (os_recv os = (\<lambda>sock. seg_recv))"

definition put :: "byte list \<Rightarrow> nat \<Rightarrow> byte list \<Rightarrow> byte list" where
  "put buf pos d = take pos buf @ d @ drop (pos + length d) buf"

lemma write_at_put: "pos + length d \<le> length buf \<Longrightarrow> write_at buf (int pos) d = Inr (put buf pos d)"
  by (simp add: write_at_def put_def)

lemma length_put [simp]: "pos + length d \<le> length buf \<Longrightarrow> length (put buf pos d) = length buf"
  by (simp add: put_def)

lemma put_put:
  "pos + length d + length e \<le> length buf \<Longrightarrow> put (put buf pos d) (pos + length d) e = put buf pos (d @ e)"
  by (simp add: put_def ac_simps)

lemma recv_into_seg:
  assumes "streams os" and "0 < n" and "tot + min n (length s) \<le> length buf"
  shows "recv_into os sock buf (int tot) (int n) (s # ss) =
    Inr (int (min n (length s)), False, put buf tot (take n s), if length s \<le> n then ss else drop n s # ss)"
proof -
  have "write_at buf (int tot) (take n s) = Inr (put buf tot (take n s))"
    using assms(3) by (intro write_at_put) (simp add: min.commute)
  then show ?thesis using assms(1,2) by (simp add: recv_into_def streams_def min.commute)
qed

lemma recv_into_overflow:
  assumes "streams os" and "0 < n" and "length buf < tot + min n (length s)"
  shows "recv_into os sock buf (int tot) (int n) (s # ss) = Inl OutOfBounds"
  using assms by (simp add: recv_into_def streams_def write_at_def min.commute)

lemma recv_len_id: "n < 2 ^ 31 \<Longrightarrow> recv_len win n = int n"
  by (simp add: recv_len_def to_int32_id)

lemma recv_loop_stream:
  assumes "streams os" and "n < 2 ^ 31"
  shows "tot < n \<Longrightarrow> n \<le> length buf \<Longrightarrow> [] \<notin> set segs \<Longrightarrow> n - tot \<le> length (concat segs) \<Longrightarrow>
    \<exists>segs'. recv_loop os win sock True n tries (int tot) buf segs
        = Some (Inr (int n, put buf tot (take (n - tot) (concat segs)), segs'))
      \<and> concat segs' = drop (n - tot) (concat segs)"
proof (induction segs arbitrary: tot buf)
  case Nil
  then show ?case by simp
next
  case (Cons s ss)
  let ?m = "min (n - tot) (length s)"
  have sn: "int n < 2147483648" using assms(2) by simp
  have szt: "to_size (int k) = k" if "k \<le> n" for k
    using that sn by (subst to_size_nonneg) simp_all
  have i32: "to_int32 (int tot + int ?m) = int (tot + ?m)"
  proof -
    have "tot + ?m \<le> n" using Cons.prems(1) by simp
    then have "int (tot + ?m) < 2147483648" using sn by linarith
    then show ?thesis by (subst to_int32_id) simp_all
  qed
  have m: "0 < ?m" "tot + ?m \<le> length buf" using Cons.prems by (auto simp: min_def)
  have len: "recv_len win (size_sub n (to_size (int tot))) = int (n - tot)"
    using Cons.prems(1) assms(2) by (simp add: szt size_sub_le recv_len_id)
  have rec: "recv_into os sock buf (int tot) (int (n - tot)) (s # ss)
      = Inr (int ?m, False, put buf tot (take (n - tot) s),
             if length s \<le> n - tot then ss else drop (n - tot) s # ss)"
    by (rule recv_into_seg [OF assms(1)]) (use Cons.prems m in auto)
  have m0: "(?m = 0) = False" using m(1) by simp
  have szm: "to_size (int (tot + ?m)) = tot + ?m" using Cons.prems(1) by (intro szt) simp
  have step: "recv_loop os win sock True n tries (int tot) buf (s # ss) =
     (if tot + ?m < n
      then recv_loop os win sock True n tries (int (tot + ?m)) (put buf tot (take (n - tot) s))
             (if length s \<le> n - tot then ss else drop (n - tot) s # ss)
      else Some (Inr (int (tot + ?m), put buf tot (take (n - tot) s),
             if length s \<le> n - tot then ss else drop (n - tot) s # ss)))"
    by (subst recv_loop.simps) (simp only: len rec i32 szm sum.case prod.case Let_def if_False
        of_nat_eq_0_iff of_nat_less_0_iff simp_thms m0)
  show ?case
  proof (cases "length s < n - tot")
    case True
    have "\<exists>segs'. recv_loop os win sock True n tries (int (tot + length s)) (put buf tot s) ss
        = Some (Inr (int n, put (put buf tot s) (tot + length s) (take (n - (tot + length s)) (concat ss)), segs'))
      \<and> concat segs' = drop (n - (tot + length s)) (concat ss)"
      using Cons.prems True by (intro Cons.IH) auto
    moreover have "put (put buf tot s) (tot + length s) (take (n - (tot + length s)) (concat ss))
        = put buf tot (take (n - tot) (concat (s # ss)))"
      using Cons.prems True by (subst put_put) auto
    moreover have "tot + length s < n" using True by simp
    ultimately show ?thesis using True step by simp
  next
    case False
    then have "tot + ?m = n" using Cons.prems(1) by simp
    with False step show ?thesis by auto
  qed
qed

lemma recv_loop_overflow:
  assumes "streams os" and "length buf < 2 ^ 31" and "2 ^ 31 \<le> n" and "n < 2 ^ 32"
  shows "tot \<le> length buf \<Longrightarrow> length buf < tot + length (concat segs) \<Longrightarrow> [] \<notin> set segs \<Longrightarrow>
    recv_loop os False sock True n tries (int tot) buf segs = Some (Inl OutOfBounds)"
  using assms(2)
proof (induction segs arbitrary: tot buf)
  case Nil
  then show ?case by simp
next
  case (Cons s ss)
  have bn: "length buf < 2147483648" "2147483648 \<le> n" "n < 4294967296"
    using Cons.prems(4) assms(3,4) by simp_all
  have szt: "to_size (int k) = k" if "k \<le> length buf" for k
    using that bn by (subst to_size_nonneg) simp_all
  have len: "recv_len False (size_sub n (to_size (int tot))) = int (n - tot)"
    using Cons.prems(1) bn by (simp add: szt size_sub_le recv_len_def)
  have pos: "0 < n - tot" using Cons.prems(1) bn by simp
  let ?m = "min (n - tot) (length s)"
  show ?case
  proof (cases "length buf < tot + ?m")
    case True
    from recv_into_overflow [OF assms(1) pos True] show ?thesis
      by (subst recv_loop.simps) (simp only: len sum.case)
  next
    case False
    then have m: "?m = length s" and fit: "tot + length s \<le> length buf" and sl: "length s \<le> n - tot"
      using Cons.prems(1) bn by (auto simp: min_def split: if_splits)
    have rec: "recv_into os sock buf (int tot) (int (n - tot)) (s # ss)
        = Inr (int (length s), False, put buf tot s, ss)"
      using recv_into_seg [OF assms(1) pos, of tot s buf] fit sl m by simp
    have ne: "length s \<noteq> 0" using Cons.prems(3) by auto
    have i32: "to_int32 (int tot + int (length s)) = int (tot + length s)"
      using fit bn by (subst to_int32_id) simp_all
    have lt: "to_size (int (tot + length s)) < n" using fit bn by (simp only: szt)
    have "recv_loop os False sock True n tries (int (tot + length s)) (put buf tot s) ss = Some (Inl OutOfBounds)"
      using Cons.prems fit by (intro Cons.IH) auto
    then show ?thesis
      using ne lt by (subst recv_loop.simps) (simp only: len rec i32 sum.case prod.case Let_def
          of_nat_eq_0_iff of_nat_less_0_iff simp_thms if_True if_False)
  qed
qed

lemma sint_byte: "sint (b :: byte) = signed_take_bit 7 (uint b)"
proof -
  have "LENGTH(8) - Suc 0 = 7" by simp
  with sint_uint [of b] show ?thesis by (simp only:)
qed
lemma scast_low: "b < 128 \<Longrightarrow> (scast (b :: byte) :: u32) = ucast b"
proof -
  assume "b < 128"
  then have "uint b < 128" by (simp add: word_less_def)
  moreover have "- 128 \<le> uint b" by (rule order_trans [of _ 0]) simp_all
  ultimately have "signed_take_bit 7 (uint b) = uint b"
    by (intro signed_take_bit_int_eq_self) simp_all
  then have "sint b = uint b" by (simp only: sint_byte)
  then show ?thesis by (simp only: scast_eq ucast_eq)
qed
lemma scast_high: "128 \<le> b \<Longrightarrow> 2 ^ 32 - 128 \<le> uint (scast (b :: byte) :: u32)"
proof -
  assume "128 \<le> b"
  then have b: "128 \<le> uint b" "uint b < 256" using uint_lt2p [of b] by (simp_all add: word_le_def)
  have "sint b = signed_take_bit 7 (uint b)" by (rule sint_byte)
  also have "\<dots> = (uint b + 128) mod 256 - 128" by (simp add: signed_take_bit_eq_take_bit_shift take_bit_eq_mod)
  also have "(uint b + 128) mod 256 = uint b - 128"
  proof -
    have "uint b + 128 = (uint b - 128) + 256" by simp
    then have "(uint b + 128) mod 256 = (uint b - 128) mod 256" by (simp only: mod_add_self2)
    then show ?thesis using b by simp
  qed
  finally have "sint b = uint b - 256" by simp
  then have "uint (scast b :: u32) = (uint b - 256) mod 2 ^ 32" 
    by (simp only: scast_eq uint_word_of_int) simp
  also have "\<dots> = (uint b - 256 + 2 ^ 32) mod 2 ^ 32" by (rule mod_add_self2 [symmetric])
  also have "\<dots> = uint b - 256 + 2 ^ 32" using b by (intro mod_pos_pos_trivial) auto
  finally show ?thesis using b by simp
qed
lemma header_size_low: "\<forall>i < 4. v ! i < 128 \<Longrightarrow> header_size v = be32_value v"
  by (simp add: header_size_def be32_value_def scast_low)

lemma header_size_high: "128 \<le> v ! 3 \<Longrightarrow> 2 ^ 32 - 128 \<le> unat (header_size v)"
proof -
  assume v: "128 \<le> v ! 3"
  have "(scast (v ! 3) :: u32) \<le> header_size v" unfolding header_size_def by (rule le_word_or1)
  then have "uint (scast (v ! 3) :: u32) \<le> uint (header_size v)" by (simp only: word_le_def)
  with scast_high [OF v] have "2 ^ 32 - 128 \<le> uint (header_size v)" by (rule order_trans)
  from nat_mono [OF this] show ?thesis by simp
qed

lemma header_size_put:
  "length h = 4 \<Longrightarrow> 4 \<le> length buf \<Longrightarrow> header_size (put buf 0 h) = header_size h"
  by (simp add: header_size_def put_def nth_append)

lemma recv_packet_header:
  assumes "streams os" and "8 \<le> length s" and "8 \<le> length buf" and "[] \<notin> set ss"
  shows "\<exists>segs. concat segs = drop 8 (concat (s # ss)) \<and> [] \<notin> set segs \<and>
    recv_packet os win sock buf rf (s # ss) =
      recv_loop os win sock rf
        (if header_size (take 4 s) > 0 then unat (header_size (take 4 s)) else length buf)
        0 8 (put buf 0 (take 8 s)) segs"
proof -
  let ?s = "drop 4 s" and ?b = "put buf 0 (take 4 s)"
  let ?segs = "if length ?s \<le> 4 then ss else drop 4 ?s # ss"
  have r1: "recv_into os sock buf 0 4 (s # ss) = Inr (4, False, ?b, ?s # ss)"
    using recv_into_seg [OF assms(1), of 4 0 s buf] assms(2,3) by simp
  have r2: "recv_into os sock ?b 4 4 (?s # ss) = Inr (4, False, put ?b 4 (take 4 ?s), ?segs)"
    using recv_into_seg [OF assms(1), of 4 4 ?s ?b sock ss] assms(2,3) by simp
  have pp: "put ?b 4 (take 4 ?s) = put buf 0 (take 8 s)"
    using put_put [of 0 "take 4 s" "take 4 ?s" buf] assms(2,3) take_add [of 4 4 s] by simp
  have "header_size ?b = header_size (take 4 s)" using assms(2,3) by (intro header_size_put) auto
  then have "recv_packet os win sock buf rf (s # ss) =
      recv_loop os win sock rf
        (if header_size (take 4 s) > 0 then unat (header_size (take 4 s)) else length buf)
        0 8 (put buf 0 (take 8 s)) ?segs"
    using assms(3) by (simp add: recv_packet_def r1 r2 pp)
  moreover have "concat ?segs = drop 8 (concat (s # ss))" "[] \<notin> set ?segs"
    using assms(2,4) by auto
  ultimately show ?thesis by blast
qed

lemma recv_packet_message:
  assumes "streams os" and "8 \<le> length s" and "[] \<notin> set ss"
    and msg: "concat (s # ss) = convertSendMsg msgId body @ rest"
    and "8 < length body" and "length body \<le> length buf" and "length body < 2 ^ 31"
    and small: "\<forall>b \<in> set (be32_bytes (word_of_nat (length body))). b < 128"
  shows "\<exists>segs'. recv_packet os win sock buf True (s # ss)
       = Some (Inr (int (length body), take (length body) (convertSendMsg msgId body) @ drop (length body) buf, segs'))
     \<and> concat segs' = drop (length body - 8) body @ rest"
proof -
  let ?n = "length body" and ?h = "be32_bytes (word_of_nat (length body))"
  let ?msg = "convertSendMsg msgId body"
  have t4: "take 4 s = ?h"
  proof -
    have "take 4 s = take 4 (concat (s # ss))" using assms(2) by simp
    then show ?thesis unfolding msg by (simp add: convertSendMsg_def)
  qed
  have t8: "take 8 s = take 8 (?msg @ rest)" using assms(2) msg [symmetric] by simp
  have "header_size ?h = be32_value ?h" using small by (intro header_size_low) simp
  then have "header_size ?h = word_of_nat ?n" by (simp only: be32_value_bytes)
  moreover have un: "unat (word_of_nat ?n :: u32) = ?n"
    unfolding unat_of_nat using assms(7) by (intro mod_less) simp
  moreover have "(word_of_nat ?n :: u32) > 0"
    using un assms(5) by (auto simp: word_less_nat_alt)
  ultimately have sz: "(if header_size (take 4 s) > 0 then unat (header_size (take 4 s)) else length buf) = ?n"
    by (simp add: t4)
  obtain segs where segs: "concat segs = drop 8 (?msg @ rest)" "[] \<notin> set segs"
    and rp: "recv_packet os win sock buf True (s # ss) =
      recv_loop os win sock True ?n 0 8 (put buf 0 (take 8 s)) segs"
    using recv_packet_header [OF assms(1,2) _ assms(3), of buf win sock True] assms(5,6)
    unfolding sz msg by auto
  let ?b = "put buf 0 (take 8 s)"
  have lb: "length ?b = length buf" using assms(2,5,6) by simp
  have cs: "concat segs = body @ rest" using segs(1) by (simp add: convertSendMsg_def)
  have avail: "?n - 8 \<le> length (concat segs)" unfolding cs by simp
  obtain segs' where loop: "recv_loop os win sock True ?n 0 8 ?b segs
        = Some (Inr (int ?n, put ?b 8 (take (?n - 8) (concat segs)), segs'))"
    and rest: "concat segs' = drop (?n - 8) (concat segs)"
    using recv_loop_stream [OF assms(1,7) assms(5) _ segs(2) avail, of ?b win sock 0]
      assms(6) lb by auto
  have "put ?b 8 (take (?n - 8) (concat segs)) = put buf 0 (take 8 (?msg @ rest) @ take (?n - 8) body)"
    using put_put [of 0 "take 8 s" "take (?n - 8) (concat segs)" buf] assms(2,5,6) cs t8 by simp
  also have "take 8 (?msg @ rest) @ take (?n - 8) body = take ?n ?msg"
    using assms(5) by (simp add: convertSendMsg_def)
  finally have "put ?b 8 (take (?n - 8) (concat segs)) = take ?n ?msg @ drop ?n buf"
    using assms(5) by (simp add: put_def)
  then show ?thesis using rp loop rest cs by simp
qed

subsection \<open>Properties\<close>

text \<open>An environment whose connections are byte streams and whose send takes everything; its
  other calls fail.\<close>

definition stream_os :: "byte list list os" where
  "stream_os = \<lparr>os_getaddrinfo = (\<lambda>h p w. ((-2, []), w)), os_socket = (\<lambda>f t p w. (-1, w)),
     os_setsockopt = (\<lambda>s opt w. (-1, w)), os_connect = (\<lambda>s a w. (-1, w)), os_bind = (\<lambda>s a w. (-1, w)),
     os_listen = (\<lambda>s w. (-1, w)), os_select = (\<lambda>ss t w. ((-1, []), w)), os_accept = (\<lambda>s w. (-1, w)),
     os_send = (\<lambda>s d w. (min 3 (int (length d)), w @ [take 3 d])), os_recv = (\<lambda>s. seg_recv),
     os_shutdown = (\<lambda>s w. (0, w)), os_close = (\<lambda>s w. w)\<rparr>"

lemma streams_stream_os: "streams stream_os"
  by (simp add: streams_def stream_os_def)

text \<open>C11: Send of a connected client hands the socket exactly the bytes of the packet, in order and
  each once, and returns true, whatever sizes the partial sends have; so does Send of the server.\<close>

theorem Send_sends_all:
  assumes "sends os (tcSocket c) out" and "tcStatus c = CONNECTED" and "d \<noteq> []" and "length d < 2 ^ 31"
  shows "\<exists>w'. tc_Send os d c w = Some (True, w') \<and> out w' = out w @ d
     \<and> (tcSocket c < 0 \<or> sv_Send os win (tcSocket c) d w = Some (True, w'))"
proof -
  have "0 < length d" using assms(3) by simp
  then obtain w' where "send_loop os (tcSocket c) d 0 w = Some (True, w') \<and> out w' = out w @ d"
    using send_loop_all [OF assms(1) _ _ assms(4), of 0 w] by auto
  with assms(2,3) show ?thesis by (auto simp: tc_Send_def sv_Send_def)
qed

theorem Send_sends_all_witness:
  "\<exists>w'. tc_Send stream_os (replicate 8 1) \<lparr>tcStatus = CONNECTED, tcSocket = 5\<rparr> [] = Some (True, w')
     \<and> concat w' = replicate 8 1"
proof -
  have "sends stream_os 5 concat" by (auto simp: sends_def stream_os_def min_def)
  from Send_sends_all [where os = stream_os and c = "\<lparr>tcStatus = CONNECTED, tcSocket = 5\<rparr>"
      and out = concat and d = "replicate 8 1" and w = "[]" and win = True] this
  show ?thesis by auto
qed

text \<open>Receive takes the size field, which convertSendMsg sets to the size of the body, for the
  size of the whole packet: for a body longer than 8 bytes (and a size field without bytes above
  127) it returns the size of the body, leaves the last 8 bytes of the body out of the buffer and
  in the stream, where the next Receive takes them for a header.\<close>

lemma Receive_drops_last_8:
  assumes "streams os" and "tcStatus c = CONNECTED" and "8 \<le> length s" and "[] \<notin> set ss"
    and msg: "concat (s # ss) = convertSendMsg msgId body @ rest"
    and "8 < length body" and "length body \<le> length buf" and "length body < 2 ^ 31"
    and small: "\<forall>b \<in> set (be32_bytes (word_of_nat (length body))). b < 128"
  shows "\<exists>buf' segs'. tc_Receive os win buf True c (s # ss) = Some (Inr (int (length body), buf', segs'))
     \<and> take (length body) buf' = take (length body) (convertSendMsg msgId body)
     \<and> concat segs' = drop (length body - 8) body @ rest"
proof -
  have "buf \<noteq> []" using assms(6,7) by auto
  moreover obtain segs' where "recv_packet os win (tcSocket c) buf True (s # ss)
      = Some (Inr (int (length body), take (length body) (convertSendMsg msgId body) @ drop (length body) buf, segs'))"
    "concat segs' = drop (length body - 8) body @ rest"
    using recv_packet_message [OF assms(1,3-9), of win "tcSocket c"] by blast
  ultimately show ?thesis using assms(2) by (simp add: tc_Receive_def)
qed

lemma Receive_drops_last_8_witness:
  "\<exists>buf' segs'. tc_Receive stream_os True (replicate 20 0) True \<lparr>tcStatus = CONNECTED, tcSocket = 5\<rparr>
       [convertSendMsg 7 [1, 2, 3, 4, 5, 6, 7, 8, 9, 10]] = Some (Inr (10, buf', segs'))
     \<and> concat segs' = [3, 4, 5, 6, 7, 8, 9, 10]"
proof -
  let ?body = "[1, 2, 3, 4, 5, 6, 7, 8, 9, 10] :: byte list" and ?buf = "replicate 20 0 :: byte list"
  let ?c = "\<lparr>tcStatus = CONNECTED, tcSocket = 5\<rparr>"
  have "\<forall>b \<in> set (be32_bytes (word_of_nat (length ?body))). b < 128" by (simp add: be32_bytes_def)
  from Receive_drops_last_8 [OF streams_stream_os _ _ _ _ _ _ _ this,
      of ?c "convertSendMsg 7 ?body" "[]" 7 "[]" ?buf True]
  show ?thesis by auto
qed

text \<open>Receive reads the size field through signed chars: when the low byte of a body's size is
  above 127 the size comes out near 2^32, and Receive writes behind the end of its buffer as soon
  as the connection has delivered more bytes than the buffer holds.\<close>

lemma Receive_overruns_buffer:
  assumes "streams os" and "tcStatus c = CONNECTED" and "8 \<le> length s" and "[] \<notin> set ss"
    and msg: "concat (s # ss) = convertSendMsg msgId body @ rest"
    and "128 \<le> length body mod 256"
    and "8 \<le> length buf" and "length buf < 2 ^ 31" and "length buf < length (concat (s # ss))"
  shows "tc_Receive os False buf True c (s # ss) = Some (Inl OutOfBounds)"
proof -
  let ?h = "be32_bytes (word_of_nat (length body))"
  have t4: "take 4 s = ?h"
  proof -
    have "take 4 s = take 4 (concat (s # ss))" using assms(3) by simp
    then show ?thesis unfolding msg by (simp add: convertSendMsg_def)
  qed
  have "?h ! 3 = ucast (word_of_nat (length body) :: u32)"
    by (simp add: be32_bytes_def ucast_and255)
  then have "unat (?h ! 3) = length body mod 2 ^ 32 mod 2 ^ 8"
    by (simp only: unsigned_ucast_eq take_bit_eq_mod unat_of_nat) simp
  then have "unat (?h ! 3) = length body mod 256"
    by (simp add: mod_mod_cancel)
  with assms(6) have high: "128 \<le> ?h ! 3" by (simp add: word_le_nat_alt)
  define n where "n = unat (header_size ?h)"
  have n: "2 ^ 32 - 128 \<le> n" "n < 2 ^ 32"
    unfolding n_def using header_size_high [OF high] unsigned_less [where ?'a = nat and w = "header_size ?h"]
    by simp_all
  then have "header_size ?h > 0" unfolding n_def by (simp add: word_less_nat_alt)
  then have sz: "(if header_size (take 4 s) > 0 then unat (header_size (take 4 s)) else length buf) = n"
    by (simp add: t4 n_def)
  obtain segs where segs: "concat segs = drop 8 (concat (s # ss))" "[] \<notin> set segs"
    and rp: "recv_packet os False (tcSocket c) buf True (s # ss) =
      recv_loop os False (tcSocket c) True n 0 8 (put buf 0 (take 8 s)) segs"
    using recv_packet_header [OF assms(1,3,7,4), of False "tcSocket c" True] unfolding sz by auto
  have lb: "length (put buf 0 (take 8 s)) = length buf" using assms(3,7) by simp
  have "recv_loop os False (tcSocket c) True n 0 (int 8) (put buf 0 (take 8 s)) segs = Some (Inl OutOfBounds)"
    using assms(7-9) n segs lb by (intro recv_loop_overflow [OF assms(1)]) auto
  moreover have "buf \<noteq> []" using assms(7) by auto
  ultimately show ?thesis using assms(2) rp by (simp add: tc_Receive_def)
qed

lemma Receive_overruns_buffer_witness:
  "tc_Receive stream_os False (replicate 100 0) True \<lparr>tcStatus = CONNECTED, tcSocket = 5\<rparr>
     [convertSendMsg 7 (replicate 200 1)] = Some (Inl OutOfBounds)"
  using Receive_overruns_buffer [OF streams_stream_os, of "\<lparr>tcStatus = CONNECTED, tcSocket = 5\<rparr>"
      "convertSendMsg 7 (replicate 200 1)" "[]" 7 "replicate 200 1" "[]" "replicate 100 0"]
  by simp

text \<open>A server whose first bind fails never works again: elsewhere than on Windows the unbound
  socket stays the listening socket, and every later Listen goes on with it without binding; on
  Windows the address has been freed, and the next Listen dereferences a null pointer.\<close>

lemma Listen_after_bind_failure:
  assumes "svListen sv = INVALID_SOCKET" and "os_socket os 2 1 0 w = (sock, w1)" and "0 \<le> sock"
    and "os_setsockopt os sock SO_REUSEADDR w1 = (0, w2)" and "os_bind os sock (svPort sv) w2 = (-1, w3)"
    and "svAddr sv = Some \<lparr>ai_family = 2, ai_socktype = 1, ai_protocol = 0, ai_addr = svPort sv\<rparr>"
  shows "(\<exists>sv1. sv_Listen os False msec sv w = Inr ((INVALID_SOCKET, False), sv1, w3)
         \<and> sv_Listen os False msec' sv1 w' = Inr (sv_listen os False msec' sv1 w'))
     \<and> (\<exists>sv2. sv_Listen os True msec sv w = Inr ((INVALID_SOCKET, False), sv2, os_close os sock w3)
         \<and> sv_Listen os True msec' sv2 w' = Inl NullDeref)"
  using assms by (simp add: sv_Listen_def sv_open_unix_def sv_open_win_def)

lemma Listen_after_bind_failure_witness:
  "let os = stream_os\<lparr>os_socket := (\<lambda>f t p w. (4, w)), os_setsockopt := (\<lambda>s opt w. (0, w))\<rparr>;
       sv = \<lparr>svListen = -1, svAddr = Some \<lparr>ai_family = 2, ai_socktype = 1, ai_protocol = 0, ai_addr = 80\<rparr>, svPort = 80\<rparr>
   in \<exists>sv2. sv_Listen os True 200 sv [] = Inr ((INVALID_SOCKET, False), sv2, []) \<and> sv_Listen os True 200 sv2 [] = Inl NullDeref"
  using Listen_after_bind_failure [where os = "stream_os\<lparr>os_socket := (\<lambda>f t p w. (4, w)), os_setsockopt := (\<lambda>s opt w. (0, w))\<rparr>"
      and sv = "\<lparr>svListen = -1, svAddr = Some \<lparr>ai_family = 2, ai_socktype = 1, ai_protocol = 0, ai_addr = 80\<rparr>, svPort = 80\<rparr>"
      and w = "[]" and w' = "[]" and sock = 4 and msec = 200 and msec' = 200]
  by (simp add: stream_os_def)

end
