(* ===== verification/Network.thy ===== *)
theory Network
  imports Tcp_Socket Std_Map Event_Queue
begin

text \<open>
  Ext::Network::cNetwork and its receivers (Network/EXNetwork.cpp/.hpp) over the TCP layer. The
  state of a cNetwork is the record \<open>network\<close>: the client or server object, the map of connected
  clients, the message counter (an unsigned int, so it wraps), the map of pending requests, whose
  promises are numbers, and the state of the future of each promise. Handlers act on the world
  \<open>'w\<close>. SendAndWait is split where it waits: \<open>SendAndWait_begin\<close>, then whatever the receive thread
  does, then \<open>SendAndWait_end\<close>. Each thread loop is its round. \<open>None\<close> is a call that never returns
  (a send that makes no progress, a receive that never ends).
\<close>

datatype eNetworkType = NETWORK_NONE | NETWORK_CLIENT | NETWORK_SERVER

record NETWORK_INFO =
  nwIP :: xstring
  nwName :: xstring
  nwPort :: u32
  nwType :: eNetworkType

definition isValid :: "NETWORK_INFO \<Rightarrow> bool" where
  "isValid info = (\<not> xs_IsEmpty (nwIP info) \<and> nwPort info \<noteq> 0 \<and> \<not> xs_IsEmpty (nwName info)
     \<and> nwType info \<noteq> NETWORK_NONE)"

type_synonym 'w fnHandler = "int \<Rightarrow> tuPacketMsg \<Rightarrow> 'w \<Rightarrow> 'w"

text \<open>cNetworkServerReceiveHandler: its queue and what it needs to call the handler.\<close>

record 'w receive_handler =
  rhIsStop :: bool
  rhConnection :: int
  rhUUID :: xstring
  rhHandler :: "'w fnHandler option"
  rhQueue :: "tuPacketMsg equeue"

text \<open>cNetworkServerReceive; \<open>srThread\<close> is whether its thread is joinable, the fields of its
  NETWORK_CLIENT_INFO follow.\<close>

record 'w server_receive =
  srIsStop :: bool
  srThread :: bool
  srHandlerObj :: "'w receive_handler option"
  srUUID :: xstring
  srConn :: int
  srFn :: "'w fnHandler option"

record 'w client_info =
  ciUUID :: xstring
  ciConn :: int
  ciRecv :: "'w server_receive"
  ciFn :: "'w fnHandler option"

datatype future = FPending | FValue tuPacketMsg | FBroken

record 'w network =
  nwIsStop :: bool
  nwInfo :: NETWORK_INFO
  nwClient :: "tcp_client option"
  nwServer :: "tcp_server option"
  nwListenThread :: bool
  nwReceiveThread :: bool
  nwMap :: "(xstring, 'w client_info) smap"
  nwServerHandler :: "'w fnHandler option"
  nwClientHandler :: "'w fnHandler option"
  nwMsgIdSeq :: u32
  nwPending :: "(MSGID, nat) smap"
  nwFutures :: "nat \<Rightarrow> future"
  nwNextFuture :: nat

definition nw_new :: "NETWORK_INFO \<Rightarrow> 'w network" where
  "nw_new info = \<lparr>nwIsStop = False, nwInfo = info, nwClient = None, nwServer = None,
     nwListenThread = False, nwReceiveThread = False, nwMap = [], nwServerHandler = None,
     nwClientHandler = None, nwMsgIdSeq = 1, nwPending = [], nwFutures = (\<lambda>_. FPending), nwNextFuture = 0\<rparr>"

definition SetNetworkInfo :: "NETWORK_INFO \<Rightarrow> 'w network \<Rightarrow> 'w network" where
  "SetNetworkInfo info n = n\<lparr>nwInfo := info\<rparr>"

definition SetGlobalServerHandler :: "'w fnHandler option \<Rightarrow> 'w network \<Rightarrow> 'w network" where
  "SetGlobalServerHandler fn n = n\<lparr>nwServerHandler := fn\<rparr>"

definition SetGlobalClientHandler :: "'w fnHandler option \<Rightarrow> 'w network \<Rightarrow> 'w network" where
  "SetGlobalClientHandler fn n = n\<lparr>nwClientHandler := fn\<rparr>"

subsection \<open>Connecting\<close>

text \<open>std::to_string of the port.\<close>

definition port_string :: "u32 \<Rightarrow> byte list" where
  "port_string p = map ucast (to_wstring (uint p))"

definition nw_Connect ::
    "'w os \<Rightarrow> bool \<Rightarrow> (xstring \<Rightarrow> byte list) \<Rightarrow> 'w network \<Rightarrow> 'w \<Rightarrow> (bool \<times> 'w network \<times> 'w) res" where
  "nw_Connect os win wc2mb n w =
     (let info = nwInfo n in
      if \<not> isValid info then Inr (False, n, w)
      else if nwType info = NETWORK_CLIENT then
        (let c = (case nwClient n of None \<Rightarrow> tc_new | Some c \<Rightarrow> c) in
         case tc_Connect os win (xs_to_string wc2mb (nwIP info)) (port_string (nwPort info)) c w of
           Inl e \<Rightarrow> Inl e
         | Inr (ok, c', w') \<Rightarrow>
             (if \<not> ok then Inr (False, n\<lparr>nwClient := Some c'\<rparr>, w')
              else Inr (True, n\<lparr>nwClient := Some c', nwReceiveThread := True\<rparr>, w')))
      else if nwType info = NETWORK_SERVER then
        (case (case nwServer n of None \<Rightarrow> sv_new os win (port_string (nwPort info)) w | Some sv \<Rightarrow> Inr (sv, w)) of
           Inl e \<Rightarrow> Inl e
         | Inr (sv, w') \<Rightarrow> Inr (True, n\<lparr>nwServer := Some sv, nwListenThread := True\<rparr>, w'))
      else Inr (True, n, w))"

definition nw_DisConnect :: "'w os \<Rightarrow> bool \<Rightarrow> 'w network \<Rightarrow> 'w \<Rightarrow> (bool \<times> 'w network \<times> 'w) res" where
  "nw_DisConnect os win n w =
     (if nwType (nwInfo n) \<noteq> NETWORK_CLIENT then Inl AssertFailed
      else case nwClient n of
          None \<Rightarrow> Inr (False, n, w)
        | Some c \<Rightarrow> (let (ok, c', w') = tc_Disconnect os win c w in Inr (ok, n\<lparr>nwClient := Some c'\<rparr>, w')))"

subsection \<open>cNetworkServerReceive and its handler\<close>

definition rh_new :: "'w receive_handler" where
  "rh_new = \<lparr>rhIsStop = False, rhConnection = 0, rhUUID = [], rhHandler = None, rhQueue = eq_new\<rparr>"

definition InsertPacket :: "tuPacketMsg \<Rightarrow> 'w receive_handler \<Rightarrow> 'w receive_handler" where
  "InsertPacket tuMsg h = h\<lparr>rhQueue := eq_EnQueue tuMsg (rhQueue h)\<rparr>"

definition rh_destroy :: "'w receive_handler \<Rightarrow> 'w receive_handler" where
  "rh_destroy h = h\<lparr>rhIsStop := True, rhQueue := eq_Stop (rhQueue h)\<rparr>"

text \<open>A round of cNetworkServerReceiveHandler::serverListenThread; the packet of a stopped queue is
  \<open>tuPacketMsg()\<close>.\<close>

definition handler_round :: "'w receive_handler \<Rightarrow> 'w \<Rightarrow> ('w receive_handler \<times> 'w) option" where
  "handler_round h w =
     (if rhIsStop h then Some (h, w)
      else case eq_DeQueue (0, 0, []) (rhQueue h) of
          None \<Rightarrow> None
        | Some (tuPacket, q) \<Rightarrow>
            (let h1 = h\<lparr>rhQueue := q\<rparr> in
             if fst tuPacket = 0 then Some (h1, w)
             else case rhHandler h1 of
                 None \<Rightarrow> Some (h1, w)
               | Some fn \<Rightarrow> Some (h1, fn (rhConnection h1) tuPacket w)))"

definition sr_new :: "'w server_receive" where
  "sr_new = \<lparr>srIsStop = False, srThread = False, srHandlerObj = None, srUUID = [], srConn = 0, srFn = None\<rparr>"

definition sr_SetClientInfo :: "xstring \<Rightarrow> int \<Rightarrow> 'w fnHandler option \<Rightarrow> 'w server_receive \<Rightarrow> 'w server_receive" where
  "sr_SetClientInfo u s fn r = r\<lparr>srUUID := u, srConn := s, srFn := fn\<rparr>"

definition sr_Stop :: "'w server_receive \<Rightarrow> 'w server_receive" where
  "sr_Stop r = r\<lparr>srIsStop := True, srThread := False, srHandlerObj := None\<rparr>"

definition sr_Start :: "'w server_receive \<Rightarrow> 'w server_receive" where
  "sr_Start r =
     (let r1 = (sr_Stop r)\<lparr>srIsStop := False\<rparr>;
          h = rh_new\<lparr>rhConnection := srConn r1, rhUUID := srUUID r1\<rparr>;
          h' = (case srFn r1 of None \<Rightarrow> h | Some fn \<Rightarrow> h\<lparr>rhHandler := Some fn\<rparr>)
      in r1\<lparr>srHandlerObj := Some h', srThread := True\<rparr>)"

subsection \<open>The server side\<close>

text \<open>DisConnect and DisConnectAll also stop the receivers of the clients they drop; what that does
  to the threads is in the last subsection, the stopped receivers are gone with their map entries.\<close>

definition nw_DisConnectClient ::
    "'w os \<Rightarrow> bool \<Rightarrow> xstring \<Rightarrow> 'w network \<Rightarrow> 'w \<Rightarrow> (bool \<times> 'w network \<times> 'w) res" where
  "nw_DisConnectClient os win sUUID n w =
     (if nwType (nwInfo n) \<noteq> NETWORK_SERVER then Inl AssertFailed
      else case map_of (nwMap n) sUUID of
          None \<Rightarrow> Inr (False, n, w)
        | Some ci \<Rightarrow>
            (case nwServer n of
               None \<Rightarrow> Inl NullDeref
             | Some sv \<Rightarrow>
                 (let (ok, w') = sv_Disconnect os win (ciConn ci) w in
                  Inr (ok, n\<lparr>nwMap := smap_erase sUUID (nwMap n)\<rparr>, w'))))"

fun disconnect_each ::
    "'w os \<Rightarrow> bool \<Rightarrow> (xstring \<times> 'w client_info) list \<Rightarrow> bool \<Rightarrow> 'w \<Rightarrow> bool \<times> 'w" where
  "disconnect_each os win [] isSuccess w = (isSuccess, w)"
| "disconnect_each os win ((u, ci) # es) isSuccess w =
     (let (ok, w') = sv_Disconnect os win (ciConn ci) w in disconnect_each os win es (isSuccess \<and> ok) w')"

definition nw_DisConnectAll :: "'w os \<Rightarrow> bool \<Rightarrow> 'w network \<Rightarrow> 'w \<Rightarrow> (bool \<times> 'w network \<times> 'w) res" where
  "nw_DisConnectAll os win n w =
     (if nwType (nwInfo n) \<noteq> NETWORK_SERVER then Inl AssertFailed
      else if nwMap n \<noteq> [] \<and> nwServer n = None then Inl NullDeref
      else let (ok, w') = disconnect_each os win (nwMap n) True w in Inr (ok, n\<lparr>nwMap := []\<rparr>, w'))"

definition SendToClientSocket ::
    "'w os \<Rightarrow> bool \<Rightarrow> int \<Rightarrow> MSGID \<Rightarrow> PacketData \<Rightarrow> 'w network \<Rightarrow> 'w \<Rightarrow> (bool \<times> 'w) res option" where
  "SendToClientSocket os win socket msgId vecData n w =
     (if nwType (nwInfo n) \<noteq> NETWORK_SERVER then Some (Inl AssertFailed)
      else case nwServer n of
          None \<Rightarrow> Some (Inr (False, w))
        | Some sv \<Rightarrow> map_option Inr (sv_Send os win socket (convertSendMsg msgId vecData) w))"

definition SendToClient ::
    "'w os \<Rightarrow> bool \<Rightarrow> xstring \<Rightarrow> PacketData \<Rightarrow> 'w network \<Rightarrow> 'w \<Rightarrow> (bool \<times> 'w network \<times> 'w) res option" where
  "SendToClient os win sUUID vecData n w =
     (if nwType (nwInfo n) \<noteq> NETWORK_SERVER then Some (Inl AssertFailed)
      else case map_of (nwMap n) sUUID of
          None \<Rightarrow> Some (Inr (False, n, w))
        | Some ci \<Rightarrow>
            (let msgId = nwMsgIdSeq n; n1 = n\<lparr>nwMsgIdSeq := msgId + 1\<rparr> in
             case nwServer n of
               None \<Rightarrow> Some (Inl NullDeref)
             | Some sv \<Rightarrow>
                 map_option (\<lambda>(ok, w'). Inr (ok, n1, w'))
                   (sv_Send os win (ciConn ci) (convertSendMsg msgId vecData) w)))"

fun send_each ::
    "'w os \<Rightarrow> bool \<Rightarrow> byte list \<Rightarrow> (xstring \<times> 'w client_info) list \<Rightarrow> bool \<Rightarrow> 'w \<Rightarrow> (bool \<times> 'w) option" where
  "send_each os win vecPacket [] isSuccess w = Some (isSuccess, w)"
| "send_each os win vecPacket ((u, ci) # es) isSuccess w =
     (case sv_Send os win (ciConn ci) vecPacket w of
        None \<Rightarrow> None
      | Some (ok, w') \<Rightarrow> send_each os win vecPacket es (isSuccess \<and> ok) w')"

definition SendToAll ::
    "'w os \<Rightarrow> bool \<Rightarrow> PacketData \<Rightarrow> 'w network \<Rightarrow> 'w \<Rightarrow> (bool \<times> 'w network \<times> 'w) res option" where
  "SendToAll os win vecData n w =
     (if nwType (nwInfo n) \<noteq> NETWORK_SERVER then Some (Inl AssertFailed)
      else let msgId = nwMsgIdSeq n; n1 = n\<lparr>nwMsgIdSeq := msgId + 1\<rparr> in
        if nwMap n \<noteq> [] \<and> nwServer n = None then Some (Inl NullDeref)
        else map_option (\<lambda>(ok, w'). Inr (ok, n1, w'))
               (send_each os win (convertSendMsg msgId vecData) (nwMap n) True w))"

text \<open>
  A round of serverListenThread. \<open>guids\<close> is the stream of the strings CreateGUID gives: the first
  one that is no key of the map is taken (\<open>None\<close> if there is none).
\<close>

definition NETWORK_ACCEPT_POLL_MSEC :: nat where
  "NETWORK_ACCEPT_POLL_MSEC = 200"

fun fresh_guid :: "('k, 'v) smap \<Rightarrow> 'k list \<Rightarrow> 'k option" where
  "fresh_guid m [] = None"
| "fresh_guid m (g # gs) = (if smap_contains m g then fresh_guid m gs else Some g)"

definition insert_client :: "xstring \<Rightarrow> int \<Rightarrow> 'w network \<Rightarrow> 'w network" where
  "insert_client sUUID sock n =
     (let r = sr_SetClientInfo sUUID sock (nwServerHandler n) sr_new;
          info = \<lparr>ciUUID = sUUID, ciConn = sock, ciRecv = r, ciFn = nwServerHandler n\<rparr>;
          m = smap_emplace sUUID info (nwMap n)
      in n\<lparr>nwMap := (case map_of m sUUID of None \<Rightarrow> m
             | Some ci \<Rightarrow> smap_assign sUUID (ci\<lparr>ciRecv := sr_Start (ciRecv ci)\<rparr>) m)\<rparr>)"

definition listen_round ::
    "'w os \<Rightarrow> bool \<Rightarrow> xstring list \<Rightarrow> 'w network \<Rightarrow> 'w \<Rightarrow> ('w network \<times> 'w) res option" where
  "listen_round os win guids n w =
     (if nwIsStop n then Some (Inr (n, w))
      else case nwServer n of
          None \<Rightarrow> Some (Inl NullDeref)
        | Some sv \<Rightarrow>
            (case sv_Listen os win NETWORK_ACCEPT_POLL_MSEC sv w of
               Inl e \<Rightarrow> Some (Inl e)
             | Inr ((client, isNewConnect), sv', w') \<Rightarrow>
                 (let n1 = n\<lparr>nwServer := Some sv'\<rparr> in
                  if \<not> isNewConnect then Some (Inr (n1, w'))
                  else case fresh_guid (nwMap n1) guids of
                      None \<Rightarrow> None
                    | Some sUUID \<Rightarrow> Some (Inr (insert_client sUUID client n1, w')))))"

definition EXT_PACKET_SIZE :: nat where
  "EXT_PACKET_SIZE = 1024 * 1024 * 10"

text \<open>A round of cNetworkServerReceive::receiveThread: the receiver after it, and whether the
  connection has been closed, in which case the receiver is stopped and the network disconnects
  the client.\<close>

definition server_receive_round ::
    "'w os \<Rightarrow> bool \<Rightarrow> 'w server_receive \<Rightarrow> 'w \<Rightarrow> (bool \<times> 'w server_receive \<times> 'w) res option" where
  "server_receive_round os win r w =
     (if srIsStop r then Some (Inr (False, r, w))
      else case sv_Receive os win (srConn r) (replicate EXT_PACKET_SIZE 0) True w of
          None \<Rightarrow> None
        | Some (Inl e) \<Rightarrow> Some (Inl e)
        | Some (Inr (nRcvBytes, vecRcvBuf, w')) \<Rightarrow>
            (if nRcvBytes > 0 then
               (case convertReceiveMsg vecRcvBuf of
                  Inl e \<Rightarrow> Some (Inl e)
                | Inr tuPacket \<Rightarrow>
                    (case srHandlerObj r of
                       None \<Rightarrow> Some (Inl NullDeref)
                     | Some h \<Rightarrow> Some (Inr (False, r\<lparr>srHandlerObj := Some (InsertPacket tuPacket h)\<rparr>, w'))))
             else if nRcvBytes = 0 then Some (Inr (True, sr_Stop r, w'))
             else Some (Inr (False, r, w'))))"

subsection \<open>The client side\<close>

definition nw_Send :: "'w os \<Rightarrow> PacketData \<Rightarrow> 'w network \<Rightarrow> 'w \<Rightarrow> (MSGID \<times> 'w network \<times> 'w) res option" where
  "nw_Send os vecData n w =
     (if nwType (nwInfo n) \<noteq> NETWORK_CLIENT then Some (Inl AssertFailed)
      else case nwClient n of
          None \<Rightarrow> Some (Inr (0, n, w))
        | Some c \<Rightarrow>
            (let msgId = nwMsgIdSeq n; n1 = n\<lparr>nwMsgIdSeq := msgId + 1\<rparr> in
             map_option (\<lambda>(ok, w'). Inr (if \<not> ok then 0 else msgId, n1, w'))
               (tc_Send os (convertSendMsg msgId vecData) c w)))"

text \<open>
  SendAndWait up to its wait: the promise \<open>p\<close> is put into the map unless the id is taken, when
  emplace does nothing and the promise dies unfulfilled. \<open>Inl\<close> in the answer is a return with
  false, \<open>Inr\<close> the id and the promise waited for.
\<close>

definition new_promise :: "MSGID \<Rightarrow> 'w network \<Rightarrow> 'w network" where
  "new_promise msgId n =
     (let p = nwNextFuture n in
      n\<lparr>nwNextFuture := Suc p, nwPending := smap_emplace msgId p (nwPending n),
        nwFutures := (nwFutures n)(p := if smap_contains (nwPending n) msgId then FBroken else FPending)\<rparr>)"

definition SendAndWait_begin ::
    "'w os \<Rightarrow> PacketData \<Rightarrow> 'w network \<Rightarrow> 'w \<Rightarrow> ((unit + MSGID \<times> nat) \<times> 'w network \<times> 'w) res option" where
  "SendAndWait_begin os vecData n w =
     (if nwType (nwInfo n) \<noteq> NETWORK_CLIENT then Some (Inl AssertFailed)
      else case nwClient n of
          None \<Rightarrow> Some (Inr (Inl (), n, w))
        | Some c \<Rightarrow>
            (let msgId = nwMsgIdSeq n; p = nwNextFuture n;
                 n1 = new_promise msgId (n\<lparr>nwMsgIdSeq := msgId + 1\<rparr>) in
             map_option (\<lambda>(ok, w').
                 if \<not> ok then Inr (Inl (), n1\<lparr>nwPending := smap_erase msgId (nwPending n1)\<rparr>, w')
                 else Inr (Inr (msgId, p), n1, w'))
               (tc_Send os (convertSendMsg msgId vecData) c w)))"

text \<open>SendAndWait when its wait is over: with the future ready, or at the time-out.\<close>

definition SendAndWait_end :: "MSGID \<Rightarrow> nat \<Rightarrow> 'w network \<Rightarrow> (tuPacketMsg option \<times> 'w network) res" where
  "SendAndWait_end msgId p n =
     (case nwFutures n p of
        FValue pkt \<Rightarrow> Inr (Some pkt, n)
      | FBroken \<Rightarrow> Inl BrokenPromise
      | FPending \<Rightarrow> Inr (None, n\<lparr>nwPending := smap_erase msgId (nwPending n)\<rparr>))"

text \<open>What clientReceiveThread does with a packet, and its round; the flag says that the loop is
  left because the connection is closed.\<close>

definition client_dispatch :: "tuPacketMsg \<Rightarrow> int \<Rightarrow> 'w network \<Rightarrow> 'w \<Rightarrow> 'w network \<times> 'w" where
  "client_dispatch tuPacket sock n w =
     (let msgId = fst (snd tuPacket) in
      case map_of (nwPending n) msgId of
        Some p \<Rightarrow> (n\<lparr>nwPending := smap_erase msgId (nwPending n), nwFutures := (nwFutures n)(p := FValue tuPacket)\<rparr>, w)
      | None \<Rightarrow> (case nwClientHandler n of None \<Rightarrow> (n, w) | Some fn \<Rightarrow> (n, fn sock tuPacket w)))"

definition client_receive_round :: "'w os \<Rightarrow> bool \<Rightarrow> 'w network \<Rightarrow> 'w \<Rightarrow> (bool \<times> 'w network \<times> 'w) res option" where
  "client_receive_round os win n w =
     (if nwIsStop n then Some (Inr (True, n, w))
      else case nwClient n of
          None \<Rightarrow> Some (Inl NullDeref)
        | Some c \<Rightarrow>
            (case tc_Receive os win (replicate EXT_PACKET_SIZE 0) True c w of
               None \<Rightarrow> None
             | Some (Inl e) \<Rightarrow> Some (Inl e)
             | Some (Inr (nRcvBytes, vecRcvBuf, w')) \<Rightarrow>
                 (if nRcvBytes > 0 then
                    (case convertReceiveMsg vecRcvBuf of
                       Inl e \<Rightarrow> Some (Inl e)
                     | Inr tuPacket \<Rightarrow>
                         (let (n', w'') = client_dispatch tuPacket (tcSocket c) n w' in Some (Inr (False, n', w''))))
                  else if nRcvBytes = 0 then Some (Inr (True, n, w'))
                  else Some (Inr (False, n, w')))))"

text \<open>The destructor up to the joins of the threads.\<close>

definition nw_destroy :: "'w os \<Rightarrow> bool \<Rightarrow> 'w network \<Rightarrow> 'w \<Rightarrow> ('w network \<times> 'w) res" where
  "nw_destroy os win n w =
     (let n1 = n\<lparr>nwIsStop := True\<rparr> in
      if nwType (nwInfo n1) = NETWORK_SERVER then map_sum id snd (nw_DisConnectAll os win n1 w)
      else if nwType (nwInfo n1) = NETWORK_CLIENT then map_sum id snd (nw_DisConnect os win n1 w)
      else Inr (n1, w))"

subsection \<open>Pending requests\<close>

text \<open>The map holds pending futures only, each once, of promises already made.\<close>

definition pending_ok :: "'w network \<Rightarrow> bool" where
  "pending_ok n = (\<forall>i p. map_of (nwPending n) i = Some p \<longrightarrow>
     p < nwNextFuture n \<and> nwFutures n p = FPending \<and> (\<forall>j. map_of (nwPending n) j = Some p \<longrightarrow> j = i))"

lemma pending_ok_new: "pending_ok (nw_new info)"
  by (simp add: pending_ok_def nw_new_def)

lemma pending_okD:
  assumes "pending_ok n" and "map_of (nwPending n) i = Some p"
  shows "p < nwNextFuture n" and "nwFutures n p = FPending" and "map_of (nwPending n) j = Some p \<Longrightarrow> j = i"
  using assms by (auto simp: pending_ok_def)

lemma pending_okI:
  assumes "\<And>i p. map_of (nwPending n) i = Some p \<Longrightarrow> p < nwNextFuture n \<and> nwFutures n p = FPending"
    and "\<And>i j p. map_of (nwPending n) i = Some p \<Longrightarrow> map_of (nwPending n) j = Some p \<Longrightarrow> j = i"
  shows "pending_ok n"
  using assms by (auto simp: pending_ok_def)

lemma new_promise_pending:
  "map_of (nwPending (new_promise i n)) j
     = (if j = i \<and> map_of (nwPending n) i = None then Some (nwNextFuture n) else map_of (nwPending n) j)"
  by (simp add: new_promise_def Let_def smap.look_emplace)

lemma new_promise_future:
  "nwFutures (new_promise i n) q = (if q = nwNextFuture n
     then (if map_of (nwPending n) i = None then FPending else FBroken) else nwFutures n q)"
  "nwNextFuture (new_promise i n) = Suc (nwNextFuture n)"
  by (simp_all add: new_promise_def Let_def smap_contains_def)

lemma pending_ok_promise [inv_intros]: "pending_ok n \<Longrightarrow> pending_ok (new_promise i n)"
proof (rule pending_okI, goal_cases)
  case (1 j p)
  with pending_okD(1,2) [OF 1(1), of j p] show ?case
    by (auto simp: new_promise_pending new_promise_future split: if_splits)
next
  case (2 j k p)
  with pending_okD(1,3) [OF 2(1)] show ?case
    by (auto simp: new_promise_pending split: if_splits)
qed

lemma pending_ok_erase [inv_intros]:
  "pending_ok n \<Longrightarrow> pending_ok (n\<lparr>nwPending := smap_erase i (nwPending n)\<rparr>)"
  by (auto simp: pending_ok_def smap.look_erase split: if_splits)

lemma pending_ok_dispatch [inv_intros]:
  assumes "pending_ok n"
  shows "pending_ok (fst (client_dispatch pkt sock n w))"
proof (cases "map_of (nwPending n) (fst (snd pkt))")
  case None
  then show ?thesis using assms by (simp add: client_dispatch_def Let_def split: option.split)
next
  case (Some p)
  show ?thesis
  proof (rule pending_okI, goal_cases)
    case (1 i q)
    then have q: "map_of (nwPending n) i = Some q" "i \<noteq> fst (snd pkt)"
      using Some by (auto simp: client_dispatch_def Let_def smap.look_erase split: if_splits)
    then have "q \<noteq> p" using pending_okD(3) [OF assms Some] by blast
    then show ?case using pending_okD(1,2) [OF assms q(1)] Some
      by (simp add: client_dispatch_def Let_def)
  next
    case (2 i j q)
    then show ?case using Some pending_okD(3) [OF assms]
      by (auto simp: client_dispatch_def Let_def smap.look_erase split: if_splits)
  qed
qed

lemma pending_ok_begin [inv_intros]:
  assumes "pending_ok n" and "SendAndWait_begin os d n w = Some (Inr (r, n', w'))"
  shows "pending_ok n'"
proof -
  have "pending_ok (n\<lparr>nwMsgIdSeq := i\<rparr>)" for i using assms(1) by (simp add: pending_ok_def)
  then show ?thesis
    using assms by (auto simp: SendAndWait_begin_def Let_def split: if_splits option.splits
        intro!: pending_ok_promise pending_ok_erase)
qed

text \<open>The packets the receive thread takes while a request waits.\<close>

fun dispatch_all :: "tuPacketMsg list \<Rightarrow> int \<Rightarrow> 'w network \<Rightarrow> 'w \<Rightarrow> 'w network \<times> 'w" where
  "dispatch_all [] sock n w = (n, w)"
| "dispatch_all (p # ps) sock n w = (let (n', w') = client_dispatch p sock n w in dispatch_all ps sock n' w')"

lemma dispatch_other:
  assumes "pending_ok n" and "map_of (nwPending n) i = Some p" and "fst (snd pkt) \<noteq> i"
  shows "map_of (nwPending (fst (client_dispatch pkt sock n w))) i = Some p"
  using assms by (auto simp: client_dispatch_def Let_def smap.look_erase split: option.split)

lemma dispatch_done:
  assumes "pending_ok n" and "p < nwNextFuture n" and "nwFutures n p \<noteq> FPending"
  shows "nwFutures (fst (client_dispatch pkt sock n w)) p = nwFutures n p
    \<and> p < nwNextFuture (fst (client_dispatch pkt sock n w))"
proof (cases "map_of (nwPending n) (fst (snd pkt))")
  case None
  then show ?thesis using assms(2) by (auto simp: client_dispatch_def Let_def split: option.split)
next
  case (Some q)
  then have "q \<noteq> p" using pending_okD(2) [OF assms(1) Some] assms(3) by auto
  with Some show ?thesis using assms(2) by (simp add: client_dispatch_def Let_def)
qed

lemma dispatch_all_append:
  "dispatch_all (ps @ qs) sock n w = (let (n', w') = dispatch_all ps sock n w in dispatch_all qs sock n' w')"
  by (induction ps arbitrary: n w) (auto simp: split_beta Let_def)

lemma dispatch_all_other:
  assumes "pending_ok n" and "map_of (nwPending n) i = Some p" and "\<forall>q \<in> set ps. fst (snd q) \<noteq> i"
  shows "pending_ok (fst (dispatch_all ps sock n w)) \<and> map_of (nwPending (fst (dispatch_all ps sock n w))) i = Some p"
  using assms
proof (induction ps arbitrary: n w)
  case (Cons q ps)
  from Cons.IH [OF pending_ok_dispatch [OF Cons.prems(1)] dispatch_other [OF Cons.prems(1,2)]] Cons.prems(3)
  show ?case by (simp add: split_beta Let_def)
qed simp

lemma dispatch_all_done:
  assumes "pending_ok n" and "p < nwNextFuture n" and "nwFutures n p \<noteq> FPending"
  shows "nwFutures (fst (dispatch_all ps sock n w)) p = nwFutures n p"
  using assms
proof (induction ps arbitrary: n w)
  case (Cons q ps)
  have "nwFutures (fst (dispatch_all ps sock (fst (client_dispatch q sock n w)) (snd (client_dispatch q sock n w)))) p
      = nwFutures (fst (client_dispatch q sock n w)) p"
    using Cons.prems dispatch_done [OF Cons.prems] by (intro Cons.IH pending_ok_dispatch) auto
  then show ?case using dispatch_done [OF Cons.prems] by (simp add: split_beta Let_def)
qed simp

lemma SendAndWait_begin_pending:
  assumes "pending_ok n" and "map_of (nwPending n) (nwMsgIdSeq n) = None"
    and "SendAndWait_begin os d n w = Some (Inr (Inr (i, p), n1, w1))"
  shows "pending_ok n1" and "i = nwMsgIdSeq n" and "map_of (nwPending n1) i = Some p"
proof -
  show "pending_ok n1" by (rule pending_ok_begin [OF assms(1,3)])
  from assms(3) have i: "i = nwMsgIdSeq n" "p = nwNextFuture n" "n1 = new_promise i (n\<lparr>nwMsgIdSeq := i + 1\<rparr>)"
    by (auto simp: SendAndWait_begin_def Let_def split: if_splits option.splits)
  then show "i = nwMsgIdSeq n" "map_of (nwPending n1) i = Some p"
    using assms(2) by (simp_all add: new_promise_pending)
qed

subsection \<open>Disconnecting a client of the server\<close>

text \<open>
  DisConnect( sUUID ) holds \<open>_lckClientMap\<close> while Stop joins the receive thread, and closes the
  socket only after it. The receive thread leaves its loop when recv has returned data or an error
  and \<open>_isStop\<close> is set; when recv reports that the peer has closed, it calls DisConnect itself and
  waits for the lock first. The parameter \<open>peer\<close> says whether the peer still sends.
\<close>

datatype dc_main = MJoin | MClose | MDone
datatype dc_recv = RTest | RRecv | RLockMap | RExit

record dc_sys =
  dcStop :: bool
  dcMain :: dc_main
  dcRecv :: dc_recv

definition dc_start :: dc_sys where
  "dc_start = \<lparr>dcStop = True, dcMain = MJoin, dcRecv = RRecv\<rparr>"

inductive dc_step :: "bool \<Rightarrow> dc_sys \<Rightarrow> dc_sys \<Rightarrow> bool" for peer where
  test: "dcRecv s = RTest \<Longrightarrow> dc_step peer s (s\<lparr>dcRecv := if dcStop s then RExit else RRecv\<rparr>)"
| data: "peer \<Longrightarrow> dcRecv s = RRecv \<Longrightarrow> dc_step peer s (s\<lparr>dcRecv := RTest\<rparr>)"
| closed: "dcRecv s = RRecv \<Longrightarrow> dc_step peer s (s\<lparr>dcStop := True, dcRecv := RLockMap\<rparr>)"
| lock: "dcRecv s = RLockMap \<Longrightarrow> dcMain s = MDone \<Longrightarrow> dc_step peer s (s\<lparr>dcRecv := RExit\<rparr>)"
| join: "dcMain s = MJoin \<Longrightarrow> dcRecv s = RExit \<Longrightarrow> dc_step peer s (s\<lparr>dcMain := MClose\<rparr>)"
| close: "dcMain s = MClose \<Longrightarrow> dc_step peer s (s\<lparr>dcMain := MDone\<rparr>)"

definition dc_stuck :: "dc_sys \<Rightarrow> bool" where
  "dc_stuck s = (dcMain s = MJoin \<and> (dcRecv s = RRecv \<or> dcRecv s = RLockMap))"

lemma dc_stuck_step: "dc_step False s s' \<Longrightarrow> dc_stuck s \<Longrightarrow> dc_stuck s'"
  by (induction rule: dc_step.induct) (auto simp: dc_stuck_def)

lemma dc_stuck_star: "(dc_step False)\<^sup>*\<^sup>* s s' \<Longrightarrow> dc_stuck s \<Longrightarrow> dc_stuck s'"
  by (induction rule: rtranclp_induct) (auto dest: dc_stuck_step)

subsection \<open>Properties\<close>

text \<open>C7: SendAndWait gives the first packet that arrives with its message id: whatever other
  packets the receive thread takes before and after it, the wait ends with that packet. When no
  packet has the id, the wait ends with a time-out that takes the id out of the pending map.\<close>

theorem SendAndWait_gets_reply:
  assumes "pending_ok n" and "map_of (nwPending n) (nwMsgIdSeq n) = None"
    and "SendAndWait_begin os d n w = Some (Inr (Inr (i, p), n1, w1))"
    and "\<forall>q \<in> set ps. fst (snd q) \<noteq> i" and "fst (snd pkt) = i"
  shows "\<exists>n2. SendAndWait_end i p (fst (dispatch_all (ps @ pkt # qs) sock n1 w1)) = Inr (Some pkt, n2)
     \<and> (\<exists>n3. SendAndWait_end i p (fst (dispatch_all ps sock n1 w1)) = Inr (None, n3) \<and> map_of (nwPending n3) i = None)"
proof -
  note b = SendAndWait_begin_pending [OF assms(1-3)]
  let ?n2 = "fst (dispatch_all ps sock n1 w1)" and ?w2 = "snd (dispatch_all ps sock n1 w1)"
  have n2: "pending_ok ?n2" "map_of (nwPending ?n2) i = Some p"
    using dispatch_all_other [OF b(1,3) assms(4)] by auto
  note p = pending_okD(1,2) [OF n2]
  let ?n3 = "fst (client_dispatch pkt sock ?n2 ?w2)"
  have n3: "nwFutures ?n3 p = FValue pkt" "nwNextFuture ?n3 = nwNextFuture ?n2"
    using n2(2) assms(5) by (simp_all add: client_dispatch_def Let_def)
  have "pending_ok ?n3" by (rule pending_ok_dispatch [OF n2(1)])
  then have "nwFutures (fst (dispatch_all qs sock ?n3 (snd (client_dispatch pkt sock ?n2 ?w2)))) p = FValue pkt"
    using p n3 by (subst dispatch_all_done) simp_all
  then have "SendAndWait_end i p (fst (dispatch_all (ps @ pkt # qs) sock n1 w1))
      = Inr (Some pkt, fst (dispatch_all (ps @ pkt # qs) sock n1 w1))"
    by (simp add: SendAndWait_end_def dispatch_all_append split_beta Let_def)
  moreover have "SendAndWait_end i p ?n2 = Inr (None, ?n2\<lparr>nwPending := smap_erase i (nwPending ?n2)\<rparr>)"
    using p by (simp add: SendAndWait_end_def)
  ultimately show ?thesis by (auto simp: smap.look_erase)
qed

text \<open>A connected client network.\<close>

definition demo_client :: "byte list list network" where
  "demo_client = (nw_new \<lparr>nwIP = wlit ''h'', nwName = wlit ''n'', nwPort = 80, nwType = NETWORK_CLIENT\<rparr>)
     \<lparr>nwClient := Some \<lparr>tcStatus = CONNECTED, tcSocket = 5\<rparr>\<rparr>"

definition all_os :: "byte list list os" where
  "all_os = stream_os\<lparr>os_send := (\<lambda>s d w. (int (length d), w @ [d]))\<rparr>"

lemma send_loop_all_os: "length d < 2 ^ 31 \<Longrightarrow> send_loop all_os 5 d 0 w = Some (True, w @ [d])"
proof -
  assume "length d < 2 ^ 31"
  then have "int (length d) < 2147483648" by simp
  then have "to_int32 (int (length d)) = int (length d)" "to_size (int (length d)) = length d"
    by (simp_all add: to_int32_id to_size_nonneg)
  then show ?thesis by (subst send_loop.simps) (simp add: all_os_def)
qed

theorem SendAndWait_gets_reply_witness:
  "\<exists>n1 w1 n2. SendAndWait_begin all_os [9] demo_client [] = Some (Inr (Inr (1, 0), n1, w1)) \<and>
     SendAndWait_end 1 0 (fst (dispatch_all [(1, 4, [6]), (1, 1, [7]), (1, 1, [8])] 5 n1 w1)) = Inr (Some (1, 1, [7]), n2)"
proof -
  have ok: "pending_ok demo_client" by (simp add: pending_ok_def demo_client_def nw_new_def)
  have none: "map_of (nwPending demo_client) (nwMsgIdSeq demo_client) = None"
    by (simp add: demo_client_def nw_new_def)
  have "convertSendMsg 1 [9] \<noteq> []" "length (convertSendMsg 1 [9]) < 2 ^ 31"
    using length_convertSendMsg [of 1 "[9]"] by (auto simp del: length_convertSendMsg)
  then have "tc_Send all_os (convertSendMsg 1 [9]) \<lparr>tcStatus = CONNECTED, tcSocket = 5\<rparr> []
      = Some (True, [] @ [convertSendMsg 1 [9]])" by (simp only: tc_Send_def) (simp add: send_loop_all_os)
  then obtain n1 w1 where b: "SendAndWait_begin all_os [9] demo_client [] = Some (Inr (Inr (1, 0), n1, w1))"
    by (auto simp: SendAndWait_begin_def demo_client_def nw_new_def Let_def)
  show ?thesis
    using SendAndWait_gets_reply [OF ok none b, of "[(1, 4, [6])]" "(1, 1, [7])" "[(1, 1, [8])]" 5] b by auto
qed

text \<open>What convertReceiveMsg makes of a message that Receive has cut.\<close>

lemma convertReceiveMsg_cut:
  assumes "8 < length body" and "length body + 8 \<le> N" and "N < 2 ^ 31"
  shows "convertReceiveMsg (take (length body) (convertSendMsg msgId body) @ replicate (N - length body) 0)
      = Inr (length body, msgId, take (length body - 8) body @ replicate 8 0)"
proof -
  let ?n = "length body"
  have small: "?n < 2 ^ 31" using assms(2,3) by linarith
  have hdr: "take ?n (convertSendMsg msgId body) = be32_bytes (word_of_nat ?n) @ be32_bytes msgId @ take (?n - 8) body"
    using assms(1) by (simp add: convertSendMsg_def)
  let ?r = "take (?n - 8) body @ replicate (N - ?n) 0"
  have lr: "length ?r = N - 8" using assms(1,2) by simp
  have un: "unat (word_of_nat k :: u32) = k" if "k < 2 ^ 31" for k
    unfolding unat_of_nat using that by (intro mod_less) simp
  have "N - 8 < 2 ^ 31" using assms(3) by linarith
  then have "unat (min (be32_value (be32_bytes (word_of_nat ?n))) (word_of_nat (length ?r))) = ?n"
    unfolding be32_value_bytes lr using un [OF small] un [of "N - 8"] assms(2)
    by (auto simp: min_def word_le_nat_alt)
  moreover have "take ?n ?r = take (?n - 8) body @ replicate 8 0"
  proof -
    have "\<not> ?n \<le> ?n - 8" "8 \<le> N - ?n" using assms(1,2) by linarith+
    then show ?thesis using assms(1) by (simp add: min_def)
  qed
  ultimately show ?thesis
    unfolding hdr append_assoc using small
    by (simp only: convertReceiveMsg_split length_be32_bytes be32_value_bytes un)
qed

text \<open>The client's receive thread delivers a message with a body longer than 8 bytes (and a size
  field without bytes above 127) with the last 8 bytes of the body replaced by zeros: to the
  waiting SendAndWait or to the handler goes the right size and id, but a cut body.\<close>

lemma client_delivers_cut_body:
  assumes "streams os" and "\<not> nwIsStop n" and "nwClient n = Some c" and "tcStatus c = CONNECTED"
    and "8 \<le> length s" and "[] \<notin> set ss" and "concat (s # ss) = convertSendMsg msgId body @ rest"
    and "8 < length body" and "length body + 8 \<le> EXT_PACKET_SIZE"
    and "\<forall>b \<in> set (be32_bytes (word_of_nat (length body))). b < 128"
  shows "\<exists>w'. client_receive_round os win n (s # ss) = Some (Inr (False,
         client_dispatch (length body, msgId, take (length body - 8) body @ replicate 8 0) (tcSocket c) n w'))
     \<and> concat w' = drop (length body - 8) body @ rest"
proof -
  let ?N = EXT_PACKET_SIZE and ?n = "length body" and ?msg = "convertSendMsg msgId body"
  have N: "?N < 2 ^ 31" by (simp add: EXT_PACKET_SIZE_def)
  then have small: "?n < 2 ^ 31" using assms(9) by linarith
  obtain segs where rcv: "recv_packet os win (tcSocket c) (replicate ?N 0) True (s # ss)
      = Some (Inr (int ?n, take ?n ?msg @ replicate (?N - ?n) 0, segs))"
    and rest: "concat segs = drop (?n - 8) body @ rest"
    using recv_packet_message [OF assms(1,5-8) _ small assms(10), of "replicate ?N 0" win "tcSocket c"] assms(9)
    by auto
  have "convertReceiveMsg (take ?n ?msg @ replicate (?N - ?n) 0)
      = Inr (?n, msgId, take (?n - 8) body @ replicate 8 0)"
    by (rule convertReceiveMsg_cut [OF assms(8,9) N])
  then show ?thesis
    using assms(2-4,8,9) rcv rest
    by (auto simp: client_receive_round_def tc_Receive_def split_beta EXT_PACKET_SIZE_def)
qed

lemma client_delivers_cut_body_witness:
  "\<exists>w'. client_receive_round stream_os True demo_client [convertSendMsg 7 [1, 2, 3, 4, 5, 6, 7, 8, 9, 10]]
       = Some (Inr (False, client_dispatch (10, 7, [1, 2, 0, 0, 0, 0, 0, 0, 0, 0]) 5 demo_client w'))
     \<and> concat w' = [3, 4, 5, 6, 7, 8, 9, 10]"
proof -
  let ?body = "[1, 2, 3, 4, 5, 6, 7, 8, 9, 10] :: byte list"
  have "\<forall>b \<in> set (be32_bytes (word_of_nat (length ?body))). b < 128" by (simp add: be32_bytes_def)
  moreover have l: "length ?body = 10" by simp
  moreover have "take (10 - 8) ?body @ replicate 8 0 = [1, 2, 0, 0, 0, 0, 0, 0, 0, 0]"
    "drop (10 - 8) ?body @ [] = [3, 4, 5, 6, 7, 8, 9, 10]" by (simp_all add: numeral_eq_Suc)
  moreover have "10 + 8 \<le> EXT_PACKET_SIZE" by (simp add: EXT_PACKET_SIZE_def)
  moreover have "\<not> nwIsStop demo_client" "nwClient demo_client = Some \<lparr>tcStatus = CONNECTED, tcSocket = 5\<rparr>"
    by (simp_all add: demo_client_def nw_new_def)
  ultimately have "\<exists>w'. client_receive_round stream_os True demo_client [convertSendMsg 7 ?body]
      = Some (Inr (False, client_dispatch (length ?body, 7, [1, 2, 0, 0, 0, 0, 0, 0, 0, 0]) 5 demo_client w'))
    \<and> concat w' = [3, 4, 5, 6, 7, 8, 9, 10]"
    using client_delivers_cut_body [OF streams_stream_os, of demo_client
        "\<lparr>tcStatus = CONNECTED, tcSocket = 5\<rparr>" "convertSendMsg 7 ?body" "[]" 7 ?body "[]" True]
    by simp
  then show ?thesis unfolding l .
qed

text \<open>The receive handler of the server calls the registered handler with the packets of its
  queue in order, except that packets with an empty body are dropped without a call.\<close>

lemma handler_drops_empty_packets:
  assumes "\<not> rhIsStop h" and "rhQueue h = \<lparr>eqItems = pkt # pkts, eqStop = False\<rparr>" and "rhHandler h = Some fn"
  shows "handler_round h w = Some (h\<lparr>rhQueue := \<lparr>eqItems = pkts, eqStop = False\<rparr>\<rparr>,
           if fst pkt = 0 then w else fn (rhConnection h) pkt w)"
  using assms by (simp add: handler_round_def eq_DeQueue_def)

lemma handler_drops_empty_packets_witness:
  "handler_round (InsertPacket (0, 5, []) (rh_new\<lparr>rhHandler := Some (\<lambda>s p w. w @ [p])\<rparr>)) []
     = Some (rh_new\<lparr>rhHandler := Some (\<lambda>s p w. w @ [p])\<rparr>, [])"
  using handler_drops_empty_packets [where h = "InsertPacket (0, 5, []) (rh_new\<lparr>rhHandler := Some (\<lambda>s p w. w @ [p])\<rparr>)"
      and pkt = "(0, 5, [])" and pkts = "[]" and fn = "\<lambda>s p w. w @ [p]" and w = "[]"]
  by (simp add: InsertPacket_def rh_new_def eq_new_def eq_EnQueue_def)



end
