(* ===== verification/Ext_File.thy ===== *)
theory Ext_File
  imports X_String Std_Map
begin

text \<open>
  Ext::File (Util/EXFile.cpp/.hpp) and the small utilities of Util/EXUtil.hpp: the enum-to-text
  tables and flag operators of its macros, cRandom, CalcPercentageIncrease and the pointer overloads of isTrue. The file system is the record \<open>fs\<close> of the
  std::filesystem queries; \<open>win\<close> selects the Windows separator. Paths go through the XString
  operations of \<open>X_String\<close>, so a substr outside the string throws (\<open>Inl\<close>).
\<close>

record fs =
  fs_exists :: "xstring \<Rightarrow> bool"
  fs_is_directory :: "xstring \<Rightarrow> bool"
  fs_is_regular_file :: "xstring \<Rightarrow> bool"
  fs_is_character_file :: "xstring \<Rightarrow> bool"

definition EXT_PATH_SEPARATOR :: "bool \<Rightarrow> xstring" where
  "EXT_PATH_SEPARATOR win = (if win then [92] else [47])"

definition IsExistFile :: "fs \<Rightarrow> xstring \<Rightarrow> bool" where
  "IsExistFile fs sFileFullPath = fs_exists fs (xs_toWString sFileFullPath)"

definition IsExistDir :: "fs \<Rightarrow> xstring \<Rightarrow> bool" where
  "IsExistDir fs sDirPath = fs_is_directory fs (xs_toWString sDirPath)"

definition NormalizePath :: "bool \<Rightarrow> xstring \<Rightarrow> xstring res option" where
  "NormalizePath win sFullPath =
     (let sSeparator = EXT_PATH_SEPARATOR win; sSeparatorTarget = EXT_PATH_SEPARATOR (\<not> win) in
      case xs_replaceAll sFullPath sSeparatorTarget sSeparator of
        None \<Rightarrow> None
      | Some sNormalizePath \<Rightarrow>
          (if xs_endswith sNormalizePath sSeparator False
           then Some (xs_substr sNormalizePath 0 (size_sub (xs_size sNormalizePath) 2))
           else Some (Inr sNormalizePath)))"

subsection \<open>cExtFile\<close>

datatype EXT_FILE_TYPE = FILE_TYPE_NONE | FILE_TYPE_FILE | FILE_TYPE_DIR | FILE_TYPE_SYMLINK | FILE_TYPE_CHARACTER

fun file_type_value :: "EXT_FILE_TYPE \<Rightarrow> nat" where
  "file_type_value FILE_TYPE_NONE = 0"
| "file_type_value FILE_TYPE_FILE = 1"
| "file_type_value FILE_TYPE_DIR = 2"
| "file_type_value FILE_TYPE_SYMLINK = 3"
| "file_type_value FILE_TYPE_CHARACTER = 4"

lemma file_type_value_inj: "file_type_value a = file_type_value b \<Longrightarrow> a = b"
  by (cases a; cases b) simp_all

text \<open>The enumeration is ordered by its values, so it can be the key of a std::map.\<close>

instantiation EXT_FILE_TYPE :: linorder
begin

definition less_eq_EXT_FILE_TYPE :: "EXT_FILE_TYPE \<Rightarrow> EXT_FILE_TYPE \<Rightarrow> bool" where
  "less_eq_EXT_FILE_TYPE a b = (file_type_value a \<le> file_type_value b)"

definition less_EXT_FILE_TYPE :: "EXT_FILE_TYPE \<Rightarrow> EXT_FILE_TYPE \<Rightarrow> bool" where
  "less_EXT_FILE_TYPE a b = (file_type_value a < file_type_value b)"

instance
  by standard (auto simp: less_eq_EXT_FILE_TYPE_def less_EXT_FILE_TYPE_def dest: file_type_value_inj)

end

record cExtFile =
  efIsExist :: bool
  efType :: EXT_FILE_TYPE
  efFullPath :: xstring
  efFilePath :: xstring
  efFileName :: xstring

definition ef_new :: cExtFile where
  "ef_new = \<lparr>efIsExist = False, efType = FILE_TYPE_NONE, efFullPath = [], efFilePath = [], efFileName = []\<rparr>"

definition ef_reset :: "cExtFile \<Rightarrow> cExtFile" where
  "ef_reset f = f\<lparr>efIsExist := False, efType := FILE_TYPE_NONE, efFilePath := xs_clear (efFilePath f),
     efFileName := xs_clear (efFileName f), efFullPath := xs_clear (efFullPath f)\<rparr>"

text \<open>The local function fnDividePath.\<close>

definition fnDividePath :: "bool \<Rightarrow> xstring \<Rightarrow> cExtFile \<Rightarrow> cExtFile res" where
  "fnDividePath win sNormalizePath f =
     (let pos = xs_rfind sNormalizePath (EXT_PATH_SEPARATOR win) in
      if pos \<noteq> npos then
        (case xs_substr sNormalizePath 0 (size_sub pos 1) of Inl e \<Rightarrow> Inl e | Inr p \<Rightarrow>
           (case xs_substr sNormalizePath pos npos of Inl e \<Rightarrow> Inl e | Inr n \<Rightarrow>
              Inr (f\<lparr>efFilePath := p, efFileName := n\<rparr>)))
      else Inr f)"

definition devidePath :: "fs \<Rightarrow> bool \<Rightarrow> xstring \<Rightarrow> cExtFile \<Rightarrow> cExtFile res option" where
  "devidePath fs win sFullPath f =
     (case NormalizePath win sFullPath of
        None \<Rightarrow> None
      | Some (Inl e) \<Rightarrow> Some (Inl e)
      | Some (Inr sNormalizePath) \<Rightarrow>
          (let f1 = f\<lparr>efFullPath := sFullPath\<rparr> in
           if \<not> fs_exists fs (xs_toWString sFullPath) then Some (Inr (f1\<lparr>efIsExist := False\<rparr>))
           else if fs_is_directory fs (xs_toWString sNormalizePath)
           then Some (Inr (f1\<lparr>efFilePath := sFullPath, efFileName := [], efType := FILE_TYPE_DIR\<rparr>))
           else if fs_is_regular_file fs (xs_toWString sNormalizePath)
           then Some (fnDividePath win sNormalizePath (f1\<lparr>efType := FILE_TYPE_FILE\<rparr>))
           else if fs_is_character_file fs (xs_toWString sNormalizePath)
           then Some (fnDividePath win sNormalizePath (f1\<lparr>efType := FILE_TYPE_CHARACTER\<rparr>))
           else Some (Inr f1)))"

definition ef_SetPath :: "fs \<Rightarrow> bool \<Rightarrow> xstring \<Rightarrow> cExtFile \<Rightarrow> cExtFile res option" where
  "ef_SetPath fs win sFullPath f = devidePath fs win sFullPath ((ef_reset f)\<lparr>efFullPath := sFullPath\<rparr>)"

definition ef_of_path :: "fs \<Rightarrow> bool \<Rightarrow> xstring \<Rightarrow> cExtFile res option" where
  "ef_of_path fs win sFullPath = devidePath fs win sFullPath ((ef_reset ef_new)\<lparr>efFullPath := sFullPath\<rparr>)"

definition ef_devidePath :: "fs \<Rightarrow> bool \<Rightarrow> cExtFile \<Rightarrow> cExtFile res option" where
  "ef_devidePath fs win f = devidePath fs win (efFullPath f) f"

definition ef_Path :: "cExtFile \<Rightarrow> xstring" where
  "ef_Path f = efFilePath f"

definition ef_Name :: "cExtFile \<Rightarrow> xstring" where
  "ef_Name f = efFileName f"

definition ef_FullPath :: "bool \<Rightarrow> cExtFile \<Rightarrow> xstring" where
  "ef_FullPath win f =
     (if xs_IsEmpty (efFileName f) \<and> xs_IsEmpty (efFilePath f) then []
      else if xs_IsEmpty (efFileName f) then efFilePath f
      else xs_plus (xs_plus (efFilePath f) (EXT_PATH_SEPARATOR win)) (efFileName f))"

definition ef_IsExist :: "fs \<Rightarrow> bool \<Rightarrow> cExtFile \<Rightarrow> bool" where
  "ef_IsExist fs win f = fs_exists fs (xs_toWString (ef_FullPath win f))"

subsection \<open>Util/EXUtil.hpp\<close>

text \<open>The class an EXT_ENUM_START ... EXT_ENUM_END block defines: its table, Get (which inserts
  nothing) and Set.\<close>

definition enum_table :: "('e::linorder \<times> xstring) list \<Rightarrow> ('e, xstring) smap" where
  "enum_table adds = fold (\<lambda>(e, x) m. smap_assign e x m) adds []"

definition enum_Get :: "('e, xstring) smap \<Rightarrow> 'e \<Rightarrow> xstring" where
  "enum_Get m e = (if smap_contains m e then the (map_of m e) else [])"

definition enum_Set :: "'e::linorder \<Rightarrow> xstring \<Rightarrow> ('e, xstring) smap \<Rightarrow> ('e, xstring) smap" where
  "enum_Set e s m = smap_assign e s m"

lemma enum_Get_Set: "enum_Get (enum_Set e s m) e' = (if e' = e then s else enum_Get m e')"
  by (simp add: enum_Get_def enum_Set_def map_of_smap_assign)

text \<open>The table of the file types, without its Korean texts.\<close>

definition file_types :: "(EXT_FILE_TYPE \<Rightarrow> xstring) \<Rightarrow> (EXT_FILE_TYPE, xstring) smap" where
  "file_types name = enum_table (map (\<lambda>e. (e, name e))
     [FILE_TYPE_NONE, FILE_TYPE_FILE, FILE_TYPE_DIR, FILE_TYPE_SYMLINK, FILE_TYPE_CHARACTER])"

lemma file_types_Get: "enum_Get (file_types name) e = name e"
  by (cases e) (simp_all add: file_types_def enum_table_def enum_Get_def smap_contains_def map_of_smap_assign)

text \<open>EXT_ENUM_FLAG, on the int values of the enumeration.\<close>

definition flag_or :: "u32 \<Rightarrow> u32 \<Rightarrow> u32" where
  "flag_or a b = a OR b"

definition flag_and :: "u32 \<Rightarrow> u32 \<Rightarrow> u32" where
  "flag_and a b = a AND b"

text \<open>cRandom: the range, and Generate over a seeded generator \<open>dist\<close> of the standard library.\<close>

record crandom =
  crStart :: int
  crEnd :: int

definition SetRange :: "int \<Rightarrow> int \<Rightarrow> crandom" where
  "SetRange nStart nEnd =
     (if nStart < nEnd then \<lparr>crStart = nStart, crEnd = nEnd\<rparr> else \<lparr>crStart = nEnd, crEnd = nStart\<rparr>)"

definition Generate :: "(int \<Rightarrow> int \<Rightarrow> 'g \<Rightarrow> int \<times> 'g) \<Rightarrow> crandom \<Rightarrow> 'g \<Rightarrow> int \<times> 'g" where
  "Generate dist r gen = dist (crStart r) (crEnd r) gen"

subsection \<open>Lemmas\<close>

lemma replaceAll_char: "xs_replaceAll s [a] [b] = Some (map (\<lambda>c. if c = a then b else c) s)"
proof -
  let ?g = "map (\<lambda>c. if c = a then b else c)"
  let ?ps = "fst (chunks [a] s)" and ?r = "snd (chunks [a] s)"
  have "\<not> sublist [a] ?r" "\<forall>p \<in> set ?ps. \<not> sublist [a] p"
    by (simp_all add: chunks_rest_free chunks_pieces_free)
  then have free: "a \<notin> set ?r" "\<forall>p \<in> set ?ps. a \<notin> set p"
    by (auto simp: sublist_def in_set_conv_decomp)
  have id: "?g p = p" if "a \<notin> set p" for p using that by (intro map_idI) auto
  have "?g s = ?g (concat (map (\<lambda>p. p @ [a]) ?ps) @ ?r)"
    using chunks_join [of "[a]" s] by simp
  also have "\<dots> = concat (map (\<lambda>p. ?g p @ [b]) ?ps) @ ?g ?r"
    by (simp add: map_concat comp_def)
  also have "\<dots> = concat (map (\<lambda>p. p @ [b]) ?ps) @ ?r"
    using free by (simp add: id cong: map_cong)
  finally show ?thesis by (simp add: xs_replaceAll_chunks)
qed

lemma EXT_PATH_SEPARATOR_char: "\<exists>c. EXT_PATH_SEPARATOR win = [c] \<and> c \<noteq> 0"
  by (cases win) (simp_all add: EXT_PATH_SEPARATOR_def)

lemma NormalizePath_plain:
  assumes "EXT_PATH_SEPARATOR win = [c]" and "EXT_PATH_SEPARATOR (\<not> win) = [t]" and "t \<notin> set s" and "last s \<noteq> c"
  shows "NormalizePath win s = Some (Inr s)"
proof -
  have "map (\<lambda>x. if x = t then c else x) s = s" using assms(3) by (intro map_idI) auto
  moreover have "\<not> suffix [c] s" using assms(4) by (auto simp: suffix_def)
  moreover have "c_str_of [c] = [c]"
    using assms(1) EXT_PATH_SEPARATOR_char [of win] by (auto simp: c_str_of_def)
  ultimately show ?thesis
    by (simp add: NormalizePath_def assms(1,2) replaceAll_char xs_endswith_def)
qed

text \<open>A trailing separator takes the character before it along.\<close>

lemma NormalizePath_trailing:
  assumes "EXT_PATH_SEPARATOR win = [c]" and "EXT_PATH_SEPARATOR (\<not> win) = [t]" and "t \<notin> set (p @ [x])"
    and "length p < 2 ^ 63"
  shows "NormalizePath win (p @ [x, c]) = Some (Inr p)"
proof -
  let ?s = "p @ [x, c]"
  have ct: "c \<noteq> t" using assms(1,2) by (cases win) (auto simp: EXT_PATH_SEPARATOR_def)
  have "map (\<lambda>y. if y = t then c else y) ?s = ?s" using assms(3) ct by (intro map_idI) auto
  moreover have "suffix [c] ?s" by (simp add: suffix_def)
  moreover have "c_str_of [c] = [c]"
    using assms(1) EXT_PATH_SEPARATOR_char [of win] by (auto simp: c_str_of_def)
  moreover have "size_sub (length ?s) 2 = length p" using assms(4) by (subst size_sub_le) simp_all
  moreover have "xs_substr ?s 0 (length p) = Inr p"
    by (simp add: xs_substr_def wsubstr_def npos_def)
  ultimately show ?thesis
    unfolding NormalizePath_def assms(1,2) replaceAll_char Let_def option.case
    by (simp add: xs_endswith_def xs_size_def)
qed

lemma wrfind_last: "c \<notin> set n \<Longrightarrow> wrfind (d @ c # n) [c] = Some (length d)"
proof (induction d)
  case Nil
  then have "wrfind n [c] = None" by (induction n) auto
  then show ?case by simp
qed simp

lemma fnDividePath_split:
  assumes "EXT_PATH_SEPARATOR win = [c]" and "c \<notin> set n" and "d \<noteq> []" and "length d < 2 ^ 63"
    and "length n < 2 ^ 63"
  shows "fnDividePath win (d @ c # n) f = Inr (f\<lparr>efFilePath := butlast d, efFileName := c # n\<rparr>)"
proof -
  have pos: "xs_rfind (d @ c # n) [c] = length d"
    using assms(2) by (simp add: xs_rfind_def size_of_opt_def wrfind_last)
  have np: "length d \<noteq> npos" using assms(4) by (simp add: npos_def)
  have "1 \<le> length d" using assms(3) by (cases d) auto
  then have "size_sub (length d) 1 = length d - 1" using assms(4) by (intro size_sub_le) simp_all
  then have p: "xs_substr (d @ c # n) 0 (size_sub (length d) 1) = Inr (butlast d)"
    by (simp add: xs_substr_def wsubstr_def npos_def butlast_conv_take)
  have "xs_substr (d @ c # n) (length d) npos = Inr (take npos (c # n))"
    using np by (simp add: xs_substr_def wsubstr_def)
  moreover have "take npos (c # n) = c # n" using assms(5) by (intro take_all) (simp add: npos_def)
  ultimately show ?thesis using pos np p by (simp add: fnDividePath_def assms(1))
qed

subsection \<open>CalcPercentageIncrease and isTrue\<close>

text \<open>The arithmetic of double is a parameter; with exact arithmetic the result is the percentage by which the first
  value has to grow. The caller has to exclude an initial 0.\<close>

record 'd arith =
  ar_sub :: "'d \<Rightarrow> 'd \<Rightarrow> 'd"
  ar_div :: "'d \<Rightarrow> 'd \<Rightarrow> 'd"
  ar_mul :: "'d \<Rightarrow> 'd \<Rightarrow> 'd"
  ar_hundred :: 'd

definition CalcPercentageIncrease :: "'d arith \<Rightarrow> 'd \<Rightarrow> 'd \<Rightarrow> 'd" where
  "CalcPercentageIncrease a dInit dFinal =
     (let dInc = ar_sub a dFinal dInit; dPercentage = ar_mul a (ar_div a dInc dInit) (ar_hundred a) in dPercentage)"

lemma CalcPercentageIncrease_exact:
  assumes "(dInit :: 'a :: linordered_field) \<noteq> 0"
    and "p = CalcPercentageIncrease \<lparr>ar_sub = (-), ar_div = (/), ar_mul = (*), ar_hundred = 100\<rparr> dInit dFinal"
  shows "dInit + dInit * p / 100 = dFinal"
  using assms by (simp add: CalcPercentageIncrease_def field_simps)

text \<open>The overload of isTrue for a wchar_t pointer, as the one for char, compares an address with those the compiler gave the literals.\<close>

definition isTrue_ptr :: "(string \<Rightarrow> nat) \<Rightarrow> nat \<Rightarrow> bool" where
  "isTrue_ptr addr c =
     (c = addr ''Y'' \<or> c = addr ''y'' \<or> c = addr ''True'' \<or> c = addr ''TRUE'' \<or> c = addr ''1'')"

text \<open>So no text in a buffer of the program, which has an address of its own, is true.\<close>

lemma isTrue_ptr_buffer: "c \<notin> range addr \<Longrightarrow> \<not> isTrue_ptr addr c"
  by (auto simp: isTrue_ptr_def)

subsection \<open>Properties\<close>

text \<open>A cExtFile of an existing regular file splits its path in the wrong place: Path loses the
  last character of the directory, Name keeps the separator in front of the file name, and
  FullPath puts the two together to a different path.\<close>

lemma cExtFile_splits_wrong:
  assumes "EXT_PATH_SEPARATOR win = [c]" and "EXT_PATH_SEPARATOR (\<not> win) = [t]"
    and "t \<notin> set (d @ c # n)" and "c \<notin> set n" and "n \<noteq> []" and "d \<noteq> []"
    and "length d < 2 ^ 63" and "length n < 2 ^ 63"
    and "fs_exists fs (d @ c # n)" and "\<not> fs_is_directory fs (d @ c # n)" and "fs_is_regular_file fs (d @ c # n)"
  shows "\<exists>f'. ef_SetPath fs win (d @ c # n) f = Some (Inr f') \<and> ef_Path f' = butlast d
     \<and> ef_Name f' = c # n \<and> ef_FullPath win f' = butlast d @ c # c # n"
proof -
  have "last (d @ c # n) \<noteq> c" using assms(4,5) last_in_set [of n] by auto
  then have "NormalizePath win (d @ c # n) = Some (Inr (d @ c # n))"
    by (rule NormalizePath_plain [OF assms(1-3)])
  then show ?thesis
    using assms(9-11) fnDividePath_split [OF assms(1,4,6-8)]
    by (simp add: ef_SetPath_def devidePath_def xs_toWString_def ef_Path_def ef_Name_def ef_FullPath_def
        xs_IsEmpty_def xs_plus_def assms(1))
qed

lemma cExtFile_splits_wrong_witness:
  "\<exists>f'. ef_SetPath \<lparr>fs_exists = (\<lambda>_. True), fs_is_directory = (\<lambda>_. False), fs_is_regular_file = (\<lambda>_. True),
        fs_is_character_file = (\<lambda>_. False)\<rparr> False (wlit ''/tmp/a'') ef_new = Some (Inr f')
     \<and> ef_Path f' = wlit ''/tm'' \<and> ef_Name f' = wlit ''/a''"
proof -
  have s: "wlit ''/tmp/a'' = [47, 116, 109, 112] @ 47 # [97]" by (simp add: wlit_def)
  have p: "wlit ''/tm'' = butlast [47, 116, 109, 112]" "wlit ''/a'' = 47 # [97]" by (simp_all add: wlit_def)
  show ?thesis
    unfolding s p
    using cExtFile_splits_wrong [of False 47 92 "[47, 116, 109, 112]" "[97]"
        "\<lparr>fs_exists = (\<lambda>_. True), fs_is_directory = (\<lambda>_. False), fs_is_regular_file = (\<lambda>_. True),
          fs_is_character_file = (\<lambda>_. False)\<rparr>" ef_new]
    by (simp add: EXT_PATH_SEPARATOR_def) blast
qed

end
