(* ===== verification/Uuid_V4.thy ===== *)
theory Uuid_V4
  imports Ex_Prelude
begin

text \<open>
  Util/UUID/uuid_v4.h, Util/UUID/endianness.h and CreateGUID (Util/EXUtil.cpp). A vector register
  is the list of its bytes, lowest first: 16 for __m128i, 32 for __m256i; the intrinsics the
  sources use are defined on these lists as the instructions work, lane by lane. Memory is a byte
  list too. The reference for the text form is \<open>uuid_text\<close>. The byte order macros betole are the
  identity on the little endian targets that have these instructions; the byte swaps of
  endianness.h are modelled beside them.
\<close>

subsection \<open>Words and bytes\<close>

fun le_word :: "byte list \<Rightarrow> 'a::len word" where
  "le_word [] = 0"
| "le_word (b # bs) = ucast b OR push_bit 8 (le_word bs)"

definition le_byte :: "nat \<Rightarrow> 'a::len word \<Rightarrow> byte" where
  "le_byte i w = ucast (drop_bit (8 * i) w)"

definition le_bytes :: "nat \<Rightarrow> 'a::len word \<Rightarrow> byte list" where
  "le_bytes n w = map (\<lambda>i. le_byte i w) [0..<n]"

subsection \<open>The intrinsics\<close>

type_synonym vec = "byte list"

definition set1_epi8 :: "byte \<Rightarrow> vec" where
  "set1_epi8 b = replicate 32 b"

text \<open>The arguments of the set functions come highest first.\<close>

definition set_epi32 :: "u32 list \<Rightarrow> vec" where
  "set_epi32 es = concat (map (le_bytes 4) (rev es))"

definition set_epi64x :: "u64 list \<Rightarrow> vec" where
  "set_epi64x es = concat (map (le_bytes 8) (rev es))"

definition vadd8 :: "vec \<Rightarrow> vec \<Rightarrow> vec" where
  "vadd8 a b = map2 (+) a b"

definition vsub8 :: "vec \<Rightarrow> vec \<Rightarrow> vec" where
  "vsub8 a b = map2 (-) a b"

definition vand :: "vec \<Rightarrow> vec \<Rightarrow> vec" where
  "vand a b = map2 (AND) a b"

definition vor :: "vec \<Rightarrow> vec \<Rightarrow> vec" where
  "vor a b = map2 (OR) a b"

definition vxor :: "vec \<Rightarrow> vec \<Rightarrow> vec" where
  "vxor a b = map2 (XOR) a b"

text \<open>The operations on the 64 bit lanes.\<close>

definition lanes64 :: "(u64 \<Rightarrow> u64) \<Rightarrow> vec \<Rightarrow> vec" where
  "lanes64 f v = map (\<lambda>i. le_byte (i mod 8) (f (le_word (take 8 (drop (8 * (i div 8)) v))))) [0..<length v]"

definition srli_epi64 :: "vec \<Rightarrow> nat \<Rightarrow> vec" where
  "srli_epi64 v k = lanes64 (drop_bit k) v"

definition slli_epi64 :: "vec \<Rightarrow> nat \<Rightarrow> vec" where
  "slli_epi64 v k = lanes64 (push_bit k) v"

text \<open>The shift of each 32 bit lane by its own count, and the horizontal add of pairs of lanes.\<close>

definition lane32 :: "vec \<Rightarrow> nat \<Rightarrow> u32" where
  "lane32 v j = le_word (take 4 (drop (4 * j) v))"

definition sllv_epi32 :: "vec \<Rightarrow> nat list \<Rightarrow> vec" where
  "sllv_epi32 v ks = concat (map (\<lambda>j. le_bytes 4 (push_bit (ks ! j) (lane32 v j))) [0..<length v div 4])"

definition hadd_epi32 :: "vec \<Rightarrow> vec \<Rightarrow> vec" where
  "hadd_epi32 a b = concat (map (\<lambda>l. concat (map (le_bytes 4)
     [lane32 a (4 * l) + lane32 a (4 * l + 1), lane32 a (4 * l + 2) + lane32 a (4 * l + 3),
      lane32 b (4 * l) + lane32 b (4 * l + 1), lane32 b (4 * l + 2) + lane32 b (4 * l + 3)])) [0..<2])"

definition unpacklo_epi8 :: "vec \<Rightarrow> vec \<Rightarrow> vec" where
  "unpacklo_epi8 a b = map (\<lambda>i. let j = 16 * (i div 16) + (i mod 16) div 2 in if even i then a ! j else b ! j) [0..<length a]"

definition unpackhi_epi8 :: "vec \<Rightarrow> vec \<Rightarrow> vec" where
  "unpackhi_epi8 a b = map (\<lambda>i. let j = 16 * (i div 16) + 8 + (i mod 16) div 2 in if even i then a ! j else b ! j) [0..<length a]"

definition blendv_epi8 :: "vec \<Rightarrow> vec \<Rightarrow> vec \<Rightarrow> vec" where
  "blendv_epi8 a b m = map (\<lambda>i. if bit (m ! i) 7 then b ! i else a ! i) [0..<length a]"

definition shuffle_epi8 :: "vec \<Rightarrow> vec \<Rightarrow> vec" where
  "shuffle_epi8 v m = map (\<lambda>i. if bit (m ! i) 7 then 0 else v ! (16 * (i div 16) + unat (m ! i AND 15))) [0..<length v]"

text \<open>castsi128_si256 leaves the upper half unspecified (\<open>up\<close>).\<close>

definition castsi128_si256 :: "vec \<Rightarrow> vec \<Rightarrow> vec" where
  "castsi128_si256 up x = x @ up"

definition inserti128_si256_1 :: "vec \<Rightarrow> vec \<Rightarrow> vec" where
  "inserti128_si256_1 a b = take 16 a @ b"

definition permute4x64_8 :: "vec \<Rightarrow> vec" where
  "permute4x64_8 a = take 8 a @ take 8 (drop 16 a) @ take 8 a @ take 8 a"

text \<open>Stores and inserts at a byte offset.\<close>

definition put_at :: "nat \<Rightarrow> byte list \<Rightarrow> byte list \<Rightarrow> byte list" where
  "put_at i d m = take i m @ d @ drop (i + length d) m"

subsection \<open>The conversions\<close>

definition m128itos :: "vec \<Rightarrow> vec \<Rightarrow> byte list \<Rightarrow> byte list" where
  "m128itos up x mem =
     (let mask = set1_epi8 0x0F; add = set1_epi8 0x06; alpha_mask = set1_epi8 0x10; alpha_offset = set1_epi8 0x57;
          a = castsi128_si256 up x;
          as = srli_epi64 a 4;
          lo = unpacklo_epi8 as a;
          hi = take 16 (unpackhi_epi8 as a);
          c = inserti128_si256_1 lo hi;
          d = vand c mask;
          alpha = slli_epi64 (vand (vadd8 d add) alpha_mask) 3;
          offset = blendv_epi8 (slli_epi64 add 3) alpha_offset alpha;
          res = vadd8 d offset;
          dash_shuffle = set_epi32 [0x0b0a0908, 0x07060504, 0x80030201, 0x00808080,
                                    0x0d0c800b, 0x0a090880, 0x07060504, 0x03020100];
          dash = set_epi64x [0x0000000000000000, 0x2d000000002d0000, 0x00002d000000002d, 0x0000000000000000];
          resd = vor (shuffle_epi8 res dash_shuffle) dash
      in put_at 32 (take 4 (drop 28 res)) (put_at 16 (take 2 (drop 14 res)) (put_at 0 resd mem)))"

definition stom128i :: "byte list \<Rightarrow> vec" where
  "stom128i mem =
     (let dash_shuffle = set_epi32 [0x80808080, 0x0f0e0d0c, 0x0b0a0908, 0x06050403,
                                    0x80800f0e, 0x0c0b0a09, 0x07060504, 0x03020100];
          x = shuffle_epi8 (take 32 mem) dash_shuffle;
          x1 = put_at 14 (take 2 (drop 16 mem)) x;
          x2 = put_at 28 (take 4 (drop 32 mem)) x1;
          sub = set1_epi8 0x2F; mask = set1_epi8 0x20; alpha_offset = set1_epi8 0x28; digits_offset = set1_epi8 0x01;
          unweave = set_epi32 [0x0f0d0b09, 0x0e0c0a08, 0x07050301, 0x06040200,
                               0x0f0d0b09, 0x0e0c0a08, 0x07050301, 0x06040200];
          shift = rev [0, 4, 0, 4, 0, 4, 0, 4];
          a = vsub8 x2 sub;
          alpha = slli_epi64 (vand a mask) 2;
          sub_mask = blendv_epi8 digits_offset alpha_offset alpha;
          a1 = vsub8 a sub_mask;
          a2 = shuffle_epi8 a1 unweave;
          a3 = sllv_epi32 a2 shift;
          a4 = hadd_epi32 a3 (replicate 32 0)
      in take 16 (permute4x64_8 a4))"

subsection \<open>The class UUID\<close>

type_synonym uuid = vec

text \<open>Constructors: from a register, two integers, bytes, a byte string.\<close>

definition uuid_of_m128i :: "vec \<Rightarrow> uuid" where
  "uuid_of_m128i x = x"

definition uuid_of_u64 :: "u64 \<Rightarrow> u64 \<Rightarrow> uuid" where
  "uuid_of_u64 x y = set_epi64x [x, y]"

definition uuid_of_bytes :: "byte list \<Rightarrow> uuid res" where
  "uuid_of_bytes bytes = (if length bytes < 16 then Inl OutOfBounds else Inr (take 16 bytes))"

definition uuid_copy :: "uuid \<Rightarrow> uuid" where
  "uuid_copy other = other"

definition fromStr :: "byte list \<Rightarrow> uuid" where
  "fromStr raw = stom128i raw"

definition uuid_eq :: "uuid \<Rightarrow> uuid \<Rightarrow> bool" where
  "uuid_eq lhs rhs = (let neq = vxor lhs rhs in list_all (\<lambda>b. b = 0) (vand neq neq))"

definition uuid_less :: "uuid \<Rightarrow> uuid \<Rightarrow> bool" where
  "uuid_less lhs rhs =
     (let x = (le_word (take 8 lhs) :: u64); x1 = (le_word (drop 8 lhs) :: u64);
          y = (le_word (take 8 rhs) :: u64); y1 = (le_word (drop 8 rhs) :: u64)
      in x < y \<or> (x = y \<and> x1 < y1))"

definition uuid_bytes :: "uuid \<Rightarrow> byte list" where
  "uuid_bytes u = u"

text \<open>str resizes the string to 36 characters and writes into it.\<close>

definition uuid_str :: "vec \<Rightarrow> uuid \<Rightarrow> byte list" where
  "uuid_str up u = m128itos up u (replicate 36 0)"

definition uuid_hash :: "uuid \<Rightarrow> u64" where
  "uuid_hash u = (let a = le_word (take 8 u); b = le_word (take 8 (drop 8 u))
     in a XOR (b + 0x9e3779b9 + push_bit 6 a + drop_bit 2 a))"

text \<open>UUIDGenerator::getUUID on the two random numbers it draws (high, low).\<close>

definition getUUID :: "u64 \<Rightarrow> u64 \<Rightarrow> uuid" where
  "getUUID r1 r0 =
     (let and_mask = set_epi64x [0xFFFFFFFFFFFFFF3F, 0xFF0FFFFFFFFFFFFF];
          or_mask = set_epi64x [0x0000000000000080, 0x0040000000000000];
          n = set_epi64x [r1, r0];
          uuid = vor (vand n and_mask) or_mask
      in uuid_of_m128i uuid)"

text \<open>CreateGUID: the flag is CASE_TYPE_UPPER.\<close>

definition toupper :: "byte \<Rightarrow> byte" where
  "toupper c = (if 97 \<le> c \<and> c \<le> 122 then c - 32 else c)"

definition CreateGUID :: "vec \<Rightarrow> bool \<Rightarrow> u64 \<Rightarrow> u64 \<Rightarrow> xstring" where
  "CreateGUID up isUpper r1 r0 =
     (let sUUID = uuid_str up (getUUID r1 r0);
          sUUID' = (if isUpper then map toupper sUUID else sUUID)
      in map scast sUUID')"

subsection \<open>endianness.h\<close>

definition swap_u16 :: "16 word \<Rightarrow> 16 word" where
  "swap_u16 value = drop_bit 8 (value AND 0xFF00) OR push_bit 8 (value AND 0x00FF)"

definition swap_u32 :: "u32 \<Rightarrow> u32" where
  "swap_u32 value = drop_bit 24 (value AND 0xFF000000) OR drop_bit 8 (value AND 0x00FF0000)
     OR push_bit 8 (value AND 0x0000FF00) OR push_bit 24 (value AND 0x000000FF)"

definition swap_u64 :: "u64 \<Rightarrow> u64" where
  "swap_u64 value = drop_bit 56 (value AND 0xFF00000000000000) OR drop_bit 40 (value AND 0x00FF000000000000)
     OR drop_bit 24 (value AND 0x0000FF0000000000) OR drop_bit 8 (value AND 0x000000FF00000000)
     OR push_bit 8 (value AND 0x00000000FF000000) OR push_bit 24 (value AND 0x0000000000FF0000)
     OR push_bit 40 (value AND 0x000000000000FF00) OR push_bit 56 (value AND 0x00000000000000FF)"

definition swap_u128 :: "vec \<Rightarrow> vec" where
  "swap_u128 value = shuffle_epi8 value (set_epi64x [0x0001020304050607, 0x08090a0b0c0d0e0f])"

definition swap_u256 :: "vec \<Rightarrow> vec" where
  "swap_u256 value = shuffle_epi8 value
     (set_epi64x [0x0001020304050607, 0x08090a0b0c0d0e0f, 0x0001020304050607, 0x08090a0b0c0d0e0f])"

subsection \<open>Bits and lanes\<close>

lemma bit_le_word:
  "bit (le_word bs :: 'a::len word) n
     \<longleftrightarrow> n < LENGTH('a) \<and> n div 8 < length bs \<and> bit (bs ! (n div 8)) (n mod 8)"
proof (induction bs arbitrary: n)
  case (Cons b bs)
  show ?case
  proof (cases "n < 8")
    case True
    then show ?thesis by (auto simp: bit_simps)
  next
    case False
    then have n: "n div 8 = Suc ((n - 8) div 8)" "n mod 8 = (n - 8) mod 8"
      by (simp_all add: le_div_geq le_mod_geq)
    have "\<not> bit b n" using False bit_imp_le_length [of b n] by auto
    with False show ?thesis
      by (auto simp: bit_simps Cons.IH n nth_Cons_Suc possible_bit_def)
  qed
qed simp

lemma bit_le_byte: "bit (le_byte i w) n \<longleftrightarrow> n < 8 \<and> bit w (8 * i + n)"
  by (auto simp: le_byte_def bit_simps)

lemma le_word_of_bytes: "LENGTH('a) \<le> 8 * k \<Longrightarrow> le_word (le_bytes k w) = (w :: 'a::len word)"
  by (rule bit_word_eqI) (auto simp: bit_le_word le_bytes_def bit_le_byte)

lemma le_bytes_of_word: "8 * length bs \<le> LENGTH('a::len) \<Longrightarrow> le_bytes (length bs) (le_word bs :: 'a word) = bs"
  by (intro nth_equalityI bit_word_eqI) (auto simp: le_bytes_def bit_le_byte bit_le_word)

lemma div_mod_8: "m < 8 \<Longrightarrow> (8 * q + m) div 8 = q \<and> (8 * q + m) mod 8 = (m :: nat)"
  by simp

lemma lanes64_bit:
  assumes "i < length v" and "n < 8" and "8 dvd length v"
  shows "bit (lanes64 f v ! i) n = bit (f (le_word (take 8 (drop (8 * (i div 8)) v)))) (8 * (i mod 8) + n)"
  using assms by (simp add: lanes64_def bit_le_byte)

lemma lane_bit:
  assumes "i < length v" and "8 dvd length v" and "m < 64"
  shows "bit (le_word (take 8 (drop (8 * (i div 8)) v)) :: u64) m = bit (v ! (8 * (i div 8) + m div 8)) (m mod 8)"
proof -
  obtain k where k: "length v = 8 * k" using assms(2) by auto
  have "i div 8 < k" using assms(1) k by (simp add: less_mult_imp_div_less mult.commute)
  then have "8 * (i div 8) + 8 \<le> length v" using k by simp
  moreover have "m div 8 < 8" using assms(3) by (simp add: less_mult_imp_div_less)
  ultimately show ?thesis using assms(3) by (simp add: bit_le_word)
qed

lemma lane_bit_at:
  assumes "i < length v" and "8 dvd length v" and "m < 8"
  shows "bit (le_word (take 8 (drop (8 * (i div 8)) v)) :: u64) (8 * (i mod 8) + m) = bit (v ! i) m"
proof -
  have e: "(8 * (i mod 8) + m) div 8 = i mod 8" "(8 * (i mod 8) + m) mod 8 = m"
    using div_mod_8 [OF assms(3), of "i mod 8"] by auto
  have "8 * (i mod 8) + m < 64" using assms(3) mod_less_divisor [of 8 i] by linarith
  then have "bit (le_word (take 8 (drop (8 * (i div 8)) v)) :: u64) (8 * (i mod 8) + m)
      = bit (v ! (8 * (i div 8) + i mod 8)) m"
    using lane_bit [OF assms(1,2), of "8 * (i mod 8) + m"] unfolding e by blast
  then show ?thesis by simp
qed

lemma srli_nibble:
  assumes "i < length v" and "8 dvd length v"
  shows "(srli_epi64 v 4 ! i) AND 15 = drop_bit 4 (v ! i)"
proof -
  have m15: "(15 :: byte) = mask 4" by (simp add: mask_eq_exp_minus_1)
  have "bit (srli_epi64 v 4 ! i) n = bit (v ! i) (4 + n)" if "n < 4" for n
  proof -
    have "bit (srli_epi64 v 4 ! i) n = bit (le_word (take 8 (drop (8 * (i div 8)) v)) :: u64) (8 * (i mod 8) + (4 + n))"
      using that assms by (simp add: srli_epi64_def lanes64_bit bit_simps ac_simps)
    then show ?thesis using lane_bit_at [OF assms, of "4 + n"] that by simp
  qed
  moreover have "\<not> bit (v ! i) (4 + n)" if "\<not> n < 4" for n
    using that bit_imp_le_length [of "v ! i" "4 + n"] by auto
  ultimately show ?thesis
    by (intro bit_word_eqI) (auto simp: bit_simps m15)
qed

lemma slli_top_bit:
  assumes "i < length v" and "8 dvd length v" and "k < 8"
  shows "bit (slli_epi64 v k ! i) 7 = bit (v ! i) (7 - k)"
proof -
  have "8 * (i mod 8) + 7 < 64" using mod_less_divisor [of 8 i] by linarith
  moreover have "8 * (i mod 8) + 7 - k = 8 * (i mod 8) + (7 - k)" using assms(3) by simp
  ultimately have "bit (slli_epi64 v k ! i) 7 = bit (le_word (take 8 (drop (8 * (i div 8)) v)) :: u64) (8 * (i mod 8) + (7 - k))"
    using assms by (simp add: slli_epi64_def lanes64_bit bit_simps)
  then show ?thesis using lane_bit_at [OF assms(1,2), of "7 - k"] by simp
qed
subsection \<open>The text form\<close>

text \<open>The reference: two lower case hexadecimal digits for each byte, grouped 8-4-4-4-12.\<close>

definition hexc :: "byte \<Rightarrow> byte" where
  "hexc d = (if d < 10 then d + 48 else d + 87)"

definition nibbles :: "byte list \<Rightarrow> byte list" where
  "nibbles x = map (\<lambda>i. if even i then drop_bit 4 (x ! (i div 2)) else x ! (i div 2) AND 15) [0..<2 * length x]"

definition dashed :: "byte list \<Rightarrow> byte list" where
  "dashed h = take 8 h @ [45] @ take 4 (drop 8 h) @ [45] @ take 4 (drop 12 h) @ [45]
     @ take 4 (drop 16 h) @ [45] @ take 12 (drop 20 h)"

definition uuid_text :: "byte list \<Rightarrow> byte list" where
  "uuid_text x = dashed (map hexc (nibbles x))"

lemma nibble_cases: "(b :: byte) < 16 \<Longrightarrow> b \<in> {0, 1, 2, 3, 4, 5, 6, 7, 8, 9, 10, 11, 12, 13, 14, 15}"
proof -
  assume "b < 16"
  then have "unat b < 16" by (simp add: word_less_nat_alt)
  then have "unat b \<in> {..<16}" by simp
  then have "unat b \<in> {0, 1, 2, 3, 4, 5, 6, 7, 8, 9, 10, 11, 12, 13, 14, 15}"
    by (simp add: lessThan_nat_numeral lessThan_Suc) argo
  then have "word_of_nat (unat b) \<in> (word_of_nat ` {0, 1, 2, 3, 4, 5, 6, 7, 8, 9, 10, 11, 12, 13, 14, 15} :: byte set)"
    by (rule imageI)
  then show ?thesis by simp
qed

lemma nibbles_less: "b \<in> set (nibbles x) \<Longrightarrow> b < 16"
proof -
  have "drop_bit 4 (c :: byte) < 16" for c
    using unsigned_less [where ?'a = nat and w = c]
    by (simp add: word_less_nat_alt drop_bit_eq_div unat_div less_mult_imp_div_less)
  moreover have "(c :: byte) AND 15 < 16" for c
  proof -
    have "c AND 15 \<le> 15" by (rule word_and_le1)
    then show ?thesis by (rule order_le_less_trans) simp
  qed
  ultimately show "b \<in> set (nibbles x) \<Longrightarrow> b < 16" by (auto simp: nibbles_def)
qed

lemma replicate_8: "replicate 8 x = [x, x, x, x, x, x, x, x]"
  by (simp add: numeral_eq_Suc)

lemma le_word_six: "le_word (replicate 8 6) = (0x0606060606060606 :: u64)"
  by (simp add: replicate_8)

lemma le_byte_30: "m < 8 \<Longrightarrow> le_byte m (0x3030303030303030 :: u64) = 48"
proof -
  assume "m < 8"
  then consider "m = 0" | "m = 1" | "m = 2" | "m = 3" | "m = 4" | "m = 5" | "m = 6" | "m = 7" by linarith
  then show ?thesis by cases (simp_all add: le_byte_def)
qed

lemma slli_six: "slli_epi64 (set1_epi8 6) 3 = replicate 32 48"
proof (rule nth_equalityI)
  fix i assume "i < length (slli_epi64 (set1_epi8 6) 3)"
  then have i: "i < 32" by (simp add: slli_epi64_def lanes64_def set1_epi8_def)
  then have "8 * (i div 8) + 8 \<le> 32" by (simp add: div_less_iff_less_mult less_mult_imp_div_less)
  then have "take 8 (drop (8 * (i div 8)) (set1_epi8 6)) = replicate 8 6"
    by (simp add: set1_epi8_def min_def)
  then show "slli_epi64 (set1_epi8 6) 3 ! i = replicate 32 48 ! i"
    using i by (simp add: slli_epi64_def lanes64_def set1_epi8_def le_word_six le_byte_30)
qed (simp add: slli_epi64_def lanes64_def set1_epi8_def)

lemma hex_byte:
  assumes "d < 16"
  shows "d + (if bit ((d + 6) AND 16) 4 then 87 else 48) = hexc d"
  using nibble_cases [OF assms] by (auto simp: hexc_def)

lemma hex_vec:
  assumes "length d = 32" and "\<forall>b \<in> set d. b < 16"
  shows "vadd8 d (blendv_epi8 (slli_epi64 (set1_epi8 6) 3) (set1_epi8 0x57)
           (slli_epi64 (vand (vadd8 d (set1_epi8 6)) (set1_epi8 0x10)) 3)) = map hexc d"
proof (rule nth_equalityI)
  let ?al = "vand (vadd8 d (set1_epi8 6)) (set1_epi8 0x10)"
  have al: "length ?al = 32" using assms(1) by (simp add: vand_def vadd8_def set1_epi8_def)
  show "length (vadd8 d (blendv_epi8 (slli_epi64 (set1_epi8 6) 3) (set1_epi8 0x57) (slli_epi64 ?al 3))) = length (map hexc d)"
    using assms(1) by (simp add: vadd8_def blendv_epi8_def slli_six)
  fix i assume "i < length (vadd8 d (blendv_epi8 (slli_epi64 (set1_epi8 6) 3) (set1_epi8 0x57) (slli_epi64 ?al 3)))"
  then have i: "i < 32" using assms(1) by (simp add: vadd8_def blendv_epi8_def slli_six)
  then have "?al ! i = (d ! i + 6) AND 16" using assms(1) by (simp add: vand_def vadd8_def set1_epi8_def)
  then have top: "bit (slli_epi64 ?al 3 ! i) 7 = bit ((d ! i + 6) AND 16) 4"
    using slli_top_bit [of i ?al 3] i al by simp
  have "d ! i < 16" using assms i by simp
  then show "vadd8 d (blendv_epi8 (slli_epi64 (set1_epi8 6) 3) (set1_epi8 0x57) (slli_epi64 ?al 3)) ! i = map hexc d ! i"
    using i assms(1) hex_byte [of "d ! i"] top
    by (simp add: vadd8_def blendv_epi8_def slli_six [unfolded set1_epi8_def] set1_epi8_def split: if_splits)
qed

lemma split_vec:
  assumes "length x = 16" and "length up = 16"
  shows "vand (inserti128_si256_1 (unpacklo_epi8 (srli_epi64 (x @ up) 4) (x @ up))
           (take 16 (unpackhi_epi8 (srli_epi64 (x @ up) 4) (x @ up)))) (set1_epi8 0x0F) = nibbles x"
    (is "vand ?c _ = _")
proof (rule nth_equalityI)
  have ls: "length (srli_epi64 (x @ up) 4) = 32" using assms by (simp add: srli_epi64_def lanes64_def)
  have lc: "length ?c = 32" using ls by (simp add: inserti128_si256_1_def unpacklo_epi8_def unpackhi_epi8_def)
  show "length (vand ?c (set1_epi8 0x0F)) = length (nibbles x)"
    using lc assms by (simp add: vand_def set1_epi8_def nibbles_def)
  fix i assume "i < length (vand ?c (set1_epi8 0x0F))"
  then have i: "i < 32" using lc by (simp add: vand_def set1_epi8_def)
  then have j: "i div 2 < 16" by (simp add: less_mult_imp_div_less)
  have ci: "?c ! i = (if even i then srli_epi64 (x @ up) 4 ! (i div 2) else (x @ up) ! (i div 2))"
  proof (cases "i < 16")
    case True
    then show ?thesis using ls by (simp add: inserti128_si256_1_def unpacklo_epi8_def unpackhi_epi8_def nth_append Let_def)
  next
    case False
    then obtain k where k: "i = 16 + k" "k < 16" using i by (auto simp: le_iff_add not_less)
    then have "i div 2 = 8 + k div 2" by simp
    with k show ?thesis
      using ls by (simp add: inserti128_si256_1_def unpacklo_epi8_def unpackhi_epi8_def nth_append [of "take 16 _"] Let_def)
  qed
  have "srli_epi64 (x @ up) 4 ! (i div 2) AND 15 = drop_bit 4 (x ! (i div 2))"
    using srli_nibble [of "i div 2" "x @ up"] j assms by (simp add: nth_append)
  then show "vand ?c (set1_epi8 0x0F) ! i = nibbles x ! i"
    using i j lc assms ci by (simp add: vand_def set1_epi8_def nibbles_def nth_append)
qed

lemma dash_shuffle_bytes:
  "set_epi32 [0x0b0a0908, 0x07060504, 0x80030201, 0x00808080, 0x0d0c800b, 0x0a090880, 0x07060504, 0x03020100]
    = [0, 1, 2, 3, 4, 5, 6, 7, 128, 8, 9, 10, 11, 128, 12, 13, 128, 128, 128, 0, 1, 2, 3, 128, 4, 5, 6, 7, 8, 9, 10, 11]"
  by (simp add: set_epi32_def le_bytes_def le_byte_def upt_rec)

lemma dash_bytes:
  "set_epi64x [0x0000000000000000, 0x2d000000002d0000, 0x00002d000000002d, 0x0000000000000000]
    = [0, 0, 0, 0, 0, 0, 0, 0, 45, 0, 0, 0, 0, 45, 0, 0, 0, 0, 45, 0, 0, 0, 0, 45, 0, 0, 0, 0, 0, 0, 0, 0]"
  by (simp add: set_epi64x_def le_bytes_def le_byte_def upt_rec)

lemma upt_32: "[0..<32] = [0, 1, 2, 3, 4, 5, 6, 7, 8, 9, 10, 11, 12, 13, 14, 15,
    16, 17, 18, 19, 20, 21, 22, 23, 24, 25, 26, 27, 28, 29, 30, 31]"
  by (simp add: upt_rec)

lemma list_32: "length h = 32 \<Longrightarrow> h = map (nth h) [0, 1, 2, 3, 4, 5, 6, 7, 8, 9, 10, 11, 12, 13, 14, 15,
    16, 17, 18, 19, 20, 21, 22, 23, 24, 25, 26, 27, 28, 29, 30, 31]"
  using map_nth [of h] upt_32 by simp

lemma dash_vec:
  assumes "length h = 32" and "length mem = 36"
  shows "put_at 32 (take 4 (drop 28 h)) (put_at 16 (take 2 (drop 14 h))
     (put_at 0 (vor (shuffle_epi8 h (set_epi32 [0x0b0a0908, 0x07060504, 0x80030201, 0x00808080,
        0x0d0c800b, 0x0a090880, 0x07060504, 0x03020100]))
       (set_epi64x [0x0000000000000000, 0x2d000000002d0000, 0x00002d000000002d, 0x0000000000000000])) mem)) = dashed h"
proof -
  obtain h0 h1 h2 h3 h4 h5 h6 h7 h8 h9 h10 h11 h12 h13 h14 h15 h16 h17 h18 h19 h20 h21 h22 h23 h24 h25 h26
    h27 h28 h29 h30 h31 where h: "h = [h0, h1, h2, h3, h4, h5, h6, h7, h8, h9, h10, h11, h12, h13, h14, h15,
      h16, h17, h18, h19, h20, h21, h22, h23, h24, h25, h26, h27, h28, h29, h30, h31]"
    using list_32 [OF assms(1)] unfolding list.map by (rule that)
  have "shuffle_epi8 h [0, 1, 2, 3, 4, 5, 6, 7, 128, 8, 9, 10, 11, 128, 12, 13, 128, 128, 128, 0, 1, 2, 3, 128, 4, 5, 6, 7, 8, 9, 10, 11]
     = [h0, h1, h2, h3, h4, h5, h6, h7, 0, h8, h9, h10, h11, 0, h12, h13, 0, 0, 0, h16, h17, h18, h19, 0, h20, h21, h22, h23, h24, h25, h26, h27]"
    unfolding h by (simp add: shuffle_epi8_def upt_32)
  then show ?thesis
    using assms(2) by (simp add: dash_shuffle_bytes dash_bytes vor_def put_at_def dashed_def h)
qed

lemma m128itos_text:
  assumes "length x = 16" and "length up = 16" and "length mem = 36"
  shows "m128itos up x mem = dashed (map hexc (nibbles x))"
proof -
  have l: "length (nibbles x) = 32" using assms(1) by (simp add: nibbles_def)
  have "\<forall>b \<in> set (nibbles x). b < 16" by (simp add: nibbles_less)
  note hex_vec [OF l this] split_vec [OF assms(1,2)]
  then show ?thesis
    unfolding m128itos_def Let_def castsi128_si256_def
    by (simp only: dash_vec [OF _ assms(3)] length_map l)
qed

lemma undash_shuffle_bytes:
  "set_epi32 [0x80808080, 0x0f0e0d0c, 0x0b0a0908, 0x06050403, 0x80800f0e, 0x0c0b0a09, 0x07060504, 0x03020100]
    = [0, 1, 2, 3, 4, 5, 6, 7, 9, 10, 11, 12, 14, 15, 128, 128, 3, 4, 5, 6, 8, 9, 10, 11, 12, 13, 14, 15, 128, 128, 128, 128]"
  by (simp add: set_epi32_def le_bytes_def le_byte_def upt_rec)

lemma unweave_bytes:
  "set_epi32 [0x0f0d0b09, 0x0e0c0a08, 0x07050301, 0x06040200, 0x0f0d0b09, 0x0e0c0a08, 0x07050301, 0x06040200]
    = [0, 2, 4, 6, 1, 3, 5, 7, 8, 10, 12, 14, 9, 11, 13, 15, 0, 2, 4, 6, 1, 3, 5, 7, 8, 10, 12, 14, 9, 11, 13, 15]"
  by (simp add: set_epi32_def le_bytes_def le_byte_def upt_rec)

lemma undash_vec:
  assumes "length h = 32"
  shows "put_at 28 (take 4 (drop 32 (dashed h))) (put_at 14 (take 2 (drop 16 (dashed h)))
     (shuffle_epi8 (take 32 (dashed h)) (set_epi32 [0x80808080, 0x0f0e0d0c, 0x0b0a0908, 0x06050403,
        0x80800f0e, 0x0c0b0a09, 0x07060504, 0x03020100]))) = h"
proof -
  obtain h0 h1 h2 h3 h4 h5 h6 h7 h8 h9 h10 h11 h12 h13 h14 h15 h16 h17 h18 h19 h20 h21 h22 h23 h24 h25 h26
    h27 h28 h29 h30 h31 where h: "h = [h0, h1, h2, h3, h4, h5, h6, h7, h8, h9, h10, h11, h12, h13, h14, h15,
      h16, h17, h18, h19, h20, h21, h22, h23, h24, h25, h26, h27, h28, h29, h30, h31]"
    using list_32 [OF assms(1)] unfolding list.map by (rule that)
  show ?thesis
    by (simp add: undash_shuffle_bytes put_at_def dashed_def h shuffle_epi8_def upt_32)
qed

lemma unhex_byte:
  assumes "d < 16"
  shows "(hexc d - 47) - (if bit ((hexc d - 47) AND 32) 5 then 40 else 1) = d"
  using nibble_cases [OF assms] by (auto simp: hexc_def)

lemma unhex_vec:
  assumes "length d = 32" and "\<forall>b \<in> set d. b < 16"
  shows "vsub8 (vsub8 (map hexc d) (set1_epi8 0x2F)) (blendv_epi8 (set1_epi8 0x01) (set1_epi8 0x28)
           (slli_epi64 (vand (vsub8 (map hexc d) (set1_epi8 0x2F)) (set1_epi8 0x20)) 2)) = d" (is "?l = d")
proof (rule nth_equalityI)
  let ?a = "vsub8 (map hexc d) (set1_epi8 0x2F)" and ?al = "vand (vsub8 (map hexc d) (set1_epi8 0x2F)) (set1_epi8 0x20)"
  have al: "length ?al = 32" using assms(1) by (simp add: vand_def vsub8_def set1_epi8_def)
  show "length ?l = length d" using assms(1) by (simp add: vsub8_def blendv_epi8_def set1_epi8_def)
  fix i assume "i < length ?l"
  then have i: "i < 32" using assms(1) by (simp add: vsub8_def blendv_epi8_def set1_epi8_def)
  then have "?al ! i = (hexc (d ! i) - 47) AND 32" using assms(1) by (simp add: vand_def vsub8_def set1_epi8_def)
  then have top: "bit (slli_epi64 ?al 2 ! i) 7 = bit ((hexc (d ! i) - 47) AND 32) 5"
    using slli_top_bit [of i ?al 2] i al by simp
  have "d ! i < 16" using assms i by simp
  from unhex_byte [OF this] show "?l ! i = d ! i"
    using i assms(1) top
    by (simp add: vsub8_def blendv_epi8_def set1_epi8_def split: if_splits)
qed

lemma lane32_concat: "j < length ws \<Longrightarrow> lane32 (concat (map (le_bytes 4) ws)) j = ws ! j"
proof (induction ws arbitrary: j)
  case (Cons w ws)
  have l: "length (le_bytes 4 w) = 4" by (simp add: le_bytes_def)
  show ?case
  proof (cases j)
    case 0
    then show ?thesis using l by (simp add: lane32_def le_word_of_bytes)
  next
    case (Suc k)
    with Cons.IH [of k] Cons.prems l show ?thesis by (simp add: lane32_def)
  qed
qed simp

lemma le_word_small:
  assumes "\<forall>b \<in> set bs. b < 16"
  shows "bit (le_word bs :: 'a::len word) n \<Longrightarrow> n mod 8 < 4"
proof (rule ccontr)
  assume b: "bit (le_word bs :: 'a word) n" and "\<not> n mod 8 < 4"
  then have "n div 8 < length bs" "bit (bs ! (n div 8)) (n mod 8)" by (simp_all add: bit_le_word)
  moreover from this have "bs ! (n div 8) < 16" using assms by simp
  then have "bs ! (n div 8) \<in> {0, 1, 2, 3, 4, 5, 6, 7, 8, 9, 10, 11, 12, 13, 14, 15}" by (rule nibble_cases)
  moreover have "n mod 8 < 8" by simp
  then have "n mod 8 \<in> {4, 5, 6, 7}" using \<open>\<not> n mod 8 < 4\<close> by auto
  ultimately show False by auto
qed

lemma mod_8_apart: "4 \<le> n \<Longrightarrow> n mod 8 < 4 \<Longrightarrow> (n - 4) mod 8 < 4 \<Longrightarrow> False" for n :: nat
proof -
  assume a: "4 \<le> n" "n mod 8 < 4" "(n - 4) mod 8 < 4"
  define q r where "q = n div 8" and "r = n mod 8"
  have n: "n = 8 * q + r" by (simp add: q_def r_def)
  have r4: "r < 4" using a(2) unfolding r_def .
  have q: "0 < q" using n a(1) r4 by linarith
  then have "n - 4 = 8 * (q - 1) + (r + 4)" unfolding n by (simp add: right_diff_distrib')
  moreover have "r + 4 < 8" using r4 by simp
  ultimately have "(n - 4) mod 8 = r + 4" using div_mod_8 [of "r + 4" "q - 1"] by simp
  with a(3) show False by simp
qed

lemma weave_word:
  assumes "\<forall>b \<in> set [a, b, c, d, e, f, g, h]. b < 16"
  shows "push_bit 4 (le_word [a, b, c, d] :: u32) + le_word [e, f, g, h]
    = le_word [push_bit 4 a OR e, push_bit 4 b OR f, push_bit 4 c OR g, push_bit 4 d OR h]"
proof -
  let ?x = "le_word [a, b, c, d] :: u32" and ?y = "le_word [e, f, g, h] :: u32"
  have "\<not> bit (push_bit 4 ?x) n \<or> \<not> bit ?y n" for n
  proof (rule ccontr)
    assume "\<not> (\<not> bit (push_bit 4 ?x) n \<or> \<not> bit ?y n)"
    then have "4 \<le> n" "bit ?x (n - 4)" "bit ?y n" by (auto simp: bit_push_bit_iff simp del: le_word.simps)
    moreover from this have "n mod 8 < 4" "(n - 4) mod 8 < 4"
      using le_word_small [of "[e, f, g, h]" n] le_word_small [of "[a, b, c, d]" "n - 4"] assms
      by (auto simp del: le_word.simps)
    ultimately show False using mod_8_apart [of n] by blast
  qed
  then have "push_bit 4 ?x + ?y = push_bit 4 ?x OR ?y" by (rule disjunctive_add)
  also have "\<dots> = le_word [push_bit 4 a OR e, push_bit 4 b OR f, push_bit 4 c OR g, push_bit 4 d OR h]"
  proof -
    have u: "ucast (push_bit 4 b) = (push_bit 4 (ucast b) :: u32)" if "b < 16" for b :: byte
      using nibble_cases [OF that] by auto
    show ?thesis using assms
      by (simp add: u push_bit_or unsigned_or_eq or.assoc or.commute or.left_commute)
  qed
  finally show ?thesis .
qed

lemma join_nibbles: "push_bit 4 (drop_bit 4 b) OR (b AND 15) = (b :: byte)"
proof -
  have m15: "(15 :: byte) = mask 4" by (simp add: mask_eq_exp_minus_1)
  show ?thesis unfolding m15 by (rule bit_word_eqI) (auto simp: bit_simps)
qed

lemma list_16: "length x = 16 \<Longrightarrow> x = map (nth x) [0, 1, 2, 3, 4, 5, 6, 7, 8, 9, 10, 11, 12, 13, 14, 15]"
proof -
  assume "length x = 16"
  moreover have "[0..<16] = [0, 1, 2, 3, 4, 5, 6, 7, 8, 9, 10, 11, 12, 13, 14, 15]" by (simp add: upt_rec)
  ultimately show ?thesis using map_nth [of x] by simp
qed

lemma nibbles_append: "nibbles (b # bs) = drop_bit 4 b # (b AND 15) # nibbles bs"
proof -
  have "[0..<2 * length (b # bs)] = 0 # 1 # map (\<lambda>i. i + 2) [0..<2 * length bs]"
  proof -
    have "[0..<2 * length bs + 2] = 0 # 1 # [2..<2 * length bs + 2]"
      by (simp add: upt_conv_Cons numeral_2_eq_2 del: upt_Suc)
    then show ?thesis by (simp only: map_add_upt length_Cons mult_Suc_right add.commute)
  qed
  then show ?thesis by (simp add: nibbles_def comp_def)
qed

lemma nibbles_Nil: "nibbles [] = []"
  by (simp add: nibbles_def)

lemma upt_8: "[0..<8] = [0, 1, 2, 3, 4, 5, 6, 7]"
  by (simp add: upt_rec)

definition joins :: "byte list \<Rightarrow> nat \<Rightarrow> u32" where
  "joins v j = push_bit 4 (lane32 v (2 * j)) + lane32 v (2 * j + 1)"

lemma hadd_sllv:
  assumes "length v = 32"
  shows "take 16 (permute4x64_8 (hadd_epi32 (sllv_epi32 v (rev [0, 4, 0, 4, 0, 4, 0, 4])) (replicate 32 0)))
    = concat (map (le_bytes 4) [joins v 0, joins v 1, joins v 2, joins v 3])"
proof -
  let ?s = "sllv_epi32 v (rev [0, 4, 0, 4, 0, 4, 0, 4])"
  have s: "?s = concat (map (le_bytes 4) [push_bit 4 (lane32 v 0), lane32 v 1, push_bit 4 (lane32 v 2), lane32 v 3,
     push_bit 4 (lane32 v 4), lane32 v 5, push_bit 4 (lane32 v 6), lane32 v 7])"
    using assms by (simp add: sllv_epi32_def upt_8)
  have l: "length (le_bytes 4 w) = 4" for w :: u32 by (simp add: le_bytes_def)
  have ls: "lane32 ?s 0 = push_bit 4 (lane32 v 0)" "lane32 ?s 1 = lane32 v 1"
     "lane32 ?s 2 = push_bit 4 (lane32 v 2)" "lane32 ?s 3 = lane32 v 3"
     "lane32 ?s 4 = push_bit 4 (lane32 v 4)" "lane32 ?s 5 = lane32 v 5"
     "lane32 ?s 6 = push_bit 4 (lane32 v 6)" "lane32 ?s 7 = lane32 v 7"
    unfolding s by (subst lane32_concat; simp)+
  have two: "[0..<2] = [0, 1]" by (simp add: upt_rec)
  show ?thesis
    unfolding hadd_epi32_def two permute4x64_8_def
    by (simp add: ls [simplified] joins_def l flip: numeral_2_eq_2)
qed

lemma unweave_vec:
  "shuffle_epi8 [h0, h1, h2, h3, h4, h5, h6, h7, h8, h9, h10, h11, h12, h13, h14, h15,
      h16, h17, h18, h19, h20, h21, h22, h23, h24, h25, h26, h27, h28, h29, h30, h31]
     (set_epi32 [0x0f0d0b09, 0x0e0c0a08, 0x07050301, 0x06040200, 0x0f0d0b09, 0x0e0c0a08, 0x07050301, 0x06040200])
   = [h0, h2, h4, h6, h1, h3, h5, h7, h8, h10, h12, h14, h9, h11, h13, h15,
      h16, h18, h20, h22, h17, h19, h21, h23, h24, h26, h28, h30, h25, h27, h29, h31]"
  by (simp add: unweave_bytes shuffle_epi8_def upt_32)

lemma lo_nibble: "(b :: byte) AND 15 < 16"
  by (rule nibbles_less [of _ "[b]"]) (simp add: nibbles_append)

lemma hi_nibble: "drop_bit 4 (b :: byte) < 16"
  by (rule nibbles_less [of _ "[b]"]) (simp add: nibbles_append)

lemma weave_bytes:
  "push_bit 4 (le_word [drop_bit 4 a, drop_bit 4 b, drop_bit 4 c, drop_bit 4 d] :: u32)
     + le_word [a AND 15, b AND 15, c AND 15, d AND 15] = le_word [a, b, c, d]"
  by (subst weave_word) (simp_all add: lo_nibble hi_nibble join_nibbles del: le_word.simps)

lemma joins_nibbles:
  assumes "length x = 16"
  shows "concat (map (le_bytes 4) [joins (shuffle_epi8 (nibbles x) (set_epi32 [0x0f0d0b09, 0x0e0c0a08, 0x07050301,
      0x06040200, 0x0f0d0b09, 0x0e0c0a08, 0x07050301, 0x06040200])) j. j \<leftarrow> [0, 1, 2, 3]]) = x"
proof -
  obtain x0 x1 x2 x3 x4 x5 x6 x7 x8 x9 x10 x11 x12 x13 x14 x15 where x:
    "x = [x0, x1, x2, x3, x4, x5, x6, x7, x8, x9, x10, x11, x12, x13, x14, x15]"
    using list_16 [OF assms] unfolding list.map by (rule that)
  have b: "le_bytes 4 (le_word [a, b, c, d] :: u32) = [a, b, c, d]" for a b c d
    using le_bytes_of_word [of "[a, b, c, d]", where 'a = 32] by (simp add: numeral_eq_Suc del: le_word.simps)
  show ?thesis
    unfolding x nibbles_append nibbles_Nil unweave_vec
    by (simp add: joins_def lane32_def weave_bytes b del: le_word.simps)
qed

lemma stom128i_dashed:
  assumes "length x = 16"
  shows "stom128i (dashed (map hexc (nibbles x))) = x"
proof -
  have l: "length (nibbles x) = 32" using assms by (simp add: nibbles_def)
  have b: "\<forall>b \<in> set (nibbles x). b < 16" by (simp add: nibbles_less)
  have ls: "length (shuffle_epi8 (nibbles x) m) = 32" for m using l by (simp add: shuffle_epi8_def)
  show ?thesis
    using joins_nibbles [OF assms]
    unfolding stom128i_def Let_def
    by (simp only: undash_vec length_map l unhex_vec [OF l b] hadd_sllv [OF ls]) simp
qed
subsection \<open>Generated identifiers\<close>

lemma length_set_epi64x [simp]: "length (set_epi64x [a, b]) = 16"
  by (simp add: set_epi64x_def le_bytes_def)

lemma getUUID_byte:
  assumes "i < 16"
  shows "getUUID r1 r0 ! i = (le_bytes 8 r0 @ le_bytes 8 r1) ! i
      AND [255, 255, 255, 255, 255, 255, 15, 255, 63, 255, 255, 255, 255, 255, 255, 255] ! i
      OR [0, 0, 0, 0, 0, 0, 64, 0, 128, 0, 0, 0, 0, 0, 0, 0] ! i"
proof -
  have "set_epi64x [0xFFFFFFFFFFFFFF3F, 0xFF0FFFFFFFFFFFFF]
      = [255, 255, 255, 255, 255, 255, 15, 255, 63, 255, 255, 255, 255, 255, 255, 255]"
    "set_epi64x [0x0000000000000080, 0x0040000000000000] = [0, 0, 0, 0, 0, 0, 64, 0, 128, 0, 0, 0, 0, 0, 0, 0]"
    by (simp_all add: set_epi64x_def le_bytes_def le_byte_def upt_rec)
  moreover have "set_epi64x [r1, r0] = le_bytes 8 r0 @ le_bytes 8 r1" by (simp add: set_epi64x_def)
  ultimately show ?thesis
    using assms by (simp add: getUUID_def Let_def uuid_of_m128i_def vor_def vand_def le_bytes_def)
qed

lemma length_getUUID [simp]: "length (getUUID r1 r0) = 16"
  by (simp add: getUUID_def Let_def uuid_of_m128i_def vor_def vand_def)

lemma version_digit: "drop_bit 4 ((b AND 15) OR 64) = (4 :: byte)"
  by (simp add: drop_bit_and drop_bit_or)

lemma variant_digit: "drop_bit 4 ((b AND 63) OR 128) \<in> {8, 9, 10, 11 :: byte}"
  using nibble_cases [OF hi_nibble [of b]] by (auto simp: drop_bit_and drop_bit_or)

lemma variant_hex: "v \<in> {8, 9, 10, 11 :: byte} \<Longrightarrow> hexc v \<in> {56, 57, 97, 98}"
  by (auto simp: hexc_def)

lemma keep_low: "((b AND 15) OR 64) AND 15 = b AND (15 :: byte)" "((b AND 63) OR 128) AND 63 = b AND (63 :: byte)"
  by (simp_all add: bit.conj_disj_distrib2 and.assoc)

lemma getUUID_other:
  "i < 16 \<Longrightarrow> i \<noteq> 6 \<Longrightarrow> i \<noteq> 8 \<Longrightarrow> getUUID r1 r0 ! i = (le_bytes 8 r0 @ le_bytes 8 r1) ! i"
proof -
  assume i: "i < 16" "i \<noteq> 6" "i \<noteq> 8"
  have m: "(255 :: byte) = mask 8" by (simp add: mask_eq_exp_minus_1)
  have ff: "b AND 255 = b" for b :: byte unfolding m by (rule bit_word_eqI) (auto simp: bit_simps)
  have "i \<in> {..<16}" using i(1) by simp
  then have "i \<in> {0, 1, 2, 3, 4, 5, 6, 7, 8, 9, 10, 11, 12, 13, 14, 15}"
    by (simp add: lessThan_nat_numeral lessThan_Suc) argo
  with i(2,3) show ?thesis by (auto simp: getUUID_byte ff)
qed

subsection \<open>Properties\<close>

text \<open>C16: the vectorised conversions are right: str gives two lower case hexadecimal digits for each
  byte in the 8-4-4-4-12 grouping, whatever the upper half of the register held, and fromStr reads
  this text back to the same 16 bytes.\<close>

theorem uuid_str_fromStr:
  assumes "length u = 16" and "length up = 16"
  shows "uuid_str up u = uuid_text u \<and> length (uuid_str up u) = 36 \<and> fromStr (uuid_str up u) = u"
proof -
  have t: "uuid_str up u = uuid_text u"
    using m128itos_text [OF assms, of "replicate 36 0"] by (simp add: uuid_str_def uuid_text_def)
  have "length (nibbles u) = 32" using assms(1) by (simp add: nibbles_def)
  then have "length (uuid_text u) = 36" by (simp add: uuid_text_def dashed_def)
  moreover have "fromStr (uuid_text u) = u"
    using stom128i_dashed [OF assms(1)] by (simp add: fromStr_def uuid_text_def)
  ultimately show ?thesis by (simp add: t)
qed

theorem uuid_str_fromStr_witness:
  "fromStr (uuid_str (replicate 16 7) (getUUID 5 6)) = getUUID 5 6"
  by (rule uuid_str_fromStr [THEN conjunct2, THEN conjunct2]) simp_all

text \<open>C17: every generated identifier is a version 4, variant 1 UUID: for any two random numbers the
  masks leave the version digit 4 and a variant digit 8, 9, a or b in its text, and keep all the
  other 122 bits of the numbers.\<close>

theorem getUUID_version_4:
  assumes "length up = 16"
  shows "uuid_str up (getUUID r1 r0) ! 14 = 52
    \<and> uuid_str up (getUUID r1 r0) ! 19 \<in> {56, 57, 97, 98}
    \<and> (i \<ge> 16 \<or> i = 6 \<or> i = 8 \<or> getUUID r1 r0 ! i = (le_bytes 8 r0 @ le_bytes 8 r1) ! i)
    \<and> getUUID r1 r0 ! 6 AND 15 = le_byte 6 r0 AND 15 \<and> getUUID r1 r0 ! 8 AND 63 = le_byte 0 r1 AND 63"
proof -
  let ?u = "getUUID r1 r0" and ?h = "map hexc (nibbles (getUUID r1 r0))"
  have str: "uuid_str up ?u = dashed ?h"
    using m128itos_text [OF length_getUUID assms, of "replicate 36 0"] by (simp add: uuid_str_def)
  have l: "length ?h = 32" by (simp add: nibbles_def)
  have d: "dashed ?h ! 14 = ?h ! 12" "dashed ?h ! 19 = ?h ! 16"
    using l by (simp_all add: dashed_def nth_append)
  have h: "?h ! 12 = hexc (drop_bit 4 (?u ! 6))" "?h ! 16 = hexc (drop_bit 4 (?u ! 8))"
    by (simp_all add: nibbles_def)
  have u: "?u ! 6 = (le_byte 6 r0 AND 15) OR 64" "?u ! 8 = (le_byte 0 r1 AND 63) OR 128"
    by (simp_all add: getUUID_byte le_bytes_def nth_append)
  have a: "hexc (drop_bit 4 (?u ! 6)) = 52" unfolding u version_digit by (simp add: hexc_def)
  have b: "hexc (drop_bit 4 (?u ! 8)) \<in> {56, 57, 97, 98}" unfolding u by (rule variant_hex [OF variant_digit])
  have c: "i \<ge> 16 \<or> i = 6 \<or> i = 8 \<or> ?u ! i = (le_bytes 8 r0 @ le_bytes 8 r1) ! i"
    using getUUID_other [of i r1 r0] by fastforce
  have e: "?u ! 6 AND 15 = le_byte 6 r0 AND 15" "?u ! 8 AND 63 = le_byte 0 r1 AND 63"
    unfolding u keep_low by simp_all
  show ?thesis unfolding str d h using a b c e by blast
qed

theorem getUUID_version_4_witness:
  "uuid_str (replicate 16 7) (getUUID 5 6) ! 14 = 52"
  using getUUID_version_4 [of "replicate 16 7" 5 6 0] by simp

end
