(* ===== verification/Sqlite_Mgr.thy ===== *)
theory Sqlite_Mgr
  imports X_Format Std_Map Ext_File
begin

text \<open>
  Ext::SQLite (SQLite/EXSQLite.cpp/.hpp): statements, transactions, a database handle and the
  manager of named databases. The sqlite3 library is the record \<open>sqlite\<close> of its calls on a world
  \<open>'w\<close>; connections and prepared statements are numbers, a null statement is \<open>None\<close>. The JSON
  file is a parameter giving, for a path and a database name, the revision count and the queries of
  its "Create" entry (\<open>None\<close> when there is none). A read of a member that no constructor has set
  is \<open>Uninitialised\<close>. Error texts are not modelled, and neither is the delete of a statement by its
  last shared_ptr; nothing in the sources calls sqlite3_finalize.
\<close>

record 'w sqlite =
  sq_open16 :: "xstring \<Rightarrow> 'w \<Rightarrow> (int \<times> nat) \<times> 'w"
  sq_close :: "nat \<Rightarrow> 'w \<Rightarrow> int \<times> 'w"
  sq_exec :: "nat \<Rightarrow> string \<Rightarrow> 'w \<Rightarrow> int \<times> 'w"
  sq_prepare16 :: "nat \<Rightarrow> xstring \<Rightarrow> nat option \<Rightarrow> 'w \<Rightarrow> (int \<times> nat option) \<times> 'w"
  sq_step :: "nat option \<Rightarrow> 'w \<Rightarrow> int \<times> 'w"
  sq_reset :: "nat option \<Rightarrow> 'w \<Rightarrow> int \<times> 'w"
  sq_bind_index :: "nat option \<Rightarrow> byte list \<Rightarrow> 'w \<Rightarrow> int"
  sq_bind_text16 :: "nat option \<Rightarrow> int \<Rightarrow> xstring \<Rightarrow> 'w \<Rightarrow> int \<times> 'w"
  sq_column_count :: "nat option \<Rightarrow> 'w \<Rightarrow> int"
  sq_column_name :: "nat option \<Rightarrow> int \<Rightarrow> 'w \<Rightarrow> byte list option"
  sq_column_text :: "nat option \<Rightarrow> int \<Rightarrow> 'w \<Rightarrow> byte list option"
  sq_column_text16 :: "nat option \<Rightarrow> int \<Rightarrow> 'w \<Rightarrow> xstring option"

abbreviation SQLITE_OK :: int where "SQLITE_OK \<equiv> 0"
abbreviation SQLITE_ROW :: int where "SQLITE_ROW \<equiv> 100"
abbreviation SQLITE_DONE :: int where "SQLITE_DONE \<equiv> 101"

definition rc_ok :: "int \<Rightarrow> bool" where
  "rc_ok rc = (rc = SQLITE_ROW \<or> rc = SQLITE_OK \<or> rc = SQLITE_DONE)"

subsection \<open>cStmt\<close>

text \<open>\<open>stDB\<close> is \<open>None\<close> while the member is not set; a set member may be a null pointer.\<close>

record cStmt =
  stStmt :: "nat option"
  stColumnCnt :: int
  stDB :: "nat option option"

definition st_new :: cStmt where
  "st_new = \<lparr>stStmt = None, stColumnCnt = 0, stDB = None\<rparr>"

definition st_of :: "nat option \<Rightarrow> cStmt" where
  "st_of stmt = \<lparr>stStmt = stmt, stColumnCnt = 0, stDB = None\<rparr>"

definition st_destroy :: "'w sqlite \<Rightarrow> cStmt \<Rightarrow> 'w \<Rightarrow> 'w" where
  "st_destroy sq st w = (if stStmt st \<noteq> None then snd (sq_reset sq (stStmt st) w) else w)"

definition st_assign :: "cStmt \<Rightarrow> cStmt \<Rightarrow> cStmt" where
  "st_assign st rhs = st\<lparr>stStmt := stStmt rhs\<rparr>"

definition SetColumnCnt :: "int \<Rightarrow> cStmt \<Rightarrow> cStmt" where
  "SetColumnCnt nCnt st = st\<lparr>stColumnCnt := nCnt\<rparr>"

definition st_SetDB :: "nat option \<Rightarrow> cStmt \<Rightarrow> cStmt" where
  "st_SetDB db st = st\<lparr>stDB := Some db\<rparr>"

definition st_Next :: "'w sqlite \<Rightarrow> cStmt \<Rightarrow> 'w \<Rightarrow> (bool \<times> 'w) res" where
  "st_Next sq st w =
     (case stDB st of
        None \<Rightarrow> Inl Uninitialised
      | Some None \<Rightarrow> Inr (False, w)
      | Some (Some db) \<Rightarrow>
          (let (rc, w') = sq_step sq (stStmt st) w in Inr (rc = SQLITE_ROW \<or> rc = SQLITE_OK, w')))"

text \<open>_wcsicmp.\<close>

definition wcsicmp_eq :: "xstring \<Rightarrow> xstring \<Rightarrow> bool" where
  "wcsicmp_eq a b = (map towlower (c_str_of a) = map towlower (c_str_of b))"

text \<open>The inner if breaks out of the loop when the column is NULL.\<close>

fun value_loop ::
    "'w sqlite \<Rightarrow> (byte list \<Rightarrow> xstring) \<Rightarrow> cStmt \<Rightarrow> xstring \<Rightarrow> 'w \<Rightarrow> int list \<Rightarrow> xstring res" where
  "value_loop sq mb2wc st sColumnName w [] = Inr []"
| "value_loop sq mb2wc st sColumnName w (nIdx # idxs) =
     (let s = xs_of_cstr mb2wc (sq_column_name sq (stStmt st) nIdx w) in
      if wcsicmp_eq s sColumnName
      then (case sq_column_text sq (stStmt st) nIdx w of
              None \<Rightarrow> Inr []
            | Some _ \<Rightarrow> xs_assign_wcstr [] (sq_column_text16 sq (stStmt st) nIdx w))
      else value_loop sq mb2wc st sColumnName w idxs)"

definition st_Value ::
    "'w sqlite \<Rightarrow> (byte list \<Rightarrow> xstring) \<Rightarrow> cStmt \<Rightarrow> xstring \<Rightarrow> 'w \<Rightarrow> xstring res" where
  "st_Value sq mb2wc st sColumnName w =
     (case stDB st of
        None \<Rightarrow> Inl Uninitialised
      | Some None \<Rightarrow> Inr []
      | Some (Some db) \<Rightarrow> value_loop sq mb2wc st sColumnName w [0..stColumnCnt st - 1])"

subsection \<open>cDBTransaction\<close>

definition tr_exec :: "'w sqlite \<Rightarrow> string \<Rightarrow> nat option \<Rightarrow> 'w \<Rightarrow> bool \<times> 'w" where
  "tr_exec sq cmd db w =
     (case db of None \<Rightarrow> (False, w) | Some d \<Rightarrow> (let (rc, w') = sq_exec sq d cmd w in (rc_ok rc, w')))"

definition tr_Begin :: "'w sqlite \<Rightarrow> nat option \<Rightarrow> 'w \<Rightarrow> bool \<times> 'w" where
  "tr_Begin sq db w = tr_exec sq ''BEGIN TRANSACTION'' db w"

definition tr_Commit :: "'w sqlite \<Rightarrow> nat option \<Rightarrow> 'w \<Rightarrow> bool \<times> 'w" where
  "tr_Commit sq db w = tr_exec sq ''COMMIT'' db w"

definition tr_RollBack :: "'w sqlite \<Rightarrow> nat option \<Rightarrow> 'w \<Rightarrow> bool \<times> 'w" where
  "tr_RollBack sq db w = tr_exec sq ''ROLLBACK'' db w"

definition tr_new :: "'w sqlite \<Rightarrow> nat option \<Rightarrow> 'w \<Rightarrow> 'w" where
  "tr_new sq db w = snd (tr_Begin sq db w)"

definition tr_destroy :: "'w sqlite \<Rightarrow> nat option \<Rightarrow> 'w \<Rightarrow> 'w" where
  "tr_destroy sq db w = snd (tr_Commit sq db w)"

subsection \<open>cSQLiteDB\<close>

text \<open>A cSQLiteDB is its \<open>_db\<close>, set here (the default constructor does not).\<close>

definition PrepareSQL ::
    "'w sqlite \<Rightarrow> nat option \<Rightarrow> cStmt \<Rightarrow> xstring \<Rightarrow> 'w \<Rightarrow> bool \<times> cStmt \<times> 'w" where
  "PrepareSQL sq db stmt sQuery w =
     (case db of
        None \<Rightarrow> (False, stmt, w)
      | Some d \<Rightarrow>
          (let ((rc, s), w1) = sq_prepare16 sq d (c_str_of sQuery) (stStmt stmt) w in
           if rc \<noteq> SQLITE_OK then (False, stmt, w1)
           else (True, st_assign stmt (st_of s), st_destroy sq (st_of s) w1)))"

definition BindValue ::
    "'w sqlite \<Rightarrow> (xstring \<Rightarrow> byte list) \<Rightarrow> nat option \<Rightarrow> cStmt \<Rightarrow> xstring \<Rightarrow> xstring \<Rightarrow> 'w \<Rightarrow> bool \<times> 'w" where
  "BindValue sq wc2mb db stmt sBind sValue w =
     (case db of
        None \<Rightarrow> (False, st_destroy sq stmt w)
      | Some d \<Rightarrow>
          (let idx = sq_bind_index sq (stStmt stmt) (xs_toString wc2mb sBind) w;
               (rc, w1) = sq_bind_text16 sq (stStmt stmt) idx (c_str_of sValue) w
           in (rc = SQLITE_OK, st_destroy sq stmt w1)))"

definition ExecuteSQL :: "'w sqlite \<Rightarrow> nat option \<Rightarrow> cStmt \<Rightarrow> 'w \<Rightarrow> bool \<times> cStmt \<times> 'w" where
  "ExecuteSQL sq db stmt w =
     (case db of
        None \<Rightarrow> (False, stmt, w)
      | Some d \<Rightarrow>
          (let s = stStmt stmt; (rc, w1) = sq_step sq s w; (rc', w2) = sq_reset sq s w1
           in (rc_ok rc, st_SetDB db (SetColumnCnt (sq_column_count sq s w2) stmt), w2)))"

subsection \<open>cSQLiteMgr\<close>

text \<open>The manager is its map of names. \<open>json_create\<close> is the "Create" object of a database: its
  "Rev" and the query stored under each number, \<open>Inl\<close> where the JSON library throws.\<close>

record DB_INFO =
  diDBName :: xstring
  diFilePath :: xstring
  diJsonPath :: xstring
  diSQLite :: "nat option"
  diUseWALMode :: bool

type_synonym db_map = "(xstring, DB_INFO) smap"

record json_create =
  jcRev :: "int res"
  jcQuery :: "int \<Rightarrow> byte list res"

definition IsExistDBInfo :: "xstring \<Rightarrow> db_map \<Rightarrow> bool" where
  "IsExistDBInfo sDBName m = smap_contains m sDBName"

definition GetDB :: "xstring \<Rightarrow> db_map \<Rightarrow> nat option" where
  "GetDB sDBName m = (case map_of m sDBName of None \<Rightarrow> None | Some info \<Rightarrow> diSQLite info)"

definition db_Close :: "'w sqlite \<Rightarrow> xstring \<Rightarrow> db_map \<Rightarrow> 'w \<Rightarrow> bool \<times> 'w" where
  "db_Close sq sDBName m w =
     (case GetDB sDBName m of
        None \<Rightarrow> (False, w)
      | Some d \<Rightarrow> (let (rc, w') = sq_close sq d w in (rc = SQLITE_OK, w')))"

text \<open>PrepareSQL followed by ExecuteSQL on the same statement, results ignored.\<close>

definition run_query :: "'w sqlite \<Rightarrow> nat option \<Rightarrow> xstring \<Rightarrow> cStmt \<times> 'w \<Rightarrow> cStmt \<times> 'w" where
  "run_query sq db sQuery sw =
     (let (_, s1, w1) = PrepareSQL sq db (fst sw) sQuery (snd sw); (_, s2, w2) = ExecuteSQL sq db s1 w1
      in (s2, w2))"

fun create_loop ::
    "'w sqlite \<Rightarrow> (byte list \<Rightarrow> xstring) \<Rightarrow> nat option \<Rightarrow> json_create \<Rightarrow> int list \<Rightarrow> cStmt \<times> 'w
     \<Rightarrow> unit res \<times> cStmt \<times> 'w" where
  "create_loop sq mb2wc db j [] sw = (Inr (), sw)"
| "create_loop sq mb2wc db j (idx # idxs) sw =
     (case jcQuery j idx of
        Inl e \<Rightarrow> (Inl e, sw)
      | Inr q \<Rightarrow> create_loop sq mb2wc db j idxs (run_query sq db (xs_of_string mb2wc q) sw))"

definition rev_query :: "int \<Rightarrow> xstring res option" where
  "rev_query nRev =
     Format (wlit ''INSERT OR REPLACE INTO TBL_DEFAULT(id, rev) VALUES( \"{}\", \"{}\" ) '')
       [AOther, AInt (word_of_int nRev)]"

text \<open>The block of InitDB that fills a new database file, between the constructor and the
  destructor of its transaction; its outer \<open>None\<close> would be a Format that never returns.\<close>

definition create_block ::
    "'w sqlite \<Rightarrow> (byte list \<Rightarrow> xstring) \<Rightarrow> nat option \<Rightarrow> json_create \<Rightarrow> 'w
     \<Rightarrow> (unit res \<times> cStmt \<times> 'w) option" where
  "create_block sq mb2wc db j w =
     (let sw1 = run_query sq db (wlit ''PRAGMA encoding = \"UTF-16le\";'') (st_new, w);
          sw2 = run_query sq db
                  (wlit ''CREATE TABLE TBL_DEFAULT( id TEXT NOT NULL, rev TEXT NOT NULL );'') sw1
      in case jcRev j of
           Inl e \<Rightarrow> Some (Inl e, sw2)
         | Inr nRev \<Rightarrow>
             (case create_loop sq mb2wc db j [1..nRev] sw2 of
                (Inl e, sw3) \<Rightarrow> Some (Inl e, sw3)
              | (Inr _, sw3) \<Rightarrow>
                  (case rev_query nRev of
                     None \<Rightarrow> None
                   | Some (Inl e) \<Rightarrow> Some (Inl e, sw3)
                   | Some (Inr sQuery) \<Rightarrow> Some (Inr (), run_query sq db sQuery sw3))))"

definition create_db ::
    "'w sqlite \<Rightarrow> (byte list \<Rightarrow> xstring) \<Rightarrow> nat option \<Rightarrow> json_create \<Rightarrow> 'w \<Rightarrow> (bool res \<times> 'w) option" where
  "create_db sq mb2wc db j w =
     (case create_block sq mb2wc db j (tr_new sq db w) of
        None \<Rightarrow> None
      | Some (r, st, w') \<Rightarrow>
          Some (case r of Inl e \<Rightarrow> Inl e | Inr _ \<Rightarrow> Inr True, tr_destroy sq db (st_destroy sq st w')))"

definition enable_wal :: "'w sqlite \<Rightarrow> nat option \<Rightarrow> 'w \<Rightarrow> 'w" where
  "enable_wal sq db w =
     (let (st, w') = run_query sq db (wlit ''PRAGMA journal_mode=WAL;'') (st_new, w) in st_destroy sq st w')"

definition InitDB_info ::
    "'w sqlite \<Rightarrow> ('w \<Rightarrow> fs) \<Rightarrow> (xstring \<Rightarrow> xstring \<Rightarrow> 'w \<Rightarrow> json_create option res) \<Rightarrow> (byte list \<Rightarrow> xstring)
     \<Rightarrow> DB_INFO \<Rightarrow> db_map \<Rightarrow> 'w \<Rightarrow> (bool res \<times> db_map \<times> 'w) option" where
  "InitDB_info sq fsw json mb2wc dbInfo m w =
     (if xs_IsEmpty (diFilePath dbInfo) \<or> xs_IsEmpty (diDBName dbInfo) then Some (Inr False, m, w)
      else if IsExistDBInfo (diDBName dbInfo) m then Some (Inr True, m, w)
      else
        (let isExist = IsExistFile (fsw w) (diFilePath dbInfo);
             ((rc, db), w1) = sq_open16 sq (c_str_of (diFilePath dbInfo)) w
         in if rc \<noteq> SQLITE_OK then Some (Inr False, m, snd (sq_close sq db w1))
            else
              (let m1 = smap_assign (diDBName dbInfo) (dbInfo\<lparr>diSQLite := Some db\<rparr>) m;
                   w2 = (if diUseWALMode dbInfo then enable_wal sq (Some db) w1 else w1)
               in case (if IsExistFile (fsw w2) (diJsonPath dbInfo)
                        then json (diJsonPath dbInfo) (diDBName dbInfo) w2 else Inr None) of
                    Inl e \<Rightarrow> Some (Inl e, m1, w2)
                  | Inr None \<Rightarrow> Some (Inr False, m1, w2)
                  | Inr (Some j) \<Rightarrow>
                      (if isExist then Some (Inr True, m1, w2)
                       else case create_db sq mb2wc (Some db) j w2 of
                              None \<Rightarrow> None
                            | Some (r, w3) \<Rightarrow> Some (r, m1, w3)))))"

definition InitDB ::
    "'w sqlite \<Rightarrow> ('w \<Rightarrow> fs) \<Rightarrow> (xstring \<Rightarrow> xstring \<Rightarrow> 'w \<Rightarrow> json_create option res) \<Rightarrow> (byte list \<Rightarrow> xstring)
     \<Rightarrow> xstring \<Rightarrow> xstring \<Rightarrow> db_map \<Rightarrow> 'w \<Rightarrow> (bool res \<times> db_map \<times> 'w) option" where
  "InitDB sq fsw json mb2wc sDBName sFilePath m w =
     InitDB_info sq fsw json mb2wc
       \<lparr>diDBName = sDBName, diFilePath = sFilePath, diJsonPath = [], diSQLite = None,
        diUseWALMode = False\<rparr> m w"

subsection \<open>Lemmas\<close>

lemma rev_query_text:
  "rev_query nRev = Some (Inr (wlit ''INSERT OR REPLACE INTO TBL_DEFAULT(id, rev) VALUES( \"unknown type\", \"''
     @ to_wstring (sint (word_of_int nRev :: u32)) @ wlit ''\" ) ''))"
proof -
  let ?t = "wlit ''INSERT OR REPLACE INTO TBL_DEFAULT(id, rev) VALUES( \"''"
    and ?u = "wlit ''\", \"''" and ?v = "wlit ''\" ) ''"
  have fmt: "wlit ''INSERT OR REPLACE INTO TBL_DEFAULT(id, rev) VALUES( \"{}\", \"{}\" ) '' = seq_format ?t [?u, ?v]"
    by (simp add: wlit_def)
  have plain: "list_all text_char ?t" "list_all (list_all text_char) [?u, ?v]"
    by (simp_all add: wlit_def text_char_def)
  have "rev_query nRev = Some (Inr (seq_result ?t [?u, ?v] (map format_as [AOther, AInt (word_of_int nRev)])))"
    using run_seq [OF plain, of 0 "map format_as [AOther, AInt (word_of_int nRev)]" "[]" "[]"]
    by (simp add: rev_query_def fmt Format_args format_trans_def fmt_init_clean)
  also have "\<dots> = Some (Inr (wlit ''INSERT OR REPLACE INTO TBL_DEFAULT(id, rev) VALUES( \"unknown type\", \"''
     @ to_wstring (sint (word_of_int nRev :: u32)) @ wlit ''\" ) ''))"
    by (simp add: wlit_def)
  finally show ?thesis .
qed

lemma create_loop_ok:
  "fst (create_loop sq mb2wc db j idxs sw) = Inr () \<longleftrightarrow> (\<forall>i \<in> set idxs. \<exists>q. jcQuery j i = Inr q)"
  by (induction idxs arbitrary: sw) (auto split: sum.splits)

lemma create_block_ok:
  "jcRev j = Inr n \<Longrightarrow>
     \<exists>r st w'. create_block sq mb2wc db j w = Some (r, st, w')
       \<and> (r = Inr () \<longleftrightarrow> (\<forall>i \<in> {1..n}. \<exists>q. jcQuery j i = Inr q))"
proof -
  assume n: "jcRev j = Inr n"
  define sw where "sw = run_query sq db
    (wlit ''CREATE TABLE TBL_DEFAULT( id TEXT NOT NULL, rev TEXT NOT NULL );'')
    (run_query sq db (wlit ''PRAGMA encoding = \"UTF-16le\";'') (st_new, w))"
  obtain r sw' where loop: "create_loop sq mb2wc db j [1..n] sw = (r, sw')"
    by (cases "create_loop sq mb2wc db j [1..n] sw")
  have ok: "r = Inr () \<longleftrightarrow> (\<forall>i \<in> {1..n}. \<exists>q. jcQuery j i = Inr q)"
    using create_loop_ok [of sq mb2wc db j "[1..n]" sw] loop by simp
  have "create_block sq mb2wc db j w =
     (case r of Inl e \<Rightarrow> Some (Inl e, sw')
      | Inr _ \<Rightarrow> Some (Inr (), run_query sq db (wlit ''INSERT OR REPLACE INTO TBL_DEFAULT(id, rev) VALUES( \"unknown type\", \"''
     @ to_wstring (sint (word_of_int n :: u32)) @ wlit ''\" ) '') sw'))"
    using loop unfolding create_block_def Let_def sw_def [symmetric]
    by (simp add: n rev_query_text split: sum.splits)
  with ok show ?thesis
    by (cases r; cases sw'; cases "run_query sq db (wlit ''INSERT OR REPLACE INTO TBL_DEFAULT(id, rev) VALUES( \"unknown type\", \"''
     @ to_wstring (sint (word_of_int n :: u32)) @ wlit ''\" ) '') sw'") auto
qed

lemma create_db_commits:
  "jcRev j = Inr n \<Longrightarrow>
     \<exists>r w'. create_db sq mb2wc db j w = Some (r, snd (tr_Commit sq db w'))
       \<and> (r = Inr True \<longleftrightarrow> (\<forall>i \<in> {1..n}. \<exists>q. jcQuery j i = Inr q))"
proof -
  assume "jcRev j = Inr n"
  from create_block_ok [OF this, of sq mb2wc db "tr_new sq db w"] obtain r st w' where
    block: "create_block sq mb2wc db j (tr_new sq db w) = Some (r, st, w')"
    and ok: "r = Inr () \<longleftrightarrow> (\<forall>i \<in> {1..n}. \<exists>q. jcQuery j i = Inr q)" by blast
  have "create_db sq mb2wc db j w = Some (case r of Inl e \<Rightarrow> Inl e | Inr _ \<Rightarrow> Inr True,
      snd (tr_Commit sq db (st_destroy sq st w')))"
    by (simp add: create_db_def block tr_destroy_def)
  moreover have "(case r of Inl e \<Rightarrow> Inl e | Inr _ \<Rightarrow> Inr True) = Inr True \<longleftrightarrow> r = Inr ()"
    by (cases r) auto
  ultimately show ?thesis using ok by metis
qed

lemma InitDB_registered:
  "sFilePath \<noteq> [] \<Longrightarrow> sDBName \<noteq> [] \<Longrightarrow> GetDB sDBName m = Some db \<Longrightarrow>
     InitDB sq fsw json mb2wc sDBName sFilePath m w = Some (Inr True, m, w)"
  by (simp add: InitDB_def InitDB_info_def xs_IsEmpty_def IsExistDBInfo_def GetDB_def smap_contains_def
      split: option.splits)

text \<open>Close leaves the entry: InitDB takes the closed database for an open one and the next Close
  closes the same handle again.\<close>

lemma InitDB_after_Close:
  assumes "sFilePath \<noteq> []" and "sDBName \<noteq> []" and "GetDB sDBName m = Some db"
    and "db_Close sq sDBName m w = (True, w1)" and "sq_close sq db w1 = (rc, w2)"
  shows "InitDB sq fsw json mb2wc sDBName sFilePath m w1 = Some (Inr True, m, w1)
    \<and> GetDB sDBName m = Some db \<and> db_Close sq sDBName m w1 = (rc = SQLITE_OK, w2)"
  using assms(3,5) InitDB_registered [OF assms(1-3)] by (simp add: db_Close_def)

subsection \<open>Properties\<close>

text \<open>Without a JSON file InitDB reports failure although it has opened the database and put
  it into the map: GetDB gives the handle, and a second InitDB of the name reports success at once
  without calling sqlite. The map stays sorted.\<close>

lemma InitDB_fails_but_opens:
  assumes "sFilePath \<noteq> []" and "sDBName \<noteq> []" and "map_of m sDBName = None" and "smap_ok m"
    and "sq_open16 sq (c_str_of sFilePath) w = ((SQLITE_OK, db), w1)"
    and "\<not> fs_exists (fsw w1) []" and "sFilePath' \<noteq> []"
  shows "\<exists>m1. InitDB sq fsw json mb2wc sDBName sFilePath m w = Some (Inr False, m1, w1)
      \<and> GetDB sDBName m1 = Some db \<and> smap_ok m1
      \<and> InitDB sq fsw json mb2wc sDBName sFilePath' m1 w1 = Some (Inr True, m1, w1)"
proof -
  define m1 where "m1 = smap_assign sDBName \<lparr>diDBName = sDBName, diFilePath = sFilePath, diJsonPath = [],
    diSQLite = Some db, diUseWALMode = False\<rparr> m"
  have get: "GetDB sDBName m1 = Some db"
    by (simp add: m1_def GetDB_def map_of_smap_assign)
  have "InitDB sq fsw json mb2wc sDBName sFilePath m w = Some (Inr False, m1, w1)"
    using assms by (simp add: InitDB_def InitDB_info_def xs_IsEmpty_def IsExistDBInfo_def smap_contains_def
        IsExistFile_def xs_toWString_def m1_def)
  moreover have "smap_ok m1"
    using assms(4) by (simp add: m1_def smap_ok_assign)
  ultimately show ?thesis
    using get InitDB_registered [OF assms(7,2) get] by (intro exI [of _ m1] conjI)
qed

definition sq_failing :: "string list sqlite" where
  "sq_failing = \<lparr>sq_open16 = \<lambda>p w. ((SQLITE_OK, 7), w @ [''open'']), sq_close = \<lambda>d w. (SQLITE_OK, w @ [''close'']),
     sq_exec = \<lambda>d cmd w. (SQLITE_OK, w @ [cmd]), sq_prepare16 = \<lambda>d q s w. ((1, None), w @ [''prepare'']),
     sq_step = \<lambda>s w. (21, w), sq_reset = \<lambda>s w. (SQLITE_OK, w), sq_bind_index = \<lambda>s n w. 0,
     sq_bind_text16 = \<lambda>s i v w. (21, w), sq_column_count = \<lambda>s w. 0, sq_column_name = \<lambda>s i w. None, sq_column_text = \<lambda>s i w. None,
     sq_column_text16 = \<lambda>s i w. None\<rparr>"

definition fs_none :: fs where
  "fs_none = \<lparr>fs_exists = \<lambda>p. False, fs_is_directory = \<lambda>p. False, fs_is_regular_file = \<lambda>p. False,
     fs_is_character_file = \<lambda>p. False\<rparr>"

lemma InitDB_fails_but_opens_witness:
  "\<exists>m1. InitDB sq_failing (\<lambda>w. fs_none) (\<lambda>p n w. Inr None) (map ucast) (wlit ''a'') (wlit ''a.db'') [] []
        = Some (Inr False, m1, [''open''])
      \<and> GetDB (wlit ''a'') m1 = Some 7 \<and> smap_ok m1
      \<and> InitDB sq_failing (\<lambda>w. fs_none) (\<lambda>p n w. Inr None) (map ucast) (wlit ''a'') (wlit ''b.db'') m1 [''open'']
        = Some (Inr True, m1, [''open''])"
  by (rule InitDB_fails_but_opens)
    (simp_all add: wlit_def sq_failing_def fs_none_def smap_ok_def)

text \<open>C34: on a new file InitDB fills the database between the constructor and the destructor of
  its transaction. Its result depends only on the JSON entry (True exactly when every query from 1
  to Rev is there): whatever sqlite answers to the statements, the transaction is committed and
  InitDB reports success, and it is committed as well when a missing query makes InitDB throw.\<close>

theorem InitDB_commits_regardless:
  assumes "diFilePath info \<noteq> []" and "diDBName info \<noteq> []" and "map_of m (diDBName info) = None"
    and "\<not> fs_exists (fsw w) (diFilePath info)"
    and "sq_open16 sq (c_str_of (diFilePath info)) w = ((SQLITE_OK, db), w1)"
    and "\<And>w'. fs_exists (fsw w') (diJsonPath info)"
    and "\<And>w'. json (diJsonPath info) (diDBName info) w' = Inr (Some j)" and "jcRev j = Inr n"
  shows "\<exists>r m1 w'. InitDB_info sq fsw json mb2wc info m w = Some (r, m1, snd (tr_Commit sq (Some db) w'))
      \<and> GetDB (diDBName info) m1 = Some db
      \<and> (r = Inr True \<longleftrightarrow> (\<forall>i \<in> {1..n}. \<exists>q. jcQuery j i = Inr q))"
proof -
  define m1 where "m1 = smap_assign (diDBName info) (info\<lparr>diSQLite := Some db\<rparr>) m"
  define w2 where "w2 = (if diUseWALMode info then enable_wal sq (Some db) w1 else w1)"
  obtain r w' where fill: "create_db sq mb2wc (Some db) j w2 = Some (r, snd (tr_Commit sq (Some db) w'))"
    and ok: "r = Inr True \<longleftrightarrow> (\<forall>i \<in> {1..n}. \<exists>q. jcQuery j i = Inr q)"
    using create_db_commits [OF assms(8), of sq mb2wc "Some db" w2] by blast
  have "InitDB_info sq fsw json mb2wc info m w = Some (r, m1, snd (tr_Commit sq (Some db) w'))"
    using assms fill by (simp add: InitDB_info_def xs_IsEmpty_def IsExistDBInfo_def smap_contains_def
        IsExistFile_def xs_toWString_def m1_def [symmetric] w2_def [symmetric])
  moreover have "GetDB (diDBName info) m1 = Some db"
    by (simp add: m1_def GetDB_def map_of_smap_assign)
  ultimately show ?thesis
    using ok by (intro exI [of _ r] exI [of _ m1] exI [of _ w'] conjI)
qed

theorem InitDB_commits_regardless_witness:
  "\<exists>r m1 w'. InitDB_info sq_failing (\<lambda>w. fs_none\<lparr>fs_exists := \<lambda>p. p = wlit ''db.json''\<rparr>)
        (\<lambda>p n w. Inr (Some \<lparr>jcRev = Inr 2, jcQuery = \<lambda>i. Inr (blit ''q'')\<rparr>)) (map ucast)
        \<lparr>diDBName = wlit ''a'', diFilePath = wlit ''a.db'', diJsonPath = wlit ''db.json'', diSQLite = None,
         diUseWALMode = True\<rparr> [] [] = Some (r, m1, snd (tr_Commit sq_failing (Some 7) w'))
      \<and> GetDB (wlit ''a'') m1 = Some 7
      \<and> (r = Inr True \<longleftrightarrow> (\<forall>i \<in> {1..(2::int)}. \<exists>q. (\<lambda>i::int. (Inr (blit ''q'') :: byte list res)) i = Inr q))"
  using InitDB_commits_regardless [of "\<lparr>diDBName = wlit ''a'', diFilePath = wlit ''a.db'', diJsonPath = wlit ''db.json'',
      diSQLite = None, diUseWALMode = True\<rparr>" "[]" "\<lambda>w. fs_none\<lparr>fs_exists := \<lambda>p. p = wlit ''db.json''\<rparr>" "[]"
      sq_failing 7 "[''open'']" "\<lambda>p n w. Inr (Some \<lparr>jcRev = Inr 2, jcQuery = \<lambda>i. Inr (blit ''q'')\<rparr>)"
      "\<lparr>jcRev = Inr 2, jcQuery = \<lambda>i. Inr (blit ''q'')\<rparr>" 2 "map ucast"]
  by (simp add: wlit_def sq_failing_def fs_none_def)

end
