(* ===== verification/Ipc_Win.thy ===== *)
theory Ipc_Win
  imports X_String Event_Queue
begin

text \<open>
  Ext::IPC (IPC/EXIPC.cpp/.hpp): requests and responses over named shared memory of Windows. The
  kernel's named objects are the record \<open>ipc_sys\<close>: the mappings that hold an stIPCData, the data
  mappings (their names end in ReqDATA or ResDATA and are kept apart), both with the number of their
  open handles, and the mutexes. What happens under a mutex is one step; \<open>grant\<close> says which waits
  for a mutex are granted within their time. \<open>page\<close> is the granularity of the memory: a mapping is as
  long as its size rounded up to it. A server is the extension \<open>ipc_server\<close> of the record, its
  threads are the steps \<open>main_round\<close>, \<open>worker_round\<close> and \<open>worker_finish\<close>. SendIPC runs with an
  environment \<open>env\<close>, what everything else does during each Sleep.

  Handles that are never closed keep their object, as in the code. An access outside a view or a
  buffer is \<open>Inl OutOfBounds\<close>. Creating an object does not fail for lack of resources; CreateIPC,
  SendIPC and the threads are modelled, the destructors of the server are not.
\<close>

subsection \<open>Shared data\<close>

record stIPCData =
  reqData :: "byte list"
  requestSize :: nat
  hasRequest :: bool
  resData :: "byte list"
  responseSize :: nat
  hasResponse :: bool
  needResponse :: bool
  sSenderIPCName :: xstring
  nSenderPID :: u32
  ipTimeout :: int
  isInit :: bool
  bCheckIPC :: bool
  isDone :: bool

text \<open>A new mapping is filled with zeros, and so is stIPCData().\<close>

definition ip_zero :: stIPCData where
  "ip_zero = \<lparr>reqData = replicate 512 0, requestSize = 0, hasRequest = False, resData = replicate 512 0,
     responseSize = 0, hasResponse = False, needResponse = False, sSenderIPCName = replicate 256 0,
     nSenderPID = 0, ipTimeout = 0, isInit = False, bCheckIPC = False, isDone = False\<rparr>"

definition ip_clear :: "stIPCData \<Rightarrow> stIPCData" where
  "ip_clear d = d\<lparr>isInit := True, nSenderPID := 0, hasRequest := False, hasResponse := False,
     needResponse := False, bCheckIPC := False, isDone := False\<rparr>"

text \<open>std::copy of a name into the array (no terminator is written), and reading the array as a
  const wchar_t*.\<close>

definition write_name :: "xstring \<Rightarrow> xstring \<Rightarrow> xstring res" where
  "write_name n arr = (if length n \<le> length arr then Inr (n @ drop (length n) arr) else Inl OutOfBounds)"

definition read_name :: "xstring \<Rightarrow> xstring res" where
  "read_name arr = (if 0 \<in> set arr then Inr (takeWhile (\<lambda>c. c \<noteq> 0) arr) else Inl OutOfBounds)"

text \<open>sizeof( stIPCData ) with the layout of a 64 bit build.\<close>

definition SHM_SIZE :: nat where
  "SHM_SIZE = 1584"

definition round_up :: "nat \<Rightarrow> nat \<Rightarrow> nat" where
  "round_up page n = (n + page - 1) div page * page"

definition GetRequestIPCName :: "xstring \<Rightarrow> xstring" where
  "GetRequestIPCName sIPCName = sIPCName @ wlit ''ReqDATA''"

definition GetResponseIPCName :: "xstring \<Rightarrow> xstring" where
  "GetResponseIPCName sIPCName = sIPCName @ wlit ''ResDATA''"

definition GetGlobalName :: "xstring \<Rightarrow> xstring" where
  "GetGlobalName sIPCName = wlit ''Global'' @ 92 # sIPCName"

subsection \<open>Named objects\<close>

type_synonym 'a objs = "xstring \<Rightarrow> ('a \<times> nat) option"

definition obj_create :: "'a \<Rightarrow> xstring \<Rightarrow> 'a objs \<Rightarrow> 'a objs" where
  "obj_create z n m = m(n \<mapsto> (case m n of None \<Rightarrow> (z, 1) | Some (x, k) \<Rightarrow> (x, k + 1)))"

definition obj_open :: "xstring \<Rightarrow> 'a objs \<Rightarrow> ('a \<times> 'a objs) option" where
  "obj_open n m = (case m n of None \<Rightarrow> None | Some (x, k) \<Rightarrow> Some (x, m(n \<mapsto> (x, k + 1))))"

definition obj_put :: "xstring \<Rightarrow> 'a \<Rightarrow> 'a objs \<Rightarrow> 'a objs" where
  "obj_put n x m = (case m n of None \<Rightarrow> m | Some (_, k) \<Rightarrow> m(n \<mapsto> (x, k)))"

definition obj_close :: "xstring \<Rightarrow> 'a objs \<Rightarrow> 'a objs" where
  "obj_close n m = (case m n of None \<Rightarrow> m | Some (x, k) \<Rightarrow> if k \<le> 1 then m(n := None) else m(n \<mapsto> (x, k - 1)))"

record ipc_sys =
  syStruct :: "stIPCData objs"
  syData :: "byte list objs"
  syMutex :: "xstring set"

text \<open>MapViewOfFile of SHM_SIZE bytes of a data mapping: the bytes that can be accessed.\<close>

definition data_view :: "nat \<Rightarrow> xstring \<Rightarrow> byte list objs \<Rightarrow> byte list option" where
  "data_view page n m =
     (case m n of
        None \<Rightarrow> None
      | Some (bs, _) \<Rightarrow> if SHM_SIZE \<le> length bs then Some (take (round_up page SHM_SIZE) bs) else None)"

subsection \<open>CIPCMutex\<close>

record CIPCMutex =
  mxName :: xstring
  mxTimeout :: int

definition mx_new :: "xstring \<Rightarrow> int \<Rightarrow> CIPCMutex" where
  "mx_new sMutexName nTimeout = \<lparr>mxName = sMutexName, mxTimeout = (if nTimeout \<le> 0 then 0xFFFFFFFF else nTimeout)\<rparr>"

definition mx_Create :: "CIPCMutex \<Rightarrow> 'x ipc_sys_scheme \<Rightarrow> 'x ipc_sys_scheme" where
  "mx_Create mx s = s\<lparr>syMutex := insert (mxName mx) (syMutex s)\<rparr>"

text \<open>The wait gets the time in milliseconds, as a DWORD.\<close>

type_synonym grant = "xstring \<Rightarrow> int \<Rightarrow> bool"

definition mx_Open :: "grant \<Rightarrow> CIPCMutex \<Rightarrow> 'x ipc_sys_scheme \<Rightarrow> bool" where
  "mx_Open grant mx s = (mxName mx \<in> syMutex s \<and> grant (mxName mx) (mxTimeout mx * 1000 mod 2 ^ 32))"

subsection \<open>The client\<close>

text \<open>One pass of the send loop: whether the request was placed, and the buffer \<open>requestData\<close> points to.\<close>

definition send_try ::
    "nat \<Rightarrow> grant \<Rightarrow> int \<Rightarrow> int \<Rightarrow> bool \<Rightarrow> u32 \<Rightarrow> xstring \<Rightarrow> xstring \<Rightarrow> nat \<Rightarrow> byte list \<Rightarrow> 'x ipc_sys_scheme
     \<Rightarrow> (bool \<times> byte list \<times> 'x ipc_sys_scheme) res" where
  "send_try page grant now timeOutSec bCheck pid sIPCName sClient n req s =
     (let g = GetGlobalName sIPCName in
      if \<not> mx_Open grant (mx_new sIPCName timeOutSec) s then Inr (False, req, s)
      else case obj_open g (syStruct s) of
        None \<Rightarrow> Inr (False, req, s)
      | Some (d, m) \<Rightarrow>
          if isInit d = False \<or> hasRequest d = True then Inr (False, req, s\<lparr>syStruct := obj_close g m\<rparr>)
          else case write_name sClient (sSenderIPCName d) of
            Inl e \<Rightarrow> Inl e
          | Inr nm \<Rightarrow>
              (let d1 = d\<lparr>hasResponse := False, nSenderPID := pid, requestSize := n, sSenderIPCName := nm,
                     hasRequest := True, needResponse := True, ipTimeout := now + timeOutSec, bCheckIPC := bCheck\<rparr>;
                   s1 = s\<lparr>syStruct := obj_close g (obj_put g d1 m)\<rparr>
               in if n > 512 \<or> bCheck then
                    (if mx_Open grant (mx_new (GetRequestIPCName sClient) timeOutSec) s then
                       (case data_view page (GetGlobalName (GetRequestIPCName sClient)) (syData s) of
                          None \<Rightarrow> Inr (False, req, s1)
                        | Some v \<Rightarrow> if n \<le> length v then Inr (True, take n v, s1) else Inl OutOfBounds)
                     else Inr (True, req, s1))
                  else if n \<le> length req then
                    Inr (True, req, s\<lparr>syStruct := obj_close g (obj_put g (d1\<lparr>reqData := take n req @ drop n (reqData d1)\<rparr>) m)\<rparr>)
                  else Inl OutOfBounds))"

text \<open>One pass of the receive loop: whether the response was taken, the caller's buffer and \<open>responseSize\<close>.\<close>

definition recv_try ::
    "nat \<Rightarrow> grant \<Rightarrow> int \<Rightarrow> bool \<Rightarrow> xstring \<Rightarrow> byte list \<Rightarrow> nat \<Rightarrow> 'x ipc_sys_scheme
     \<Rightarrow> (bool \<times> byte list \<times> nat \<times> 'x ipc_sys_scheme) res" where
  "recv_try page grant timeOutSec bCheck sClient buf rsz s =
     (let g = GetGlobalName sClient in
      if \<not> mx_Open grant (mx_new sClient timeOutSec) s then Inr (False, buf, rsz, s)
      else case obj_open g (syStruct s) of
        None \<Rightarrow> Inr (False, buf, rsz, s)
      | Some (d, m) \<Rightarrow>
          if hasRequest d = False \<and> hasResponse d = True then
            (let n = responseSize d; s1 = s\<lparr>syStruct := obj_close g (obj_put g (d\<lparr>isDone := True\<rparr>) m)\<rparr>
             in if n > 512 \<or> bCheck then
                  (if mx_Open grant (mx_new (GetResponseIPCName sClient) timeOutSec) s then
                     (case data_view page (GetGlobalName (GetResponseIPCName sClient)) (syData s) of
                        None \<Rightarrow> Inr (False, buf, n, s\<lparr>syStruct := obj_close g m\<rparr>)
                      | Some v \<Rightarrow> if n \<le> length v \<and> n \<le> length buf
                                 then Inr (True, take n v @ drop n buf, n, s1) else Inl OutOfBounds)
                   else Inr (True, buf, n, s1))
                else if n \<le> length buf then Inr (True, take n (resData d) @ drop n buf, n, s1)
                else Inl OutOfBounds)
          else Inr (False, buf, rsz, s\<lparr>syStruct := obj_close g m\<rparr>))"

text \<open>Both loops count down the passes that are left of \<open>timeOutSec * 100\<close>; a failed pass sleeps.\<close>

fun send_tries ::
    "(nat \<Rightarrow> 'x ipc_sys_scheme \<Rightarrow> 'x ipc_sys_scheme)
     \<Rightarrow> (nat \<Rightarrow> byte list \<Rightarrow> 'x ipc_sys_scheme \<Rightarrow> (bool \<times> byte list \<times> 'x ipc_sys_scheme) res)
     \<Rightarrow> nat \<Rightarrow> byte list \<Rightarrow> 'x ipc_sys_scheme \<Rightarrow> (bool \<times> nat \<times> 'x ipc_sys_scheme) res" where
  "send_tries env pass 0 req s = Inr (False, 0, s)"
| "send_tries env pass (Suc r) req s =
     (case pass r req s of
        Inl e \<Rightarrow> Inl e
      | Inr (ok, req', s') \<Rightarrow> if ok then Inr (True, Suc r, s') else send_tries env pass r req' (env r s'))"

fun recv_tries ::
    "(nat \<Rightarrow> 'x ipc_sys_scheme \<Rightarrow> 'x ipc_sys_scheme)
     \<Rightarrow> (nat \<Rightarrow> byte list \<Rightarrow> nat \<Rightarrow> 'x ipc_sys_scheme \<Rightarrow> (bool \<times> byte list \<times> nat \<times> 'x ipc_sys_scheme) res)
     \<Rightarrow> nat \<Rightarrow> byte list \<Rightarrow> nat \<Rightarrow> 'x ipc_sys_scheme \<Rightarrow> (bool \<times> byte list \<times> nat \<times> 'x ipc_sys_scheme) res" where
  "recv_tries env pass 0 buf rsz s = Inr (False, buf, rsz, s)"
| "recv_tries env pass (Suc r) buf rsz s =
     (case pass r buf rsz s of
        Inl e \<Rightarrow> Inl e
      | Inr (ok, buf', rsz', s') \<Rightarrow>
          if ok then Inr (True, buf', rsz', s') else recv_tries env pass r buf' rsz' (env r s'))"

definition client_name :: "xstring \<Rightarrow> u32 \<Rightarrow> u32 \<Rightarrow> xstring" where
  "client_name sIPCName pid k = sIPCName @ to_wstring (sint pid) @ wlit ''Client'' @ to_wstring (uint k)"

definition send_begin :: "nat \<Rightarrow> int \<Rightarrow> xstring \<Rightarrow> nat \<Rightarrow> 'x ipc_sys_scheme \<Rightarrow> 'x ipc_sys_scheme" where
  "send_begin page timeOutSec sClient n s =
     (let gc = GetGlobalName sClient; gr = GetGlobalName (GetRequestIPCName sClient); sz = n mod 2 ^ 32 in
      mx_Create (mx_new sClient timeOutSec) (mx_Create (mx_new (GetRequestIPCName sClient) timeOutSec)
        (s\<lparr>syStruct := obj_create ip_zero gc (syStruct s),
           syData := (if sz = 0 then syData s else obj_create (replicate (round_up page sz) 0) gr (syData s))\<rparr>)))"

definition send_end :: "xstring \<Rightarrow> nat \<Rightarrow> 'x ipc_sys_scheme \<Rightarrow> 'x ipc_sys_scheme" where
  "send_end sClient n s =
     (let gc = GetGlobalName sClient; gr = GetGlobalName (GetRequestIPCName sClient) in
      s\<lparr>syData := (if n mod 2 ^ 32 = 0 then syData s else obj_close gr (syData s)),
        syStruct := obj_close gc (syStruct s)\<rparr>)"

definition SendIPC ::
    "nat \<Rightarrow> (nat \<Rightarrow> grant) \<Rightarrow> (nat \<Rightarrow> 'x ipc_sys_scheme \<Rightarrow> 'x ipc_sys_scheme) \<Rightarrow> int \<Rightarrow> u32 \<Rightarrow> u32
     \<Rightarrow> xstring \<Rightarrow> byte list \<Rightarrow> nat \<Rightarrow> byte list \<Rightarrow> nat \<Rightarrow> int \<Rightarrow> bool \<Rightarrow> 'x ipc_sys_scheme
     \<Rightarrow> (bool \<times> byte list \<times> nat \<times> 'x ipc_sys_scheme) res" where
  "SendIPC page grant env now pid k sIPCName requestData n responseData rsz timeOutSec bCheck s =
     (let sClient = client_name sIPCName pid k in
      case send_tries env (\<lambda>r. send_try page (grant r) now timeOutSec bCheck pid sIPCName sClient n)
             (nat (timeOutSec * 100)) requestData (send_begin page timeOutSec sClient n s) of
        Inl e \<Rightarrow> Inl e
      | Inr (isSend, r, s1) \<Rightarrow>
          (case recv_tries env (\<lambda>r. recv_try page (grant r) timeOutSec bCheck sClient) r responseData rsz s1 of
             Inl e \<Rightarrow> Inl e
           | Inr (isRecv, buf, rsz', s2) \<Rightarrow> Inr (isSend \<and> isRecv, buf, rsz', send_end sClient n s2)))"

subsection \<open>The server\<close>

record 'u ipc_server = ipc_sys +
  svName :: xstring
  svHMap :: bool
  svQueue :: "stIPCData equeue"
  svIdle :: nat
  svWaiting :: "(xstring \<times> int \<times> bool) list"
  svStop :: bool
  svCtx :: 'u

text \<open>
  \<open>svHMap\<close> is hMapFile of the main thread, \<open>svIdle\<close> the number of worker threads at DeQueue and
  \<open>svWaiting\<close> the workers in the loop that waits for the client, with the client's name, the time-out
  and hMapDataFile. The callback gets the IPC name, the request data and its size, the response
  size and its context, and gives the response data (a pointer, null when it sets none), the response
  size and the context.
\<close>

type_synonym 'u ipc_callback =
  "xstring \<Rightarrow> byte list option \<Rightarrow> nat \<Rightarrow> nat \<Rightarrow> 'u \<Rightarrow> byte list option \<times> nat \<times> 'u"

text \<open>Process::IsRunningProcess (Windows/EXProcess.cpp): \<open>proc\<close> gives the exit code of a process that
  can be opened, if there is one; 259 is STILL_ACTIVE.\<close>

definition IsRunningProcess :: "(u32 \<Rightarrow> u32 option option) \<Rightarrow> u32 \<Rightarrow> bool" where
  "IsRunningProcess proc uPID =
     (case proc uPID of None \<Rightarrow> False | Some None \<Rightarrow> False | Some (Some dwExitCode) \<Rightarrow> dwExitCode = 259)"

text \<open>One pass of the main thread's loop.\<close>

definition main_round :: "(u32 \<Rightarrow> u32 option option) \<Rightarrow> 'u ipc_server \<Rightarrow> 'u ipc_server" where
  "main_round proc sv =
     (let g = GetGlobalName (svName sv);
          sv1 = (if svHMap sv then sv
                 else case obj_open g (syStruct sv) of None \<Rightarrow> sv | Some (_, m) \<Rightarrow> sv\<lparr>syStruct := m, svHMap := True\<rparr>)
      in case syStruct sv1 g of
           None \<Rightarrow> sv1\<lparr>svHMap := False\<rparr>
         | Some (d, _) \<Rightarrow>
             (if hasRequest d \<and> \<not> IsRunningProcess proc (nSenderPID d)
              then sv1\<lparr>syStruct := obj_put g (ip_clear d) (syStruct sv1)\<rparr>
              else if hasRequest d
              then sv1\<lparr>svQueue := eq_EnQueue d (svQueue sv1),
                     syStruct := obj_close g (obj_put g (ip_clear d) (syStruct sv1)), svHMap := False\<rparr>
              else sv1\<lparr>syStruct := obj_close g (syStruct sv1), svHMap := False\<rparr>))"

text \<open>The request data of a worker: null when the data mapping cannot be had. The mapping's handle is
  not closed.\<close>

definition worker_fetch ::
    "nat \<Rightarrow> grant \<Rightarrow> stIPCData \<Rightarrow> 'x ipc_sys_scheme \<Rightarrow> (byte list option \<times> 'x ipc_sys_scheme) res" where
  "worker_fetch page grant data s =
     (if requestSize data > 512 \<or> bCheckIPC data = True then
        (case read_name (sSenderIPCName data) of
           Inl e \<Rightarrow> Inl e
         | Inr sSender \<Rightarrow>
             (let rq = GetRequestIPCName sSender; g = GetGlobalName rq in
              if mx_Open grant (mx_new rq (ipTimeout data)) s then
                (case obj_open g (syData s) of
                   None \<Rightarrow> Inr (None, s)
                 | Some (_, m) \<Rightarrow>
                     (case data_view page g m of
                        None \<Rightarrow> Inr (None, s\<lparr>syData := m\<rparr>)
                      | Some v \<Rightarrow> if requestSize data \<le> length v
                                 then Inr (Some (take (requestSize data) v), s\<lparr>syData := m\<rparr>) else Inl OutOfBounds))
              else Inr (None, s)))
      else Inr (Some (reqData data), s))"

text \<open>How serving a request ends: with \<open>continue\<close>, by leaving the worker's loop, or in the wait for the
  client, holding hMapDataFile or not.\<close>

datatype worker_end = WNext | WExit | WWait bool

definition check_msg :: "byte list" where
  "check_msg = [0xF8, 0xF7, 0xF6, 0xF5, 0xF4, 0xF3, 0xF2, 0xF1]"

text \<open>Writing the response into the client's shared memory.\<close>

definition worker_respond ::
    "nat \<Rightarrow> grant \<Rightarrow> u32 \<Rightarrow> xstring \<Rightarrow> stIPCData \<Rightarrow> byte list option \<Rightarrow> nat \<Rightarrow> xstring \<Rightarrow> 'x ipc_sys_scheme
     \<Rightarrow> (worker_end \<times> 'x ipc_sys_scheme) res" where
  "worker_respond page grant pid sIPCName data res rsz sSender s =
     (let rs = GetResponseIPCName sSender; g = GetGlobalName sSender; gd = GetGlobalName rs;
          s1 = mx_Create (mx_new rs (ipTimeout data)) s
      in if \<not> mx_Open grant (mx_new sSender (ipTimeout data)) s1 then Inr (WWait False, s1)
         else case obj_open g (syStruct s1) of
           None \<Rightarrow> Inr (WExit, s1)
         | Some (d, m) \<Rightarrow>
             (case write_name sIPCName (sSenderIPCName d) of
                Inl e \<Rightarrow> Inl e
              | Inr nm \<Rightarrow>
                  (let d1 = d\<lparr>hasResponse := True, hasRequest := False, nSenderPID := pid, sSenderIPCName := nm,
                         isInit := True, responseSize := rsz\<rparr>;
                       s2 = s1\<lparr>syStruct := obj_put g d1 m\<rparr>
                   in if rsz > 512 \<or> bCheckIPC data = True then
                        (if mx_Open grant (mx_new rs (ipTimeout data)) s2 then
                           (let md = obj_create (replicate (round_up page SHM_SIZE) 0) gd (syData s2);
                                s3 = s2\<lparr>syData := md\<rparr>
                            in case data_view page gd md of
                                 None \<Rightarrow> Inr (WWait True, s3)
                               | Some v \<Rightarrow>
                                   (case res of
                                      None \<Rightarrow> Inl NullDeref
                                    | Some bs \<Rightarrow>
                                        (if rsz \<le> length v \<and> rsz \<le> length bs
                                         then Inr (WWait True, s2\<lparr>syData := obj_put gd
                                                (take rsz bs @ drop rsz (fst (the (md gd)))) md\<rparr>)
                                         else Inl OutOfBounds)))
                         else Inr (WWait False, s2))
                      else (case res of
                              None \<Rightarrow> Inl NullDeref
                            | Some bs \<Rightarrow>
                                (if rsz \<le> length bs
                                 then Inr (WWait False, s1\<lparr>syStruct := obj_put g
                                        (d1\<lparr>resData := take rsz bs @ drop rsz (resData d1)\<rparr>) m\<rparr>)
                                 else Inl OutOfBounds)))))"

text \<open>A worker with a request, up to the wait for the client.\<close>

definition worker_serve ::
    "nat \<Rightarrow> grant \<Rightarrow> u32 \<Rightarrow> 'u ipc_callback option \<Rightarrow> stIPCData \<Rightarrow> 'u ipc_server
     \<Rightarrow> (worker_end \<times> 'u ipc_server) res" where
  "worker_serve page grant pid cb data sv =
     (if hasRequest data = False then Inr (WNext, sv)
      else case worker_fetch page grant data sv of
        Inl e \<Rightarrow> Inl e
      | Inr (req, sv1) \<Rightarrow>
          (let (res, rsz, sv2) =
             (case cb of
                None \<Rightarrow> (None, responseSize data, sv1)
              | Some f \<Rightarrow>
                  (if bCheckIPC data then (None, responseSize data, sv1)
                   else let (res, rsz, u) = f (svName sv1) req (requestSize data) (responseSize data) (svCtx sv1)
                        in (res, rsz, sv1\<lparr>svCtx := u\<rparr>)));
               (res, rsz) = (if bCheckIPC data then (Some check_msg, 8) else (res, rsz))
           in if needResponse data = False \<and> bCheckIPC data = False then Inr (WNext, sv2)
              else if rsz = 0 \<and> res = None then Inr (WNext, sv2)
              else case read_name (sSenderIPCName data) of
                Inl e \<Rightarrow> Inl e
              | Inr sSender \<Rightarrow> worker_respond page grant pid (svName sv2) data res rsz sSender sv2))"

text \<open>A round of one of the idle workers; without a request it stays in DeQueue.\<close>

definition worker_round ::
    "nat \<Rightarrow> grant \<Rightarrow> u32 \<Rightarrow> 'u ipc_callback option \<Rightarrow> 'u ipc_server \<Rightarrow> 'u ipc_server res" where
  "worker_round page grant pid cb sv =
     (if svIdle sv = 0 then Inr sv
      else case eq_DeQueue ip_zero (svQueue sv) of
        None \<Rightarrow> Inr sv
      | Some (data, q) \<Rightarrow>
          (if svStop sv then Inr (sv\<lparr>svQueue := q, svIdle := svIdle sv - 1\<rparr>)
           else case worker_serve page grant pid cb data (sv\<lparr>svQueue := q\<rparr>) of
             Inl e \<Rightarrow> Inl e
           | Inr (WNext, sv') \<Rightarrow> Inr sv'
           | Inr (WExit, sv') \<Rightarrow> Inr (sv'\<lparr>svIdle := svIdle sv' - 1\<rparr>)
           | Inr (WWait h, sv') \<Rightarrow>
               Inr (sv'\<lparr>svIdle := svIdle sv' - 1,
                       svWaiting := svWaiting sv' @ [(takeWhile (\<lambda>c. c \<noteq> 0) (sSenderIPCName data), ipTimeout data, h)]\<rparr>)))"

text \<open>The wait: nCheckTime stays 0, so it ends when the client is done or its memory gone.\<close>

definition wait_over :: "xstring \<Rightarrow> int \<Rightarrow> 'x ipc_sys_scheme \<Rightarrow> bool" where
  "wait_over sSender t s =
     (if 0 < t then (case syStruct s (GetGlobalName sSender) of None \<Rightarrow> True | Some (d, _) \<Rightarrow> isDone d = True)
      else True)"

definition worker_finish :: "nat \<Rightarrow> 'u ipc_server \<Rightarrow> 'u ipc_server option" where
  "worker_finish i sv =
     (if i < length (svWaiting sv) then
        (case svWaiting sv ! i of (sSender, t, h) \<Rightarrow>
           if wait_over sSender t sv then
             Some (sv\<lparr>svWaiting := take i (svWaiting sv) @ drop (Suc i) (svWaiting sv), svIdle := svIdle sv + 1,
                      syData := (if h then obj_close (GetGlobalName (GetResponseIPCName sSender)) (syData sv)
                                 else syData sv)\<rparr>)
           else None)
      else None)"

subsection \<open>CreateIPC\<close>

text \<open>The server CreateIPC starts (it is also put into the map mapIPC, which nothing reads). The main thread starts the workers with the numbers from 1
  to below nMaxThreadCount.\<close>

definition start_workers :: "int \<Rightarrow> nat" where
  "start_workers nMaxThreadCount = nat (nMaxThreadCount - 1)"

definition CreateIPC :: "xstring \<Rightarrow> 'u \<Rightarrow> int \<Rightarrow> 'x ipc_sys_scheme \<Rightarrow> 'u ipc_server" where
  "CreateIPC sIPCName ctx nMaxThreadCount s =
     (let g = GetGlobalName sIPCName;
          m = obj_create ip_zero g (syStruct s);
          d = fst (the (m g))
      in \<lparr>syStruct = obj_put g ((ip_clear d)\<lparr>isInit := True\<rparr>) m, syData = syData s,
          syMutex = insert sIPCName (syMutex s), svName = sIPCName, svHMap = False, svQueue = eq_new,
          svIdle = start_workers nMaxThreadCount, svWaiting = [], svStop = False, svCtx = ctx\<rparr>)"

subsection \<open>Lemmas: objects and names\<close>

lemma obj_open_Some: "m n = Some (x, k) \<Longrightarrow> obj_open n m = Some (x, m(n \<mapsto> (x, Suc k)))"
  by (simp add: obj_open_def)

lemma obj_open_None: "m n = None \<Longrightarrow> obj_open n m = None"
  by (simp add: obj_open_def)

lemma obj_put_upd [simp]: "obj_put n y (m(n \<mapsto> (x, k))) = m(n \<mapsto> (y, k))"
  by (simp add: obj_put_def)

lemma obj_close_upd [simp]: "1 \<le> k \<Longrightarrow> obj_close n (m(n \<mapsto> (x, Suc k))) = m(n \<mapsto> (x, k))"
  by (simp add: obj_close_def)

lemma write_name_ok: "length n \<le> length arr \<Longrightarrow> write_name n arr = Inr (n @ drop (length n) arr)"
  by (simp add: write_name_def)

text \<open>A name written into the array is read back with what follows in the array up to its next NUL.\<close>

lemma read_written_name:
  assumes "0 \<notin> set n" and "length n < length arr" and "0 \<in> set (drop (length n) arr)"
  shows "read_name (n @ drop (length n) arr) = Inr (n @ takeWhile (\<lambda>c. c \<noteq> 0) (drop (length n) arr))"
proof -
  have "takeWhile (\<lambda>c. c \<noteq> 0) (n @ drop (length n) arr) = n @ takeWhile (\<lambda>c. c \<noteq> 0) (drop (length n) arr)"
    using assms(1) by (intro takeWhile_append2) auto
  with assms(3) show ?thesis by (simp add: read_name_def)
qed

lemma global_name_neq: "length a \<noteq> length b \<Longrightarrow> GetGlobalName a \<noteq> GetGlobalName b"
  by (auto simp: GetGlobalName_def)

lemma length_client_name: "length sIPCName + 6 \<le> length (client_name sIPCName pid k)"
  by (simp add: client_name_def)

lemma client_global_neq [simp]:
  "GetGlobalName (client_name sIPCName pid k) \<noteq> GetGlobalName sIPCName"
  "GetGlobalName sIPCName \<noteq> GetGlobalName (client_name sIPCName pid k)"
  using length_client_name [of sIPCName pid k] by (auto intro!: global_name_neq simp del: length_append)

lemma dec_digits_nonzero: "0 \<notin> set (dec_digits n)"
proof (induction n rule: dec_digits.induct)
  case (1 n)
  have "of_nat (48 + m) \<noteq> (0 :: wchar)" if "m < 10" for m :: nat
  proof -
    have "unat (of_nat (48 + m) :: wchar) = 48 + m" using that by (simp add: unat_of_nat del: of_nat_add)
    then show ?thesis by auto
  qed
  then show ?case
    using 1 by (subst dec_digits.simps) auto
qed

lemma client_name_nonzero: "0 \<notin> set sIPCName \<Longrightarrow> 0 \<notin> set (client_name sIPCName pid k)"
  using dec_digits_nonzero by (auto simp: client_name_def to_wstring_def wlit_def)

subsection \<open>Lemmas: the steps of a small request\<close>

text \<open>The shared data after a client has placed a request of up to 512 bytes.\<close>

definition placed :: "xstring \<Rightarrow> u32 \<Rightarrow> nat \<Rightarrow> byte list \<Rightarrow> int \<Rightarrow> stIPCData \<Rightarrow> stIPCData" where
  "placed sClient pid n req t d = d\<lparr>hasResponse := False, nSenderPID := pid, requestSize := n,
     sSenderIPCName := sClient @ drop (length sClient) (sSenderIPCName d), hasRequest := True, needResponse := True,
     ipTimeout := t, bCheckIPC := False, reqData := take n req @ drop n (reqData d)\<rparr>"

lemma send_try_small:
  assumes "sIPCName \<in> syMutex s" and "\<And>x t. grant x t" and "syStruct s (GetGlobalName sIPCName) = Some (d, k)"
    and "1 \<le> k" and "isInit d" and "\<not> hasRequest d" and "length sClient \<le> length (sSenderIPCName d)"
    and "n \<le> 512" and "n \<le> length req"
  shows "send_try page grant now timeOutSec False pid sIPCName sClient n req s
     = Inr (True, req, s\<lparr>syStruct := (syStruct s)(GetGlobalName sIPCName \<mapsto>
         (placed sClient pid n req (now + timeOutSec) d, k))\<rparr>)"
  using assms by (simp add: send_try_def mx_Open_def mx_new_def obj_open_Some write_name_ok placed_def Let_def)

lemma recv_try_empty:
  assumes "syStruct s (GetGlobalName sClient) = Some (d, k)" and "1 \<le> k" and "\<not> hasResponse d"
  shows "recv_try page grant timeOutSec bCheck sClient buf rsz s = Inr (False, buf, rsz, s)"
proof -
  have "(syStruct s)(GetGlobalName sClient \<mapsto> (d, k)) = syStruct s"
    using assms(1) by (simp add: fun_upd_idem)
  then show ?thesis using assms by (simp add: recv_try_def obj_open_Some Let_def)
qed

lemma recv_try_small:
  assumes "sClient \<in> syMutex s" and "\<And>x t. grant x t" and "syStruct s (GetGlobalName sClient) = Some (d, k)" and "1 \<le> k"
    and "\<not> hasRequest d" and "hasResponse d" and "responseSize d \<le> 512" and "responseSize d \<le> length buf"
  shows "recv_try page grant timeOutSec False sClient buf rsz s
     = Inr (True, take (responseSize d) (resData d) @ drop (responseSize d) buf, responseSize d,
         s\<lparr>syStruct := (syStruct s)(GetGlobalName sClient \<mapsto> (d\<lparr>isDone := True\<rparr>, k))\<rparr>)"
  using assms by (simp add: recv_try_def mx_Open_def mx_new_def obj_open_Some Let_def)

lemma main_round_request:
  assumes "\<not> svHMap sv" and "syStruct sv (GetGlobalName (svName sv)) = Some (d, k)" and "1 \<le> k" and "hasRequest d"
    and "IsRunningProcess proc (nSenderPID d)"
  shows "main_round proc sv = sv\<lparr>svQueue := eq_EnQueue d (svQueue sv),
     syStruct := (syStruct sv)(GetGlobalName (svName sv) \<mapsto> (ip_clear d, k))\<rparr>"
  using assms by (simp add: main_round_def obj_open_Some Let_def)

lemma main_round_idle:
  assumes "\<not> svHMap sv" and "syStruct sv (GetGlobalName (svName sv)) = Some (d, k)" and "1 \<le> k" and "\<not> hasRequest d"
  shows "main_round proc sv = sv"
proof -
  have "(syStruct sv)(GetGlobalName (svName sv) \<mapsto> (d, k)) = syStruct sv"
    using assms(2) by (simp add: fun_upd_idem)
  then show ?thesis using assms by (simp add: main_round_def obj_open_Some Let_def)
qed

text \<open>The client's shared data after a response of up to 512 bytes.\<close>

definition answered :: "xstring \<Rightarrow> u32 \<Rightarrow> nat \<Rightarrow> byte list \<Rightarrow> stIPCData \<Rightarrow> stIPCData" where
  "answered sIPCName pid rsz bs d = d\<lparr>hasResponse := True, hasRequest := False, nSenderPID := pid,
     sSenderIPCName := sIPCName @ drop (length sIPCName) (sSenderIPCName d), isInit := True, responseSize := rsz,
     resData := take rsz bs @ drop rsz (resData d)\<rparr>"

lemma worker_respond_small:
  assumes "sSender \<in> syMutex s" and "\<And>x t. grant x t" and "syStruct s (GetGlobalName sSender) = Some (d, k)"
    and "length sIPCName \<le> length (sSenderIPCName d)" and "\<not> bCheckIPC data" and "rsz \<le> 512" and "rsz \<le> length bs"
  shows "worker_respond page grant pid sIPCName data (Some bs) rsz sSender s
     = Inr (WWait False, s\<lparr>syMutex := insert (GetResponseIPCName sSender) (syMutex s),
         syStruct := (syStruct s)(GetGlobalName sSender \<mapsto> (answered sIPCName pid rsz bs d, Suc k))\<rparr>)"
  using assms by (simp add: worker_respond_def mx_Open_def mx_Create_def mx_new_def obj_open_Some write_name_ok
      answered_def Let_def)

lemma worker_serve_small:
  assumes "hasRequest data" and "requestSize data \<le> 512" and "\<not> bCheckIPC data" and "needResponse data"
    and "f (svName sv) (Some (reqData data)) (requestSize data) (responseSize data) (svCtx sv) = (Some bs, rsz, u)"
    and "read_name (sSenderIPCName data) = Inr sSender"
  shows "worker_serve page grant pid (Some f) data sv
     = worker_respond page grant pid (svName sv) data (Some bs) rsz sSender (sv\<lparr>svCtx := u\<rparr>)"
  using assms by (simp add: worker_serve_def worker_fetch_def Let_def)

subsection \<open>Lemmas: a server that takes turns with the client\<close>

text \<open>What the server does while the client sleeps: a round of the main thread and one of a worker. A
  server that has crashed stays as it is.\<close>

definition server_turn ::
    "nat \<Rightarrow> grant \<Rightarrow> (u32 \<Rightarrow> u32 option option) \<Rightarrow> u32 \<Rightarrow> 'u ipc_callback \<Rightarrow> 'u ipc_server \<Rightarrow> 'u ipc_server" where
  "server_turn page grant proc pid f sv =
     (case worker_round page grant pid (Some f) (main_round proc sv) of Inl e \<Rightarrow> main_round proc sv | Inr sv' \<Rightarrow> sv')"

definition ipc_ready :: "xstring \<Rightarrow> stIPCData \<Rightarrow> 'u ipc_server \<Rightarrow> bool" where
  "ipc_ready sIPCName d sv =
     (svName sv = sIPCName \<and> \<not> svHMap sv \<and> svQueue sv = eq_new \<and> 0 < svIdle sv \<and> \<not> svStop sv
      \<and> sIPCName \<in> syMutex sv \<and> map_option fst (syStruct sv (GetGlobalName sIPCName)) = Some d
      \<and> (\<forall>x \<in> set_option (syStruct sv (GetGlobalName sIPCName)). 1 \<le> snd x)
      \<and> isInit d \<and> \<not> hasRequest d \<and> length (sSenderIPCName d) = 256 \<and> length (reqData d) = 512)"

lemma ipc_readyE:
  assumes "ipc_ready sIPCName d sv"
  obtains k where "syStruct sv (GetGlobalName sIPCName) = Some (d, k)" "1 \<le> k"
  using assms by (cases "syStruct sv (GetGlobalName sIPCName)") (auto simp: ipc_ready_def)

lemma CreateIPC_ready:
  assumes "syStruct s (GetGlobalName sIPCName) = None" and "2 \<le> nMaxThreadCount"
  shows "ipc_ready sIPCName ((ip_clear ip_zero)\<lparr>isInit := True\<rparr>) (CreateIPC sIPCName ctx nMaxThreadCount s)"
  using assms by (simp add: ipc_ready_def CreateIPC_def obj_create_def ip_clear_def ip_zero_def start_workers_def
      Let_def)

text \<open>The server's turn after a client has placed a small request whose name it can read.\<close>

lemma server_turn_answered:
  assumes "svName sv = sIPCName" and "\<not> svHMap sv" and "svQueue sv = eq_new" and "0 < svIdle sv" and "\<not> svStop sv"
    and sd: "syStruct sv (GetGlobalName sIPCName) = Some (placed sClient cpid n req t d, k)" and k: "1 \<le> k"
    and "n \<le> 512" and "IsRunningProcess proc cpid" and "\<And>x t. grant x t"
    and name: "read_name (sClient @ drop (length sClient) (sSenderIPCName d)) = Inr sSender"
    and cd: "syStruct sv (GetGlobalName sSender) = Some (dc, kc)" and neq: "GetGlobalName sSender \<noteq> GetGlobalName sIPCName"
    and mx: "sSender \<in> syMutex sv" and len: "length sIPCName \<le> length (sSenderIPCName dc)"
    and cb: "f sIPCName (Some (take n req @ drop n (reqData d))) n (responseSize d) (svCtx sv) = (Some bs, rsz, u)"
    and rsz: "rsz \<le> 512" "rsz \<le> length bs"
  shows "server_turn page grant proc pid f sv = sv\<lparr>
       syStruct := (syStruct sv)(GetGlobalName sIPCName \<mapsto> (ip_clear (placed sClient cpid n req t d), k),
         GetGlobalName sSender \<mapsto> (answered sIPCName pid rsz bs dc, Suc kc)),
       syMutex := insert (GetResponseIPCName sSender) (syMutex sv), svIdle := svIdle sv - 1,
       svWaiting := svWaiting sv @ [(sSender, t, False)], svCtx := u\<rparr>"
proof -
  let ?g = "GetGlobalName sIPCName" and ?gc = "GetGlobalName sSender" and ?data = "placed sClient cpid n req t d"
  let ?sv = "sv\<lparr>syStruct := (syStruct sv)(?g \<mapsto> (ip_clear ?data, k))\<rparr>"
  have main: "main_round proc sv = ?sv\<lparr>svQueue := eq_EnQueue ?data (svQueue sv)\<rparr>"
    using main_round_request [of sv ?data k proc] assms(1-10) by (simp add: placed_def)
  have serve: "worker_serve page grant pid (Some f) ?data ?sv
      = worker_respond page grant pid sIPCName ?data (Some bs) rsz sSender (?sv\<lparr>svCtx := u\<rparr>)"
    using worker_serve_small [of ?data f ?sv bs rsz u sSender page grant pid] assms(1,8) cb name
    by (simp add: placed_def)
  have respond: "worker_respond page grant pid sIPCName ?data (Some bs) rsz sSender (?sv\<lparr>svCtx := u\<rparr>)
      = Inr (WWait False, (?sv\<lparr>svCtx := u\<rparr>)\<lparr>syMutex := insert (GetResponseIPCName sSender) (syMutex sv),
         syStruct := (syStruct ?sv)(?gc \<mapsto> (answered sIPCName pid rsz bs dc, Suc kc))\<rparr>)"
    using worker_respond_small [of sSender "?sv\<lparr>svCtx := u\<rparr>" grant dc kc sIPCName ?data rsz bs page pid]
      assms(10) cd neq mx len rsz by (simp add: placed_def)
  have "eq_DeQueue ip_zero (eq_EnQueue ?data (svQueue sv)) = Some (?data, svQueue sv)"
    using assms(3) by (simp add: eq_DeQueue_def eq_EnQueue_def eq_new_def)
  moreover have "takeWhile (\<lambda>c. c \<noteq> 0) (sSenderIPCName ?data) = sSender"
    using name by (simp add: placed_def read_name_def split: if_splits)
  moreover have "ipTimeout ?data = t" by (simp add: placed_def)
  ultimately show ?thesis
    using serve respond assms(4,5) by (simp add: server_turn_def main worker_round_def)
qed

text \<open>SendIPC up to the first pass of its receive loop.\<close>

lemma tries_positive: "0 < timeOutSec \<Longrightarrow> \<exists>r. nat (timeOutSec * 100) = Suc (Suc r)"
  by (rule exI [of _ "nat (timeOutSec * 100) - 2"]) simp

lemma send_begin_mutex: "sClient \<in> syMutex (send_begin page t sClient n s)" "syMutex s \<subseteq> syMutex (send_begin page t sClient n s)"
  by (auto simp: send_begin_def mx_Create_def mx_new_def Let_def)

lemma send_begin_struct:
  "syStruct s (GetGlobalName sClient) = None \<Longrightarrow>
     syStruct (send_begin page t sClient n s) = (syStruct s)(GetGlobalName sClient \<mapsto> (ip_zero, 1))"
  by (simp add: send_begin_def mx_Create_def obj_create_def Let_def)

lemma send_begin_server:
  fixes sv :: "'u ipc_server"
  shows "svName (send_begin page t sClient n sv) = svName sv" "svHMap (send_begin page t sClient n sv) = svHMap sv"
    "svQueue (send_begin page t sClient n sv) = svQueue sv" "svIdle (send_begin page t sClient n sv) = svIdle sv"
    "svStop (send_begin page t sClient n sv) = svStop sv" "svCtx (send_begin page t sClient n sv) = svCtx sv"
    "svWaiting (send_begin page t sClient n sv) = svWaiting sv"
  by (simp_all add: send_begin_def mx_Create_def Let_def)

text \<open>The server and a client that has placed a small request of \<open>n\<close> bytes.\<close>

definition requested ::
    "nat \<Rightarrow> int \<Rightarrow> int \<Rightarrow> u32 \<Rightarrow> xstring \<Rightarrow> xstring \<Rightarrow> byte list \<Rightarrow> nat \<Rightarrow> 'u ipc_server \<Rightarrow> 'u ipc_server" where
  "requested page now timeOutSec pid sIPCName sClient req n sv =
     (let s = send_begin page timeOutSec sClient n sv in
      case syStruct s (GetGlobalName sIPCName) of
        None \<Rightarrow> s
      | Some (d, k) \<Rightarrow> s\<lparr>syStruct := (syStruct s)(GetGlobalName sIPCName \<mapsto>
          (placed sClient pid n req (now + timeOutSec) d, k))\<rparr>)"

lemma SendIPC_requested:
  assumes ready: "ipc_ready sIPCName d sv" and c: "sClient = client_name sIPCName pid k" and len: "length sClient < 256"
    and fresh: "syStruct sv (GetGlobalName sClient) = None" and gr: "\<And>r x t. grant r x t"
    and n: "n \<le> 512" "n \<le> length req" and r: "nat (timeOutSec * 100) = Suc (Suc r)"
  shows "SendIPC page grant env now pid k sIPCName req n buf rsz timeOutSec False sv =
     (case recv_tries env (\<lambda>r. recv_try page (grant r) timeOutSec False sClient) (Suc r) buf rsz
         (env (Suc r) (requested page now timeOutSec pid sIPCName sClient req n sv)) of
        Inl e \<Rightarrow> Inl e
      | Inr (isRecv, buf, rsz', s2) \<Rightarrow> Inr (isRecv, buf, rsz', send_end sClient n s2))"
proof -
  let ?s = "send_begin page timeOutSec sClient n sv" and ?g = "GetGlobalName sIPCName"
  let ?q = "requested page now timeOutSec pid sIPCName sClient req n sv"
  obtain kd where kd: "syStruct sv ?g = Some (d, kd)" "1 \<le> kd" using ready by (rule ipc_readyE)
  have neq: "GetGlobalName sClient \<noteq> ?g" by (simp add: c)
  have g: "syStruct ?s ?g = Some (d, kd)" using kd fresh neq by (simp add: send_begin_struct)
  have mx: "sIPCName \<in> syMutex ?s"
    using send_begin_mutex(2) [of sv page timeOutSec sClient n] ready by (auto simp: ipc_ready_def)
  have "send_try page (grant (Suc r)) now timeOutSec False pid sIPCName sClient n req ?s
      = Inr (True, req, ?s\<lparr>syStruct := (syStruct ?s)(?g \<mapsto> (placed sClient pid n req (now + timeOutSec) d, kd))\<rparr>)"
    using ready len by (intro send_try_small mx gr g kd(2) n) (auto simp: ipc_ready_def)
  also have "?s\<lparr>syStruct := (syStruct ?s)(?g \<mapsto> (placed sClient pid n req (now + timeOutSec) d, kd))\<rparr> = ?q"
    by (simp add: requested_def g Let_def)
  finally have tried: "send_try page (grant (Suc r)) now timeOutSec False pid sIPCName sClient n req ?s = Inr (True, req, ?q)" .
  have "syStruct ?q (GetGlobalName sClient) = Some (ip_zero, 1)"
    using fresh neq by (simp add: requested_def g Let_def) (simp add: send_begin_struct)
  then have "recv_try page (grant (Suc r)) timeOutSec False sClient buf rsz ?q = Inr (False, buf, rsz, ?q)"
    by (rule recv_try_empty) (simp_all add: ip_zero_def)
  with tried show ?thesis
    by (simp add: SendIPC_def r c [symmetric] Let_def split: sum.splits)
qed

lemma requested_server:
  assumes "ipc_ready sIPCName d sv" and "syStruct sv (GetGlobalName sClient) = None"
    and "GetGlobalName sClient \<noteq> GetGlobalName sIPCName"
  shows "\<exists>k. 1 \<le> k \<and> syStruct (requested page now t pid sIPCName sClient req n sv) =
      (syStruct sv)(GetGlobalName sClient \<mapsto> (ip_zero, 1),
        GetGlobalName sIPCName \<mapsto> (placed sClient pid n req (now + t) d, k))"
    and "svName (requested page now t pid sIPCName sClient req n sv) = svName sv"
    and "svHMap (requested page now t pid sIPCName sClient req n sv) = svHMap sv"
    and "svQueue (requested page now t pid sIPCName sClient req n sv) = svQueue sv"
    and "svIdle (requested page now t pid sIPCName sClient req n sv) = svIdle sv"
    and "svStop (requested page now t pid sIPCName sClient req n sv) = svStop sv"
    and "svCtx (requested page now t pid sIPCName sClient req n sv) = svCtx sv"
    and "svWaiting (requested page now t pid sIPCName sClient req n sv) = svWaiting sv"
    and "syMutex (requested page now t pid sIPCName sClient req n sv) = {sClient, GetRequestIPCName sClient} \<union> syMutex sv"
proof -
  obtain k where k: "syStruct sv (GetGlobalName sIPCName) = Some (d, k)" "1 \<le> k"
    using assms(1) by (rule ipc_readyE)
  have g: "syStruct (send_begin page t sClient n sv) (GetGlobalName sIPCName) = Some (d, k)"
    using k assms by (simp add: send_begin_struct)
  show "\<exists>k. 1 \<le> k \<and> syStruct (requested page now t pid sIPCName sClient req n sv) =
      (syStruct sv)(GetGlobalName sClient \<mapsto> (ip_zero, 1),
        GetGlobalName sIPCName \<mapsto> (placed sClient pid n req (now + t) d, k))"
    using k assms by (intro exI [of _ k]) (simp add: requested_def g send_begin_struct)
  show "svName (requested page now t pid sIPCName sClient req n sv) = svName sv"
    "svHMap (requested page now t pid sIPCName sClient req n sv) = svHMap sv"
    "svQueue (requested page now t pid sIPCName sClient req n sv) = svQueue sv"
    "svIdle (requested page now t pid sIPCName sClient req n sv) = svIdle sv"
    "svStop (requested page now t pid sIPCName sClient req n sv) = svStop sv"
    "svCtx (requested page now t pid sIPCName sClient req n sv) = svCtx sv"
    "svWaiting (requested page now t pid sIPCName sClient req n sv) = svWaiting sv"
    "syMutex (requested page now t pid sIPCName sClient req n sv) = {sClient, GetRequestIPCName sClient} \<union> syMutex sv"
    by (simp_all add: requested_def g send_begin_server) (auto simp: send_begin_def mx_Create_def mx_new_def Let_def)
qed

text \<open>A request whose client name is read with a stale rest names no client: the reply goes nowhere.\<close>

lemma server_turn_stale:
  assumes "svName sv = sIPCName" and "\<not> svHMap sv" and "svQueue sv = eq_new" and "0 < svIdle sv" and "\<not> svStop sv"
    and sd: "syStruct sv (GetGlobalName sIPCName) = Some (placed sClient cpid n req t d, k)" and k: "1 \<le> k"
    and "n \<le> 512" and "IsRunningProcess proc cpid"
    and name: "read_name (sClient @ drop (length sClient) (sSenderIPCName d)) = Inr sSender"
    and mx: "sSender \<notin> syMutex sv"
    and cb: "f sIPCName (Some (take n req @ drop n (reqData d))) n (responseSize d) (svCtx sv) = (Some bs, rsz, u)"
  shows "\<exists>sv'. server_turn page grant proc pid f sv = sv' \<and> svCtx sv' = u \<and> svQueue sv' = eq_new
     \<and> svName sv' = sIPCName \<and> \<not> svHMap sv' \<and> syStruct sv' = (syStruct sv)(GetGlobalName sIPCName \<mapsto>
         (ip_clear (placed sClient cpid n req t d), k))"
proof -
  let ?g = "GetGlobalName sIPCName" and ?data = "placed sClient cpid n req t d"
  let ?sv = "sv\<lparr>syStruct := (syStruct sv)(?g \<mapsto> (ip_clear ?data, k))\<rparr>"
  have main: "main_round proc sv = ?sv\<lparr>svQueue := eq_EnQueue ?data (svQueue sv)\<rparr>"
    using main_round_request [of sv ?data k proc] assms(1-9) by (simp add: placed_def)
  have serve: "worker_serve page grant pid (Some f) ?data ?sv
      = worker_respond page grant pid sIPCName ?data (Some bs) rsz sSender (?sv\<lparr>svCtx := u\<rparr>)"
    using worker_serve_small [of ?data f ?sv bs rsz u sSender page grant pid] assms(1,8) cb name
    by (simp add: placed_def)
  have "GetResponseIPCName sSender \<noteq> sSender"
    by (simp add: GetResponseIPCName_def wlit_def)
  then have respond: "worker_respond page grant pid sIPCName ?data (Some bs) rsz sSender (?sv\<lparr>svCtx := u\<rparr>)
      = Inr (WWait False, (?sv\<lparr>svCtx := u\<rparr>)\<lparr>syMutex := insert (GetResponseIPCName sSender) (syMutex sv)\<rparr>)"
    using mx by (simp add: worker_respond_def mx_Open_def mx_Create_def mx_new_def Let_def)
  have "eq_DeQueue ip_zero (eq_EnQueue ?data (svQueue sv)) = Some (?data, svQueue sv)"
    using assms(3) by (simp add: eq_DeQueue_def eq_EnQueue_def eq_new_def)
  then have "server_turn page grant proc pid f sv = (?sv\<lparr>svCtx := u\<rparr>)
      \<lparr>syMutex := insert (GetResponseIPCName sSender) (syMutex sv), svIdle := svIdle sv - 1,
       svWaiting := svWaiting sv @ [(takeWhile (\<lambda>c. c \<noteq> 0) (sSenderIPCName ?data), ipTimeout ?data, False)]\<rparr>"
    using serve respond assms(4,5) by (simp add: server_turn_def main worker_round_def)
  then show ?thesis using assms(1-3) by simp
qed

lemma server_turn_idle:
  assumes "svQueue sv = eq_new" and "\<not> svHMap sv" and "syStruct sv (GetGlobalName (svName sv)) = Some (d, k)" and "1 \<le> k"
    and "\<not> hasRequest d"
  shows "server_turn page grant proc pid f sv = sv"
  using main_round_idle [OF assms(2-5), of proc] assms(1)
  by (simp add: server_turn_def worker_round_def eq_DeQueue_def eq_new_def)

lemma recv_tries_idle:
  assumes "\<And>r. env r s = s" and "syStruct s (GetGlobalName sClient) = Some (d, k)" and "1 \<le> k" and "\<not> hasResponse d"
  shows "recv_tries env (\<lambda>r. recv_try page (grant r) t bCheck sClient) r buf rsz s = Inr (False, buf, rsz, s)"
  using recv_try_empty [OF assms(2-4)] by (induction r) (simp_all add: assms(1))

text \<open>A request whose client has given up: its memory is gone, its mutex is not.\<close>

lemma server_turn_gone:
  assumes "svName sv = sIPCName" and "\<not> svHMap sv" and "svQueue sv = eq_new" and "0 < svIdle sv" and "\<not> svStop sv"
    and sd: "syStruct sv (GetGlobalName sIPCName) = Some (placed sClient cpid n req t d, k)" and k: "1 \<le> k"
    and "n \<le> 512" and "IsRunningProcess proc cpid" and "\<And>x t. grant x t"
    and name: "read_name (sClient @ drop (length sClient) (sSenderIPCName d)) = Inr sSender"
    and mx: "sSender \<in> syMutex sv" and gone: "syStruct sv (GetGlobalName sSender) = None"
    and cb: "f sIPCName (Some (take n req @ drop n (reqData d))) n (responseSize d) (svCtx sv) = (Some bs, rsz, u)"
  shows "svCtx (server_turn page grant proc pid f sv) = u
     \<and> svIdle (server_turn page grant proc pid f sv) = svIdle sv - 1
     \<and> svWaiting (server_turn page grant proc pid f sv) = svWaiting sv"
proof -
  let ?g = "GetGlobalName sIPCName" and ?data = "placed sClient cpid n req t d"
  let ?sv = "sv\<lparr>syStruct := (syStruct sv)(?g \<mapsto> (ip_clear ?data, k))\<rparr>"
  have main: "main_round proc sv = ?sv\<lparr>svQueue := eq_EnQueue ?data (svQueue sv)\<rparr>"
    using main_round_request [of sv ?data k proc] assms(1-9) by (simp add: placed_def)
  have serve: "worker_serve page grant pid (Some f) ?data ?sv
      = worker_respond page grant pid sIPCName ?data (Some bs) rsz sSender (?sv\<lparr>svCtx := u\<rparr>)"
    using worker_serve_small [of ?data f ?sv bs rsz u sSender page grant pid] assms(1,8) cb name
    by (simp add: placed_def)
  have "GetGlobalName sSender \<noteq> ?g" using gone sd by auto
  then have respond: "worker_respond page grant pid sIPCName ?data (Some bs) rsz sSender (?sv\<lparr>svCtx := u\<rparr>)
      = Inr (WExit, (?sv\<lparr>svCtx := u\<rparr>)\<lparr>syMutex := insert (GetResponseIPCName sSender) (syMutex sv)\<rparr>)"
    using mx gone assms(10) by (simp add: worker_respond_def mx_Open_def mx_Create_def mx_new_def obj_open_None Let_def)
  have "eq_DeQueue ip_zero (eq_EnQueue ?data (svQueue sv)) = Some (?data, svQueue sv)"
    using assms(3) by (simp add: eq_DeQueue_def eq_EnQueue_def eq_new_def)
  then show ?thesis
    using serve respond assms(4,5) by (simp add: server_turn_def main worker_round_def)
qed

text \<open>A request of more than 512 bytes: a pass of the send loop does the same for any bytes.\<close>

definition drop_req :: "(bool \<times> byte list \<times> 'x) res \<Rightarrow> (bool \<times> 'x) res" where
  "drop_req r = (case r of Inl e \<Rightarrow> Inl e | Inr (ok, req, s) \<Rightarrow> Inr (ok, s))"

lemma send_try_large:
  "512 < n \<Longrightarrow> drop_req (send_try page grant now t bCheck pid sIPCName sClient n x s)
     = drop_req (send_try page grant now t bCheck pid sIPCName sClient n y s)"
  by (simp add: send_try_def drop_req_def Let_def split: option.splits sum.splits)

lemma send_tries_cong:
  assumes "\<And>r x y s. drop_req (pass r x s) = drop_req (pass r y s)"
  shows "send_tries env pass r x s = send_tries env pass r y s"
proof (induction r arbitrary: x y s)
  case (Suc r)
  have "drop_req (pass r x s) = drop_req (pass r y s)" by (rule assms)
  then show ?case
    using Suc.IH by (auto simp: drop_req_def split: sum.splits)
qed simp

text \<open>A call of SendIPC with a small request, answered by a turn of the server: what it returns and leaves.\<close>

lemma SendIPC_small:
  assumes "ipc_ready sIPCName d sv" and "length (client_name sIPCName pid k) < 256"
    and "sSenderIPCName d ! length (client_name sIPCName pid k) = 0" and "0 \<notin> set sIPCName"
    and "syStruct sv (GetGlobalName (client_name sIPCName pid k)) = None"
    and "\<And>r x t. grant r x t" and "\<And>x t. sgrant x t" and "IsRunningProcess proc pid"
    and "length req \<le> 512" and "0 < timeOutSec"
    and "f sIPCName (Some (req @ drop (length req) (reqData d))) (length req) (responseSize d) (svCtx sv) = (Some bs, length bs, u)"
    and "length bs \<le> 512" and "length bs \<le> length buf"
  shows "\<exists>sv'. SendIPC page grant (\<lambda>_. server_turn page sgrant proc spid f) now pid k sIPCName req (length req) buf rsz
       timeOutSec False sv = Inr (True, bs @ drop (length bs) buf, length bs, sv')
     \<and> svCtx sv' = u \<and> svWaiting sv' = svWaiting sv @ [(client_name sIPCName pid k, now + timeOutSec, False)]
     \<and> svIdle sv' = svIdle sv - 1 \<and> svName sv' = sIPCName \<and> \<not> svHMap sv' \<and> svQueue sv' = eq_new \<and> \<not> svStop sv'
     \<and> syMutex sv \<subseteq> syMutex sv'
     \<and> (\<exists>ks \<ge> 1. syStruct sv' = (syStruct sv)
          (GetGlobalName sIPCName \<mapsto> (ip_clear (placed (client_name sIPCName pid k) pid (length req) req (now + timeOutSec) d), ks),
           GetGlobalName (client_name sIPCName pid k) \<mapsto> ((answered sIPCName spid (length bs) bs ip_zero)\<lparr>isDone := True\<rparr>, 1)))"
proof -
  define c where "c = client_name sIPCName pid k"
  let ?gc = "GetGlobalName c" and ?n = "length req"
  let ?q = "requested page now timeOutSec pid sIPCName c req ?n sv"
  let ?dc = "answered sIPCName spid (length bs) bs ip_zero"
  have neq: "?gc \<noteq> GetGlobalName sIPCName" by (simp add: c_def)
  have fresh: "syStruct sv ?gc = None" using assms(5) by (simp add: c_def)
  note q = requested_server [OF assms(1) fresh neq, of page now timeOutSec pid req ?n]
  obtain ks where ks: "1 \<le> ks" and struct: "syStruct ?q = (syStruct sv)(?gc \<mapsto> (ip_zero, 1),
      GetGlobalName sIPCName \<mapsto> (placed c pid ?n req (now + timeOutSec) d, ks))" using q(1) by blast
  have arr: "length (sSenderIPCName d) = 256" using assms(1) by (simp add: ipc_ready_def)
  have "drop (length c) (sSenderIPCName d) = 0 # drop (Suc (length c)) (sSenderIPCName d)"
    using Cons_nth_drop_Suc [of "length c" "sSenderIPCName d"] assms(2,3) arr by (simp add: c_def)
  then have name: "read_name (c @ drop (length c) (sSenderIPCName d)) = Inr c"
    using read_written_name [of c "sSenderIPCName d"] client_name_nonzero [OF assms(4), of pid k] assms(2) arr
    by (simp add: c_def)
  have "length sIPCName \<le> 256"
    using assms(2) length_client_name [of sIPCName pid k] by linarith
  define sv1 where "sv1 = ?q\<lparr>syStruct := (syStruct ?q)
      (GetGlobalName sIPCName \<mapsto> (ip_clear (placed c pid ?n req (now + timeOutSec) d), ks), ?gc \<mapsto> (?dc, Suc 1)),
    syMutex := insert (GetResponseIPCName c) (syMutex ?q), svIdle := svIdle ?q - 1,
    svWaiting := svWaiting ?q @ [(c, now + timeOutSec, False)], svCtx := u\<rparr>"
  have turn: "server_turn page sgrant proc spid f ?q = sv1" unfolding sv1_def
    using \<open>length sIPCName \<le> 256\<close> assms(1,7-9,11,12) q ks neq name struct
    by (intro server_turn_answered) (auto simp: ipc_ready_def ip_zero_def)
  have s1: "syStruct sv1 ?gc = Some (?dc, Suc 1)" and mx: "syMutex ?q \<subseteq> syMutex sv1" by (auto simp: sv1_def)
  obtain r where r: "nat (timeOutSec * 100) = Suc (Suc r)" using tries_positive [OF assms(10)] by blast
  let ?sv = "sv1\<lparr>syStruct := (syStruct sv1)(?gc \<mapsto> (?dc\<lparr>isDone := True\<rparr>, Suc 1))\<rparr>"
  have recv: "recv_try page (grant r) timeOutSec False c buf rsz sv1
      = Inr (True, bs @ drop (length bs) buf, length bs, ?sv)"
    using recv_try_small [of c sv1 "grant r" ?dc "Suc 1" buf page timeOutSec rsz] s1 mx q(9) assms(6,12,13)
    by (auto simp: answered_def)
  have "SendIPC page grant (\<lambda>_. server_turn page sgrant proc spid f) now pid k sIPCName req ?n buf rsz
       timeOutSec False sv = Inr (True, bs @ drop (length bs) buf, length bs, send_end c ?n ?sv)"
    using SendIPC_requested [OF assms(1) c_def _ fresh assms(6,9) order_refl r, where page = page and now = now and buf = buf and rsz = rsz
        and env = "\<lambda>_. server_turn page sgrant proc spid f"]
      assms(2) turn recv by (simp add: c_def)
  moreover have "syStruct (send_end c ?n ?sv) = (syStruct sv)
      (GetGlobalName sIPCName \<mapsto> (ip_clear (placed c pid ?n req (now + timeOutSec) d), ks), ?gc \<mapsto> (?dc\<lparr>isDone := True\<rparr>, 1))"
    using struct neq by (simp add: send_end_def sv1_def Let_def fun_upd_twist)
  moreover have "svCtx (send_end c ?n ?sv) = u" "svWaiting (send_end c ?n ?sv) = svWaiting sv @ [(c, now + timeOutSec, False)]"
    "svIdle (send_end c ?n ?sv) = svIdle sv - 1" "svName (send_end c ?n ?sv) = sIPCName" "\<not> svHMap (send_end c ?n ?sv)"
    "svQueue (send_end c ?n ?sv) = eq_new" "\<not> svStop (send_end c ?n ?sv)" "syMutex sv \<subseteq> syMutex (send_end c ?n ?sv)"
    using q(2-9) assms(1) by (auto simp: send_end_def sv1_def ipc_ready_def Let_def)
  ultimately show ?thesis using ks unfolding c_def by blast
qed

subsection \<open>An example\<close>

text \<open>A server "S" of one worker whose name array holds \<open>arr\<close>, and a callback that answers one byte.\<close>

definition demo_data :: "xstring \<Rightarrow> stIPCData" where
  "demo_data arr = (ip_clear ip_zero)\<lparr>sSenderIPCName := arr\<rparr>"

definition demo_ipc :: "xstring \<Rightarrow> nat ipc_server" where
  "demo_ipc arr = (CreateIPC (wlit ''S'') 0 2 \<lparr>syStruct = \<lambda>_. None, syData = \<lambda>_. None, syMutex = {}\<rparr>)
     \<lparr>syStruct := [GetGlobalName (wlit ''S'') \<mapsto> (demo_data arr, 1)]\<rparr>"

definition demo_answer :: "nat ipc_callback" where
  "demo_answer nm req n rsz u = (Some [42], 1, Suc u)"

lemma demo_ready: "length arr = 256 \<Longrightarrow> ipc_ready (wlit ''S'') (demo_data arr) (demo_ipc arr)"
  by (simp add: ipc_ready_def demo_ipc_def demo_data_def CreateIPC_def ip_clear_def ip_zero_def start_workers_def Let_def)

lemma demo_client: "client_name (wlit ''S'') 4 1 = wlit ''S4Client1''"
  by (simp add: client_name_def to_wstring_def dec_digits.simps wlit_def)

lemma demo_simps:
  "0 \<notin> set (wlit ''S'')" "syStruct (demo_ipc arr) (GetGlobalName (wlit ''S4Client1'')) = None"
  "IsRunningProcess (\<lambda>_. Some (Some 259)) 4" "syMutex (demo_ipc arr) = {wlit ''S''}"
  "svIdle (demo_ipc arr) = 1" "svWaiting (demo_ipc arr) = []" "svCtx (demo_ipc arr) = 0"
  by (simp_all add: demo_ipc_def GetGlobalName_def wlit_def IsRunningProcess_def CreateIPC_def start_workers_def Let_def)

lemma stale_array:
  "length (wlit ''S4Client12'' @ replicate 246 0) = 256" "0 \<notin> set (wlit ''2'')"
  "drop 9 (wlit ''S4Client12'' @ replicate 246 0) = wlit ''2'' @ 0 # replicate 245 0"
  "wlit ''S4Client1'' @ wlit ''2'' \<notin> {wlit ''S4Client1'', GetRequestIPCName (wlit ''S4Client1''), wlit ''S''}"
proof -
  show "length (wlit ''S4Client12'' @ replicate 246 0) = 256" by simp
  have "replicate 246 (0 :: wchar) = 0 # replicate 245 0"
    using replicate_Suc [of 245 "0 :: wchar"] by (simp del: replicate_Suc)
  then show "drop 9 (wlit ''S4Client12'' @ replicate 246 0) = wlit ''2'' @ 0 # replicate 245 0"
    by (simp add: wlit_def)
qed (simp_all add: wlit_def GetRequestIPCName_def)

subsection \<open>Properties\<close>

text \<open>A request of up to 512 bytes is answered: when the server takes its turn while the client
  sleeps, SendIPC gives the caller the bytes the callback answered (up to 512) on exactly the bytes of
  the request, in the caller's buffer and with their number. It needs the name array to hold a NUL
  behind the client's name. The client's shared memory outlives the call, because the worker does
  not close its handle.\<close>

lemma ipc_small_roundtrip:
  assumes "ipc_ready sIPCName d sv" and "length (client_name sIPCName pid k) < 256"
    and "sSenderIPCName d ! length (client_name sIPCName pid k) = 0" and "0 \<notin> set sIPCName"
    and "syStruct sv (GetGlobalName (client_name sIPCName pid k)) = None"
    and "\<And>r x t. grant r x t" and "\<And>x t. sgrant x t" and "IsRunningProcess proc pid"
    and "length req \<le> 512" and "0 < timeOutSec"
    and "f sIPCName (Some (req @ drop (length req) (reqData d))) (length req) (responseSize d) (svCtx sv) = (Some bs, length bs, u)"
    and "length bs \<le> 512" and "length bs \<le> length buf"
  shows "\<exists>sv'. SendIPC page grant (\<lambda>_. server_turn page sgrant proc spid f) now pid k sIPCName req (length req) buf rsz
       timeOutSec False sv = Inr (True, bs @ drop (length bs) buf, length bs, sv')
     \<and> svCtx sv' = u \<and> syStruct sv' (GetGlobalName (client_name sIPCName pid k)) \<noteq> None"
  using SendIPC_small [where sIPCName = sIPCName and d = d and sv = sv and pid = pid and k = k and grant = grant and sgrant = sgrant
      and proc = proc and req = req and timeOutSec = timeOutSec and f = f and bs = bs and u = u and buf = buf and page = page
      and spid = spid and now = now and rsz = rsz] assms by auto

lemma ipc_small_roundtrip_witness:
  "\<exists>sv'. SendIPC 4096 (\<lambda>r x t. True) (\<lambda>_. server_turn 4096 (\<lambda>x t. True) (\<lambda>_. Some (Some 259)) 8 demo_answer) 0 4 1 (wlit ''S'')
      [1, 2] 2 [0, 0, 0] 3 10 False (demo_ipc (replicate 256 0)) = Inr (True, [42, 0, 0], 1, sv') \<and> svCtx sv' = 1
      \<and> syStruct sv' (GetGlobalName (wlit ''S4Client1'')) \<noteq> None"
  using ipc_small_roundtrip [OF demo_ready, of "replicate 256 0" 4 1 "\<lambda>r x t. True" "\<lambda>x t. True" "\<lambda>_. Some (Some 259)"
      "[1, 2]" 10 demo_answer "[42]" 1 "[0, 0, 0]" 4096 8 0 3]
  by (simp add: demo_client demo_simps demo_answer_def demo_data_def numeral_2_eq_2 [symmetric])

text \<open>The bytes of a request of more than 512 bytes are never sent: whatever the rest of the system
  does meanwhile, SendIPC returns the same and leaves the same state for any two requests of that
  size, because it copies the data mapping over its own request instead of the other way round.\<close>

lemma ipc_large_request_ignored:
  assumes "512 < n"
  shows "SendIPC page grant env now pid k sIPCName x n buf rsz timeOutSec bCheck s
       = SendIPC page grant env now pid k sIPCName y n buf rsz timeOutSec bCheck s"
  unfolding SendIPC_def Let_def
  by (subst send_tries_cong [where x = x and y = y]) (rule send_try_large [OF assms], rule refl)

lemma ipc_large_request_ignored_witness:
  "SendIPC 4096 (\<lambda>r x t. True) (\<lambda>_ s. s) 0 4 1 (wlit ''S'') (replicate 600 1) 600 [0] 1 10 False (demo_ipc (replicate 256 0))
   = SendIPC 4096 (\<lambda>r x t. True) (\<lambda>_ s. s) 0 4 1 (wlit ''S'') (replicate 600 2) 600 [0] 1 10 False (demo_ipc (replicate 256 0))"
  by (rule ipc_large_request_ignored) simp

text \<open>Names are copied into the shared memory without their terminator, so after a longer name of
  another client the server reads the new client's name with the rest \<open>w\<close> of the old one. The
  callback runs, but its answer goes to a name nobody has, and SendIPC returns false after
  polling until its time-out.\<close>

lemma ipc_stale_name_loses_reply:
  assumes "ipc_ready sIPCName d sv" and "length (client_name sIPCName pid k) < 256" and "0 \<notin> set sIPCName"
    and "drop (length (client_name sIPCName pid k)) (sSenderIPCName d) = w @ 0 # rest" and "0 \<notin> set w"
    and "client_name sIPCName pid k @ w \<notin> {client_name sIPCName pid k, GetRequestIPCName (client_name sIPCName pid k)} \<union> syMutex sv"
    and "syStruct sv (GetGlobalName (client_name sIPCName pid k)) = None"
    and "\<And>r x t. grant r x t" and "IsRunningProcess proc pid" and "length req \<le> 512" and "0 < timeOutSec"
    and "f sIPCName (Some (req @ drop (length req) (reqData d))) (length req) (responseSize d) (svCtx sv) = (Some bs, length bs, u)"
  shows "\<exists>sv'. SendIPC page grant (\<lambda>_. server_turn page sgrant proc spid f) now pid k sIPCName req (length req) buf rsz
       timeOutSec False sv = Inr (False, buf, rsz, sv') \<and> svCtx sv' = u"
proof -
  define c where "c = client_name sIPCName pid k"
  let ?gc = "GetGlobalName c" and ?n = "length req"
  let ?q = "requested page now timeOutSec pid sIPCName c req ?n sv" and ?turn = "server_turn page sgrant proc spid f"
  have neq: "?gc \<noteq> GetGlobalName sIPCName" by (simp add: c_def)
  have fresh: "syStruct sv ?gc = None" using assms(7) by (simp add: c_def)
  note q = requested_server [OF assms(1) fresh neq, of page now timeOutSec pid req ?n]
  obtain ks where ks: "1 \<le> ks" and struct: "syStruct ?q = (syStruct sv)(?gc \<mapsto> (ip_zero, 1),
      GetGlobalName sIPCName \<mapsto> (placed c pid ?n req (now + timeOutSec) d, ks))" using q(1) by blast
  have "0 \<in> set (drop (length c) (sSenderIPCName d))" using assms(4) by (simp add: c_def)
  moreover have "takeWhile (\<lambda>c. c \<noteq> 0) (w @ 0 # rest) = w"
    using assms(5) by (subst takeWhile_append2) auto
  ultimately have name: "read_name (c @ drop (length c) (sSenderIPCName d)) = Inr (c @ w)"
    using read_written_name [of c "sSenderIPCName d"] client_name_nonzero [OF assms(3), of pid k] assms(1,2,4)
    by (simp add: c_def ipc_ready_def)
  obtain sv1 where turn: "?turn ?q = sv1" and ctx: "svCtx sv1 = u" and qu: "svQueue sv1 = eq_new"
    and nm: "svName sv1 = sIPCName" and hm: "\<not> svHMap sv1"
    and s1: "syStruct sv1 = (syStruct ?q)(GetGlobalName sIPCName \<mapsto> (ip_clear (placed c pid ?n req (now + timeOutSec) d), ks))"
    using server_turn_stale [where sv = ?q and sIPCName = sIPCName and sClient = c and cpid = pid and n = ?n and req = req
        and t = "now + timeOutSec" and d = d and k = ks and proc = proc and grant = sgrant and sSender = "c @ w"
        and f = f and bs = bs and rsz = "length bs" and u = u and page = page and pid = spid]
      assms(1,6,9,10,12) q ks name struct by (auto simp: ipc_ready_def c_def)
  have idle: "?turn sv1 = sv1"
    using server_turn_idle [OF qu hm, where k = ks] nm s1 ks by (simp add: ip_clear_def)
  have "recv_tries (\<lambda>_. ?turn) (\<lambda>r. recv_try page (grant r) timeOutSec False c) r buf rsz sv1 = Inr (False, buf, rsz, sv1)" for r
    using s1 struct neq by (intro recv_tries_idle [where k = 1 and d = ip_zero]) (simp_all add: idle ip_zero_def)
  moreover obtain r where r: "nat (timeOutSec * 100) = Suc (Suc r)" using tries_positive [OF assms(11)] by blast
  ultimately have "SendIPC page grant (\<lambda>_. ?turn) now pid k sIPCName req ?n buf rsz timeOutSec False sv
      = Inr (False, buf, rsz, send_end c ?n sv1)"
    using SendIPC_requested [OF assms(1) c_def _ fresh assms(8,10) order_refl r, where page = page and now = now and buf = buf
        and rsz = rsz and env = "\<lambda>_. ?turn"] assms(2) turn by (simp only: c_def) simp
  then show ?thesis using ctx by (simp add: send_end_def Let_def)
qed

lemma ipc_stale_name_loses_reply_witness:
  "\<exists>sv'. SendIPC 4096 (\<lambda>r x t. True) (\<lambda>_. server_turn 4096 (\<lambda>x t. True) (\<lambda>_. Some (Some 259)) 8 demo_answer) 0 4 1 (wlit ''S'')
      [1, 2] 2 [0, 0, 0] 3 10 False (demo_ipc (wlit ''S4Client12'' @ replicate 246 0)) = Inr (False, [0, 0, 0], 3, sv')
      \<and> svCtx sv' = 1"
proof -
  define arr where "arr = wlit ''S4Client12'' @ replicate 246 0"
  note st = stale_array [folded arr_def]
  show ?thesis
    unfolding arr_def [symmetric]
    using ipc_stale_name_loses_reply [OF demo_ready [OF st(1)], of 4 1 "wlit ''2''" "replicate 245 0" "\<lambda>r x t. True"
        "\<lambda>_. Some (Some 259)" "[1, 2]" 10 demo_answer "[42]" 1 4096 "\<lambda>x t. True" 8 0 "[0, 0, 0]" 3] st
    by (simp add: demo_client demo_simps demo_answer_def demo_data_def numeral_2_eq_2 [symmetric])
qed

text \<open>A client that gives up costs the server a worker: when no turn of the server comes before the
  time-out, SendIPC returns false and removes its shared memory, but its request stays. The worker
  that takes it runs the callback, finds the memory gone and leaves its loop for good.\<close>

lemma ipc_timeout_ends_worker:
  assumes "ipc_ready sIPCName d sv" and "length (client_name sIPCName pid k) < 256"
    and "sSenderIPCName d ! length (client_name sIPCName pid k) = 0" and "0 \<notin> set sIPCName"
    and "syStruct sv (GetGlobalName (client_name sIPCName pid k)) = None"
    and "\<And>r x t. grant r x t" and "\<And>x t. sgrant x t" and "IsRunningProcess proc pid"
    and "length req \<le> 512" and "0 < timeOutSec"
    and "f sIPCName (Some (req @ drop (length req) (reqData d))) (length req) (responseSize d) (svCtx sv) = (Some bs, length bs, u)"
  shows "\<exists>sv'. SendIPC page grant (\<lambda>_ s. s) now pid k sIPCName req (length req) buf rsz timeOutSec False sv
       = Inr (False, buf, rsz, sv')
     \<and> svIdle (server_turn page sgrant proc spid f sv') + length (svWaiting (server_turn page sgrant proc spid f sv')) + 1
       = svIdle sv + length (svWaiting sv)
     \<and> svCtx (server_turn page sgrant proc spid f sv') = u"
proof -
  define c where "c = client_name sIPCName pid k"
  let ?gc = "GetGlobalName c" and ?n = "length req"
  let ?q = "requested page now timeOutSec pid sIPCName c req ?n sv"
  let ?e = "send_end c ?n ?q"
  have neq: "?gc \<noteq> GetGlobalName sIPCName" by (simp add: c_def)
  have fresh: "syStruct sv ?gc = None" using assms(5) by (simp add: c_def)
  note q = requested_server [OF assms(1) fresh neq, of page now timeOutSec pid req ?n]
  obtain ks where ks: "1 \<le> ks" and struct: "syStruct ?q = (syStruct sv)(?gc \<mapsto> (ip_zero, 1),
      GetGlobalName sIPCName \<mapsto> (placed c pid ?n req (now + timeOutSec) d, ks))" using q(1) by blast
  have arr: "length (sSenderIPCName d) = 256" using assms(1) by (simp add: ipc_ready_def)
  have "drop (length c) (sSenderIPCName d) = 0 # drop (Suc (length c)) (sSenderIPCName d)"
    using Cons_nth_drop_Suc [of "length c" "sSenderIPCName d"] assms(2,3) arr by (simp add: c_def)
  then have name: "read_name (c @ drop (length c) (sSenderIPCName d)) = Inr c"
    using read_written_name [of c "sSenderIPCName d"] client_name_nonzero [OF assms(4), of pid k] assms(2) arr
    by (simp add: c_def)
  obtain r where r: "nat (timeOutSec * 100) = Suc (Suc r)" using tries_positive [OF assms(10)] by blast
  have "recv_tries (\<lambda>_ s. s) (\<lambda>r. recv_try page (grant r) timeOutSec False c) r buf rsz ?q = Inr (False, buf, rsz, ?q)" for r
    using struct neq by (intro recv_tries_idle [where k = 1 and d = ip_zero]) (simp_all add: ip_zero_def)
  then have send: "SendIPC page grant (\<lambda>_ s. s) now pid k sIPCName req ?n buf rsz timeOutSec False sv
      = Inr (False, buf, rsz, ?e)"
    using SendIPC_requested [OF assms(1) c_def _ fresh assms(6,9) order_refl r, where page = page and now = now and buf = buf
        and rsz = rsz and env = "\<lambda>_ s. s"] assms(2) by (simp only: c_def) simp
  have e: "syStruct ?e = (syStruct ?q)(?gc := None)" "svName ?e = sIPCName" "\<not> svHMap ?e" "svQueue ?e = eq_new"
    "svIdle ?e = svIdle sv" "\<not> svStop ?e" "svCtx ?e = svCtx sv" "svWaiting ?e = svWaiting sv" "c \<in> syMutex ?e"
    using q(2-9) assms(1) struct neq by (simp_all add: send_end_def obj_close_def ipc_ready_def Let_def)
  have pos: "0 < svIdle sv" using assms(1) by (simp add: ipc_ready_def)
  have "svCtx (server_turn page sgrant proc spid f ?e) = u
     \<and> svIdle (server_turn page sgrant proc spid f ?e) = svIdle ?e - 1
     \<and> svWaiting (server_turn page sgrant proc spid f ?e) = svWaiting ?e"
    using e pos struct neq ks assms(7-9,11) name
    by (intro server_turn_gone [where sClient = c and cpid = pid and n = ?n and req = req and t = "now + timeOutSec"
          and d = d and k = ks and sSender = c and bs = bs and rsz = "length bs" and sIPCName = sIPCName]) simp_all
  with send e pos show ?thesis by auto
qed

lemma ipc_timeout_ends_worker_witness:
  "\<exists>sv'. SendIPC 4096 (\<lambda>r x t. True) (\<lambda>_ s. s) 0 4 1 (wlit ''S'') [1, 2] 2 [0, 0, 0] 3 10 False (demo_ipc (replicate 256 0))
        = Inr (False, [0, 0, 0], 3, sv')
      \<and> svIdle (server_turn 4096 (\<lambda>x t. True) (\<lambda>_. Some (Some 259)) 8 demo_answer sv') = 0"
  using ipc_timeout_ends_worker [OF demo_ready, of "replicate 256 0" 4 1 "\<lambda>r x t. True" "\<lambda>x t. True" "\<lambda>_. Some (Some 259)"
      "[1, 2]" 10 demo_answer "[42]" 1 4096 0 "[0, 0, 0]" 3 8]
  by (auto simp: demo_client demo_simps demo_answer_def demo_data_def numeral_2_eq_2 [symmetric])

end
