(* ===== verification/Tls_Socket.thy ===== *)
theory Tls_Socket
  imports Tcp_Socket
begin

text \<open>
  The TLS layer (Network/include/Socket/SecureSocket.cpp, TCPSSLClient.cpp, TCPSSLServer.cpp) over
  the TCP layer. OpenSSL is the record \<open>ossl\<close> of the calls the sources make, on the same outside world
  \<open>'w\<close> as the socket calls; SSL and SSL_CTX pointers are numbers and a null pointer is \<open>None\<close>. A call
  with a null SSL pointer is \<open>Inl NullDeref\<close>. The answers that are at most 0 differ only in the log,
  which is not modelled, so a failed SSL_read is the empty list. The methods of both classes that
  hand over to the TCP layer unchanged (timeouts) are its definitions.
\<close>

datatype OpenSSLProtocol = TLS_V1 | SSL_V23 | TLS

datatype SSL_METHOD = TLSv1_method bool | SSLv23_method bool | TLS_method bool  \<comment> \<open>the flag is the server's\<close>

record 'w ossl =
  ssl_CTX_new :: "SSL_METHOD \<Rightarrow> 'w \<Rightarrow> nat option \<times> 'w"
  ssl_CTX_free :: "nat \<Rightarrow> 'w \<Rightarrow> 'w"
  ssl_use_certificate_file :: "nat \<Rightarrow> byte list \<Rightarrow> 'w \<Rightarrow> int \<times> 'w"
  ssl_load_verify_locations :: "nat \<Rightarrow> byte list \<Rightarrow> 'w \<Rightarrow> int \<times> 'w"
  ssl_set_verify_depth :: "nat \<Rightarrow> int \<Rightarrow> 'w \<Rightarrow> 'w"
  ssl_use_PrivateKey_file :: "nat \<Rightarrow> byte list \<Rightarrow> 'w \<Rightarrow> int \<times> 'w"
  ssl_new :: "nat \<Rightarrow> 'w \<Rightarrow> nat option \<times> 'w"
  ssl_set_fd :: "nat \<Rightarrow> int \<Rightarrow> 'w \<Rightarrow> 'w"
  ssl_connect :: "nat \<Rightarrow> 'w \<Rightarrow> int \<times> 'w"
  ssl_accept :: "nat \<Rightarrow> 'w \<Rightarrow> int \<times> 'w"
  ssl_write :: "nat \<Rightarrow> byte list \<Rightarrow> int \<Rightarrow> 'w \<Rightarrow> int \<times> 'w"
  ssl_read :: "nat \<Rightarrow> int \<Rightarrow> 'w \<Rightarrow> byte list \<times> 'w"
  ssl_has_pending :: "nat \<Rightarrow> 'w \<Rightarrow> int"
  ssl_pending :: "nat \<Rightarrow> 'w \<Rightarrow> int"
  ssl_shutdown :: "nat \<Rightarrow> 'w \<Rightarrow> int \<times> 'w"
  ssl_free :: "nat \<Rightarrow> 'w \<Rightarrow> 'w"

subsection \<open>SecureSocket.cpp\<close>

record SSLSocket =
  skFd :: int
  skSSL :: "nat option"
  skCTX :: "nat option"
  skMTHD :: "SSL_METHOD option"

definition sk_new :: SSLSocket where
  "sk_new = \<lparr>skFd = INVALID_SOCKET, skSSL = None, skCTX = None, skMTHD = None\<rparr>"

text \<open>The move constructor: the new object, and the one moved from.\<close>

definition sk_move :: "SSLSocket \<Rightarrow> SSLSocket \<times> SSLSocket" where
  "sk_move Sockother = (Sockother, sk_new)"

record secure_settings =
  ssProtocol :: OpenSSLProtocol
  ssCAFile :: "byte list"
  ssCertFile :: "byte list"
  ssKeyFile :: "byte list"

definition client_method :: "OpenSSLProtocol \<Rightarrow> SSL_METHOD" where
  "client_method p = (case p of TLS \<Rightarrow> TLS_method False | SSL_V23 \<Rightarrow> SSLv23_method False | TLS_V1 \<Rightarrow> TLSv1_method False)"

definition server_method :: "OpenSSLProtocol \<Rightarrow> SSL_METHOD" where
  "server_method p = (case p of TLS \<Rightarrow> TLS_method True | TLS_V1 \<Rightarrow> TLSv1_method True | SSL_V23 \<Rightarrow> SSLv23_method True)"

definition SetUpCtxClient :: "'w ossl \<Rightarrow> secure_settings \<Rightarrow> SSLSocket \<Rightarrow> 'w \<Rightarrow> SSLSocket \<times> 'w" where
  "SetUpCtxClient ossl st sk w =
     (let mt = client_method (ssProtocol st); (ctx, w') = ssl_CTX_new ossl mt w
      in (sk\<lparr>skMTHD := Some mt, skCTX := ctx\<rparr>, w'))"

definition SetUpCtxServer :: "'w ossl \<Rightarrow> secure_settings \<Rightarrow> SSLSocket \<Rightarrow> 'w \<Rightarrow> SSLSocket \<times> 'w" where
  "SetUpCtxServer ossl st sk w =
     (let mt = server_method (ssProtocol st); (ctx, w') = ssl_CTX_new ossl mt w
      in (sk\<lparr>skMTHD := Some mt, skCTX := ctx\<rparr>, w'))"

definition ShutdownSSL :: "'w ossl \<Rightarrow> SSLSocket \<Rightarrow> 'w \<Rightarrow> SSLSocket \<times> 'w" where
  "ShutdownSSL ossl sk w =
     (case skSSL sk of
        None \<Rightarrow> (sk, w)
      | Some s \<Rightarrow>
          (let w1 = ssl_free ossl s (snd (ssl_shutdown ossl s w))
           in (sk\<lparr>skSSL := None\<rparr>, case skCTX sk of None \<Rightarrow> w1 | Some ctx \<Rightarrow> ssl_CTX_free ossl ctx w1)))"

text \<open>Loading the certificate, the trusted CA and the private key, the same steps in the client and in
  the server: whether all of them worked.\<close>

definition load_cert :: "'w ossl \<Rightarrow> secure_settings \<Rightarrow> nat \<Rightarrow> 'w \<Rightarrow> bool \<times> 'w" where
  "load_cert ossl st ctx w =
     (if ssCertFile st = [] then (True, w)
      else let (r, w') = ssl_use_certificate_file ossl ctx (ssCertFile st) w in (\<not> r \<le> 0, w'))"

definition load_ca :: "'w ossl \<Rightarrow> secure_settings \<Rightarrow> nat \<Rightarrow> 'w \<Rightarrow> bool \<times> 'w" where
  "load_ca ossl st ctx w =
     (if ssCAFile st = [] then (True, w)
      else let (r, w') = ssl_load_verify_locations ossl ctx (ssCAFile st) w in
        if r = 0 then (False, w') else (True, ssl_set_verify_depth ossl ctx 1 w'))"

definition load_key :: "'w ossl \<Rightarrow> secure_settings \<Rightarrow> nat \<Rightarrow> 'w \<Rightarrow> bool \<times> 'w" where
  "load_key ossl st ctx w =
     (if ssKeyFile st = [] then (True, w)
      else let (r, w') = ssl_use_PrivateKey_file ossl ctx (ssKeyFile st) w in (\<not> r \<le> 0, w'))"

definition load_files :: "'w ossl \<Rightarrow> secure_settings \<Rightarrow> nat \<Rightarrow> 'w \<Rightarrow> bool \<times> 'w" where
  "load_files ossl st ctx w =
     (let (ok1, w1) = load_cert ossl st ctx w in
      if \<not> ok1 then (False, w1)
      else let (ok2, w2) = load_ca ossl st ctx w1 in
        if \<not> ok2 then (False, w2) else load_key ossl st ctx w2)"

subsection \<open>Sending and receiving\<close>

text \<open>The do-while loops, the same in both classes; the length argument of SSL_write and SSL_read is an
  int.\<close>

partial_function (option) tls_send_loop ::
    "'w ossl \<Rightarrow> nat \<Rightarrow> byte list \<Rightarrow> int \<Rightarrow> 'w \<Rightarrow> (bool \<times> 'w) option" where
  "tls_send_loop ossl s pData tot w =
     (let (nSent, w') = ssl_write ossl s (drop (nat tot) pData)
            (to_int32 (int (size_sub (length pData) (to_size tot)))) w in
      if nSent \<le> 0 then Some (False, w')
      else let tot' = to_int32 (tot + nSent) in
        if to_size tot' < length pData then tls_send_loop ossl s pData tot' w' else Some (True, w'))"

declare tls_send_loop.simps [code]

partial_function (option) tls_recv_loop ::
    "'w ossl \<Rightarrow> nat \<Rightarrow> nat \<Rightarrow> bool \<Rightarrow> int \<Rightarrow> byte list \<Rightarrow> 'w \<Rightarrow> (int \<times> byte list \<times> 'w) res option" where
  "tls_recv_loop ossl s uSize bReadFully tot buf w =
     (let (d, w') = ssl_read ossl s (to_int32 (int (size_sub uSize (to_size tot)))) w in
      if d = [] then Some (Inr (tot, buf, w'))
      else case write_at buf tot d of
        Inl e \<Rightarrow> Some (Inl e)
      | Inr buf' \<Rightarrow>
          (let tot' = to_int32 (tot + int (length d)) in
           if bReadFully \<and> to_size tot' < uSize
           then tls_recv_loop ossl s uSize bReadFully tot' buf' w'
           else Some (Inr (tot', buf', w'))))"

declare tls_recv_loop.simps [code]

subsection \<open>CTCPSSLClient\<close>

record tls_client =
  tlSettings :: secure_settings
  tlTcp :: tcp_client
  tlSock :: SSLSocket

definition tl_new :: "secure_settings \<Rightarrow> tls_client" where
  "tl_new st = \<lparr>tlSettings = st, tlTcp = tc_new, tlSock = sk_new\<rparr>"

definition tl_Connect ::
    "'w os \<Rightarrow> 'w ossl \<Rightarrow> bool \<Rightarrow> byte list \<Rightarrow> byte list \<Rightarrow> tls_client \<Rightarrow> 'w \<Rightarrow> (bool \<times> tls_client \<times> 'w) res" where
  "tl_Connect os ossl win strServer strPort c w =
     (case tc_Connect os win strServer strPort (tlTcp c) w of
        Inl e \<Rightarrow> Inl e
      | Inr (ok, tcp, w1) \<Rightarrow>
          (if \<not> ok then Inr (False, c\<lparr>tlTcp := tcp\<rparr>, w1)
           else let (sk, w2) = SetUpCtxClient ossl (tlSettings c) ((tlSock c)\<lparr>skFd := tcSocket tcp\<rparr>) w1;
                    c1 = c\<lparr>tlTcp := tcp, tlSock := sk\<rparr>
             in case skCTX sk of
                  None \<Rightarrow> Inr (False, c1, w2)
                | Some ctx \<Rightarrow>
                    (let (loaded, w3) = load_files ossl (tlSettings c) ctx w2 in
                     if \<not> loaded then Inr (False, c1, w3)
                     else let (s, w4) = ssl_new ossl ctx w3 in
                       case s of
                         None \<Rightarrow> Inl NullDeref
                       | Some s \<Rightarrow>
                           (let (iResult, w5) = ssl_connect ossl s (ssl_set_fd ossl s (skFd sk) w4)
                            in Inr (iResult > 0, c1\<lparr>tlSock := sk\<lparr>skSSL := Some s\<rparr>\<rparr>, w5)))))"

definition tl_Send :: "'w ossl \<Rightarrow> byte list \<Rightarrow> tls_client \<Rightarrow> 'w \<Rightarrow> (bool \<times> 'w) res option" where
  "tl_Send ossl pData c w =
     (if tcStatus (tlTcp c) \<noteq> CONNECTED then Some (Inr (False, w))
      else case skSSL (tlSock c) of
        None \<Rightarrow> Some (Inl NullDeref)
      | Some s \<Rightarrow> map_option Inr (tls_send_loop ossl s pData 0 w))"

definition tl_HasPending :: "'w ossl \<Rightarrow> tls_client \<Rightarrow> 'w \<Rightarrow> bool res" where
  "tl_HasPending ossl c w =
     (case skSSL (tlSock c) of None \<Rightarrow> Inl NullDeref | Some s \<Rightarrow> Inr (ssl_has_pending ossl s w = 1))"

definition tl_PendingBytes :: "'w ossl \<Rightarrow> tls_client \<Rightarrow> 'w \<Rightarrow> int res" where
  "tl_PendingBytes ossl c w =
     (case skSSL (tlSock c) of None \<Rightarrow> Inl NullDeref | Some s \<Rightarrow> Inr (ssl_pending ossl s w))"

definition tl_Receive ::
    "'w ossl \<Rightarrow> byte list \<Rightarrow> bool \<Rightarrow> tls_client \<Rightarrow> 'w \<Rightarrow> (int \<times> byte list \<times> 'w) res option" where
  "tl_Receive ossl buf bReadFully c w =
     (if tcStatus (tlTcp c) \<noteq> CONNECTED then Some (Inr (-1, buf, w))
      else case skSSL (tlSock c) of
        None \<Rightarrow> Some (Inl NullDeref)
      | Some s \<Rightarrow> tls_recv_loop ossl s (length buf) bReadFully 0 buf w)"

definition tl_Disconnect :: "'w os \<Rightarrow> 'w ossl \<Rightarrow> bool \<Rightarrow> tls_client \<Rightarrow> 'w \<Rightarrow> bool \<times> tls_client \<times> 'w" where
  "tl_Disconnect os ossl win c w =
     (if tcStatus (tlTcp c) \<noteq> CONNECTED then (True, c, w)
      else let (sk, w1) = ShutdownSSL ossl (tlSock c) w;
               (ok, tcp, w2) = tc_Disconnect os win (tlTcp c) w1
        in (ok, c\<lparr>tlSock := sk, tlTcp := tcp\<rparr>, w2))"

text \<open>The destructor and, after its body, that of the member m_TCPClient.\<close>

definition tl_destroy :: "'w os \<Rightarrow> 'w ossl \<Rightarrow> bool \<Rightarrow> tls_client \<Rightarrow> 'w \<Rightarrow> 'w" where
  "tl_destroy os ossl win c w =
     (if tcStatus (tlTcp c) = CONNECTED then
        (let (_, c1, w1) = tl_Disconnect os ossl win c w; (_, tcp, w2) = tc_Disconnect os win (tlTcp c1) w1
         in tc_destroy os win tcp w2)
      else tc_destroy os win (tlTcp c) w)"

subsection \<open>CTCPSSLServer\<close>

record tls_server =
  tsSettings :: secure_settings
  tsTcp :: tcp_server

definition ts_Listen ::
    "'w os \<Rightarrow> 'w ossl \<Rightarrow> bool \<Rightarrow> nat \<Rightarrow> SSLSocket \<Rightarrow> tls_server \<Rightarrow> 'w \<Rightarrow> (bool \<times> SSLSocket \<times> tls_server \<times> 'w) res" where
  "ts_Listen os ossl win msec ClientSocket sv w =
     (case sv_Listen os win msec (tsTcp sv) w of
        Inl e \<Rightarrow> Inl e
      | Inr ((fd, ok), tcp, w1) \<Rightarrow>
          (let sk0 = ClientSocket\<lparr>skFd := fd\<rparr>; sv1 = sv\<lparr>tsTcp := tcp\<rparr> in
           if \<not> ok then Inr (False, sk0, sv1, w1)
           else let (sk, w2) = SetUpCtxServer ossl (tsSettings sv) sk0 w1 in
             case skCTX sk of
               None \<Rightarrow> Inr (False, sk, sv1, w2)
             | Some ctx \<Rightarrow>
                 (let (loaded, w3) = load_files ossl (tsSettings sv) ctx w2 in
                  if \<not> loaded then Inr (False, sk, sv1, w3)
                  else let (s, w4) = ssl_new ossl ctx w3 in
                    case s of
                      None \<Rightarrow> Inl NullDeref
                    | Some s \<Rightarrow>
                        (let (iSSLErr, w5) = ssl_accept ossl s (ssl_set_fd ossl s (skFd sk) w4);
                             sk1 = sk\<lparr>skSSL := Some s\<rparr>
                         in if iSSLErr \<le> 0
                            then (let (sk2, w6) = ShutdownSSL ossl sk1 w5 in Inr (False, sk2, sv1, w6))
                            else Inr (True, sk1, sv1, w5)))))"

definition ts_HasPending :: "'w ossl \<Rightarrow> SSLSocket \<Rightarrow> 'w \<Rightarrow> bool res" where
  "ts_HasPending ossl sk w =
     (case skSSL sk of None \<Rightarrow> Inl NullDeref | Some s \<Rightarrow> Inr (ssl_has_pending ossl s w = 1))"

definition ts_PendingBytes :: "'w ossl \<Rightarrow> SSLSocket \<Rightarrow> 'w \<Rightarrow> int res" where
  "ts_PendingBytes ossl sk w = (case skSSL sk of None \<Rightarrow> Inl NullDeref | Some s \<Rightarrow> Inr (ssl_pending ossl s w))"

definition ts_Receive ::
    "'w ossl \<Rightarrow> SSLSocket \<Rightarrow> byte list \<Rightarrow> bool \<Rightarrow> 'w \<Rightarrow> (int \<times> byte list \<times> 'w) res option" where
  "ts_Receive ossl sk buf bReadFully w =
     (case skSSL sk of
        None \<Rightarrow> Some (Inl NullDeref)
      | Some s \<Rightarrow> tls_recv_loop ossl s (length buf) bReadFully 0 buf w)"

definition ts_Send :: "'w ossl \<Rightarrow> SSLSocket \<Rightarrow> byte list \<Rightarrow> 'w \<Rightarrow> (bool \<times> 'w) res option" where
  "ts_Send ossl sk pData w =
     (case skSSL sk of
        None \<Rightarrow> Some (Inl NullDeref)
      | Some s \<Rightarrow> map_option Inr (tls_send_loop ossl s pData 0 w))"

definition ts_Disconnect :: "'w os \<Rightarrow> 'w ossl \<Rightarrow> bool \<Rightarrow> SSLSocket \<Rightarrow> 'w \<Rightarrow> bool \<times> SSLSocket \<times> 'w" where
  "ts_Disconnect os ossl win sk w =
     (let (sk1, w1) = ShutdownSSL ossl sk w; (ok, w2) = sv_Disconnect os win (skFd sk1) w1 in (ok, sk1, w2))"

subsection \<open>A connection between two ends\<close>

text \<open>
  What OpenSSL documents of a connection that stays up, written on at the end \<open>s\<close> and read at the end
  \<open>r\<close>: SSL_write takes a non-empty prefix of its data, SSL_read gives a non-empty prefix of what has
  been written and not yet read (\<open>src\<close>), and no more than asked for.
\<close>

definition ssl_takes :: "'w ossl \<Rightarrow> nat \<Rightarrow> ('w \<Rightarrow> byte list) \<Rightarrow> bool" where
  "ssl_takes ossl s src = (\<forall>d w n w'. d \<noteq> [] \<longrightarrow> ssl_write ossl s d (int (length d)) w = (n, w') \<longrightarrow>
     0 < n \<and> nat n \<le> length d \<and> src w' = src w @ take (nat n) d)"

definition ssl_gives :: "'w ossl \<Rightarrow> nat \<Rightarrow> ('w \<Rightarrow> byte list) \<Rightarrow> bool" where
  "ssl_gives ossl r src = (\<forall>len w d w'. 0 < len \<longrightarrow> src w \<noteq> [] \<longrightarrow> ssl_read ossl r len w = (d, w') \<longrightarrow>
     d \<noteq> [] \<and> length d \<le> nat len \<and> src w = d @ src w')"

definition ssl_pipe :: "'w ossl \<Rightarrow> nat \<Rightarrow> nat \<Rightarrow> ('w \<Rightarrow> byte list) \<Rightarrow> bool" where
  "ssl_pipe ossl s r src = (ssl_takes ossl s src \<and> ssl_gives ossl r src)"

definition tls_part :: "'w ossl \<Rightarrow> nat \<Rightarrow> byte list \<Rightarrow> int \<Rightarrow> 'w \<Rightarrow> int \<times> 'w" where
  "tls_part ossl s d tot = ssl_write ossl s (drop (nat tot) d) (to_int32 (int (size_sub (length d) (to_size tot))))"

interpretation tls: sending_loop "tls_part ossl s" "tls_send_loop ossl s" for ossl s
proof
  fix d tot n and w w' :: 'a
  assume "tls_part ossl s d tot w = (n, w')" and "0 < n"
  then show "tls_send_loop ossl s d tot w =
      (if to_size (to_int32 (tot + n)) < length d then tls_send_loop ossl s d (to_int32 (tot + n)) w' else Some (True, w'))"
    by (subst tls_send_loop.simps) (simp add: tls_part_def)
qed

lemma part_len:
  assumes "0 \<le> tot" and "nat tot \<le> n" and "n < 2 ^ 31"
  shows "to_int32 (int (size_sub n (to_size tot))) = int (n - nat tot)"
proof -
  have n: "n < 2147483648" using assms(3) by simp
  then have "tot < 2 ^ 64" using assms(1,2) by simp
  then have "to_size tot = nat tot" using assms(1) by (rule to_size_nonneg [rotated])
  then have "size_sub n (to_size tot) = n - nat tot"
    using assms(2) n by (simp add: size_sub_le)
  then show ?thesis using n by (simp add: to_int32_id)
qed

lemma tls_send_all:
  assumes "ssl_takes ossl s src" and "d \<noteq> []" and "length d < 2 ^ 31"
  shows "\<exists>w'. tls_send_loop ossl s d 0 w = Some (True, w') \<and> src w' = src w @ d"
proof -
  have "tls.takes ossl s src d"
    unfolding tls.takes_def
  proof (intro allI impI)
    fix tot w assume tot: "0 \<le> tot" "nat tot < length d"
    obtain n w' where n: "ssl_write ossl s (drop (nat tot) d) (int (length (drop (nat tot) d))) w = (n, w')"
      by fastforce
    have part: "tls_part ossl s d tot w = (n, w')"
      using n tot part_len [of tot "length d"] assms(3) by (simp add: tls_part_def)
    have "drop (nat tot) d \<noteq> []" using tot by simp
    with assms(1) n have "0 < n \<and> nat n \<le> length (drop (nat tot) d) \<and> src w' = src w @ take (nat n) (drop (nat tot) d)"
      unfolding ssl_takes_def by blast
    then show "0 < fst (tls_part ossl s d tot w) \<and> nat (fst (tls_part ossl s d tot w)) \<le> length d - nat tot \<and>
        src (snd (tls_part ossl s d tot w)) = src w @ take (nat (fst (tls_part ossl s d tot w))) (drop (nat tot) d)"
      by (simp add: part)
  qed
  from tls.loop_sends_all [OF this, of 0 w] assms(2,3) show ?thesis by simp
qed

lemma tls_recv_full:
  assumes "ssl_gives ossl r src" and "n < 2 ^ 31"
  shows "tot < n \<Longrightarrow> n \<le> length buf \<Longrightarrow> n - tot \<le> length (src w) \<Longrightarrow>
    \<exists>w'. tls_recv_loop ossl r n True (int tot) buf w
        = Some (Inr (int n, put buf tot (take (n - tot) (src w)), w')) \<and> src w' = drop (n - tot) (src w)"
proof (induction "n - tot" arbitrary: tot buf w rule: less_induct)
  case less
  have nb: "n < 2147483648" using assms(2) by simp
  obtain d w1 where rd: "ssl_read ossl r (int (n - tot)) w = (d, w1)" by fastforce
  have "src w \<noteq> []" using less.prems by auto
  with assms(1) rd less.prems(1) have d: "d \<noteq> []" "length d \<le> n - tot" "src w = d @ src w1"
    unfolding ssl_gives_def by (metis nat_int of_nat_0_less_iff zero_less_diff)+
  have len: "to_int32 (int (size_sub n (to_size (int tot)))) = int (n - tot)"
    using part_len [of "int tot" n] less.prems(1) assms(2) by simp
  have wr: "write_at buf (int tot) d = Inr (put buf tot d)"
    using d(2) less.prems by (intro write_at_put) simp
  have i32: "to_int32 (int tot + int (length d)) = int (tot + length d)"
    using d(2) less.prems(1) nb by (subst to_int32_id) simp_all
  have sz: "to_size (int (tot + length d)) = tot + length d"
    using d(2) less.prems(1) nb by (subst to_size_nonneg) simp_all
  have go: "tls_recv_loop ossl r n True (int tot) buf w =
     (if tot + length d < n then tls_recv_loop ossl r n True (int (tot + length d)) (put buf tot d) w1
      else Some (Inr (int (tot + length d), put buf tot d, w1)))"
    using d(1) by (subst tls_recv_loop.simps) (simp only: len rd wr i32 sz prod.case sum.case Let_def simp_thms if_False)
  show ?case
  proof (cases "tot + length d < n")
    case True
    have "0 < length d" using d(1) by simp
    then have "n - (tot + length d) < n - tot" using less.prems(1) by linarith
    moreover have "length (put buf tot d) = length buf" using d(2) less.prems by simp
    moreover have "n - (tot + length d) \<le> length (src w1)" using less.prems(3) d(3) by simp
    ultimately obtain w' where
      w': "tls_recv_loop ossl r n True (int (tot + length d)) (put buf tot d) w1
        = Some (Inr (int n, put (put buf tot d) (tot + length d) (take (n - (tot + length d)) (src w1)), w'))"
      "src w' = drop (n - (tot + length d)) (src w1)"
      using less.hyps [of "tot + length d" "put buf tot d" w1] True less.prems d by auto
    have "put (put buf tot d) (tot + length d) (take (n - (tot + length d)) (src w1)) = put buf tot (take (n - tot) (src w))"
      using d less.prems True by (subst put_put) (auto simp: min_def)
    with w' True go d show ?thesis by simp
  next
    case False
    then have "tot + length d = n" using d(2) less.prems(1) by simp
    with False go d(3) show ?thesis by auto
  qed
qed

subsection \<open>The objects of OpenSSL\<close>

text \<open>
  The contexts and the connection objects that exist, seen in the world by \<open>v\<close>: the constructors
  make new ones, the free calls end them, and no other call the client makes changes them.
\<close>

definition ssl_ledger :: "'w os \<Rightarrow> 'w ossl \<Rightarrow> ('w \<Rightarrow> nat set \<times> nat set) \<Rightarrow> bool" where
  "ssl_ledger os ossl v =
     ((\<forall>mt w c w'. ssl_CTX_new ossl mt w = (c, w') \<longrightarrow>
         set_option c \<inter> fst (v w) = {} \<and> v w' = (fst (v w) \<union> set_option c, snd (v w)))
      \<and> (\<forall>c w s w'. ssl_new ossl c w = (s, w') \<longrightarrow>
         set_option s \<inter> snd (v w) = {} \<and> v w' = (fst (v w), snd (v w) \<union> set_option s))
      \<and> (\<forall>c w. v (ssl_CTX_free ossl c w) = (fst (v w) - {c}, snd (v w)))
      \<and> (\<forall>s w. v (ssl_free ossl s w) = (fst (v w), snd (v w) - {s}))
      \<and> (\<forall>c f w. v (snd (ssl_use_certificate_file ossl c f w)) = v w)
      \<and> (\<forall>c f w. v (snd (ssl_load_verify_locations ossl c f w)) = v w)
      \<and> (\<forall>c n w. v (ssl_set_verify_depth ossl c n w) = v w)
      \<and> (\<forall>c f w. v (snd (ssl_use_PrivateKey_file ossl c f w)) = v w)
      \<and> (\<forall>s fd w. v (ssl_set_fd ossl s fd w) = v w)
      \<and> (\<forall>s w. v (snd (ssl_connect ossl s w)) = v w)
      \<and> (\<forall>s w. v (snd (ssl_shutdown ossl s w)) = v w)
      \<and> (\<forall>h p w. v (snd (os_getaddrinfo os h p w)) = v w)
      \<and> (\<forall>a b c w. v (snd (os_socket os a b c w)) = v w)
      \<and> (\<forall>s opt w. v (snd (os_setsockopt os s opt w)) = v w)
      \<and> (\<forall>s a w. v (snd (os_connect os s a w)) = v w)
      \<and> (\<forall>s w. v (snd (os_shutdown os s w)) = v w)
      \<and> (\<forall>s w. v (os_close os s w) = v w))"

lemma ledgerD:
  assumes "ssl_ledger os ossl v"
  shows "ssl_CTX_new ossl mt w = (c, w') \<Longrightarrow> set_option c \<inter> fst (v w) = {} \<and> v w' = (fst (v w) \<union> set_option c, snd (v w))"
    and "ssl_new ossl ctx w = (s, w') \<Longrightarrow> set_option s \<inter> snd (v w) = {} \<and> v w' = (fst (v w), snd (v w) \<union> set_option s)"
    and "v (ssl_CTX_free ossl ctx w) = (fst (v w) - {ctx}, snd (v w))"
    and "v (ssl_free ossl t w) = (fst (v w), snd (v w) - {t})"
    and "ssl_use_certificate_file ossl ctx f w = (i, w') \<Longrightarrow> v w' = v w"
    and "ssl_load_verify_locations ossl ctx f w = (i, w') \<Longrightarrow> v w' = v w"
    and "v (ssl_set_verify_depth ossl ctx n w) = v w"
    and "ssl_use_PrivateKey_file ossl ctx f w = (i, w') \<Longrightarrow> v w' = v w"
    and "v (ssl_set_fd ossl t fd w) = v w"
    and "ssl_connect ossl t w = (i, w') \<Longrightarrow> v w' = v w"
    and "v (snd (ssl_shutdown ossl t w)) = v w"
    and "os_getaddrinfo os h p w = (ai, w') \<Longrightarrow> v w' = v w"
    and "os_socket os a b cc w = (i, w') \<Longrightarrow> v w' = v w"
    and "os_setsockopt os fd opt w = (i, w') \<Longrightarrow> v w' = v w"
    and "os_connect os fd adr w = (i, w') \<Longrightarrow> v w' = v w"
    and "os_shutdown os fd w = (i, w') \<Longrightarrow> v w' = v w"
    and "v (os_close os fd w) = v w"
  using assms unfolding ssl_ledger_def by (metis snd_conv)+

lemma tc_Disconnect_ledger:
  assumes "ssl_ledger os ossl v"
  shows "v (snd (snd (tc_Disconnect os win tc w))) = v w"
  using ledgerD(16,17) [OF assms]
  by (auto simp: tc_Disconnect_def Let_def split: prod.split)

lemma tc_destroy_ledger: "ssl_ledger os ossl v \<Longrightarrow> v (tc_destroy os win tc w) = v w"
  by (simp add: tc_destroy_def tc_Disconnect_ledger)

lemma tc_connect_unix_ledger:
  assumes "ssl_ledger os ossl v"
  shows "v (snd (snd (tc_connect_unix os as tc w))) = v w"
  using ledgerD(13,15,17) [OF assms]
  by (induction as arbitrary: tc w) (auto simp: Let_def split: prod.split)

lemma tc_Connect_ledger:
  assumes "ssl_ledger os ossl v" and "tc_Connect os win h p tc w = Inr (ok, tc', w')"
  shows "v w' = v w"
proof -
  define c1 w1 where "c1 = (if tcStatus tc = CONNECTED then fst (snd (tc_Disconnect os win tc w)) else tc)"
    and "w1 = (if tcStatus tc = CONNECTED then snd (snd (tc_Disconnect os win tc w)) else w)"
  have w1: "v w1 = v w" by (simp add: w1_def tc_Disconnect_ledger [OF assms(1)])
  have con: "tc_Connect os win h p tc w = (if win then tc_connect_win os h p c1 w1
      else let ((iAddrInfoRet, addrs), w2) = os_getaddrinfo os (Some h) p w1 in
        if iAddrInfoRet \<noteq> 0 then Inr (False, c1, w2) else Inr (tc_connect_unix os addrs c1 w2))"
    by (simp add: tc_Connect_def c1_def w1_def split: prod.split)
  show ?thesis
  proof (cases win)
    case True
    then show ?thesis
      using assms(2) w1 ledgerD(12-15,17) [OF assms(1)] unfolding con
      by (auto simp: tc_connect_win_def Let_def split: prod.splits list.splits if_splits)
  next
    case False
    obtain i addrs w2 where ga: "os_getaddrinfo os (Some h) p w1 = ((i, addrs), w2)" by (metis surj_pair)
    from False assms(2) have "w' = w2 \<or> w' = snd (snd (tc_connect_unix os addrs c1 w2))"
      unfolding con by (auto simp: ga split: if_splits dest: sym)
    then show ?thesis
      using ledgerD(12) [OF assms(1) ga] w1 tc_connect_unix_ledger [OF assms(1)] by metis
  qed
qed

lemma tc_connect_unix_status: "fst (tc_connect_unix os as tc w) \<Longrightarrow> tcStatus (fst (snd (tc_connect_unix os as tc w))) = CONNECTED"
  by (induction as arbitrary: tc w) (auto simp: Let_def split: prod.splits if_splits)

lemma tc_connect_win_status: "tc_connect_win os h p c w = Inr (True, c', w') \<Longrightarrow> tcStatus c' = CONNECTED"
  by (auto simp: tc_connect_win_def Let_def split: prod.splits list.splits if_splits)

lemma tc_Connect_status:
  assumes "tc_Connect os win h p tc w = Inr (True, tc', w')"
  shows "tcStatus tc' = CONNECTED"
proof -
  have "(\<exists>c1 w1. tc_connect_win os h p c1 w1 = Inr (True, tc', w')) \<or>
      (\<exists>as c1 w1. tc_connect_unix os as c1 w1 = (True, tc', w'))"
    using assms unfolding tc_Connect_def by (auto split: prod.splits if_splits)
  then show ?thesis by (metis tc_connect_win_status tc_connect_unix_status fst_conv snd_conv)
qed

lemma load_files_ledger:
  assumes "ssl_ledger os ossl v"
  shows "v (snd (load_files ossl st ctx w)) = v w"
proof -
  have cert: "v (snd (load_cert ossl st ctx w)) = v w" and ca: "v (snd (load_ca ossl st ctx w)) = v w"
    and key: "v (snd (load_key ossl st ctx w)) = v w" for w
    using ledgerD(5-8) [OF assms] by (auto simp: load_cert_def load_ca_def load_key_def split: prod.splits)
  then show ?thesis by (auto simp: load_files_def split: prod.splits) (metis snd_conv)+
qed

lemma ShutdownSSL_ledger:
  assumes "ssl_ledger os ossl v"
  shows "v (snd (ShutdownSSL ossl sk w)) =
     (if skSSL sk = None then v w else (fst (v w) - set_option (skCTX sk), snd (v w) - set_option (skSSL sk)))"
  using ledgerD(3,4,11) [OF assms] by (auto simp: ShutdownSSL_def Let_def split: option.splits)

text \<open>The destructor: when the socket is connected, the objects go that ShutdownSSL frees.\<close>

lemma tl_destroy_ledger:
  assumes "ssl_ledger os ossl v"
  shows "v (tl_destroy os ossl win c w) =
     (if tcStatus (tlTcp c) = CONNECTED then v (snd (ShutdownSSL ossl (tlSock c) w)) else v w)"
  using tc_Disconnect_ledger [OF assms] tc_destroy_ledger [OF assms]
  by (auto simp: tl_destroy_def tl_Disconnect_def Let_def split: prod.splits) (metis snd_conv)+

text \<open>What Connect of a new client leaves.\<close>

lemma tl_Connect_ledger:
  assumes "ssl_ledger os ossl v" and con: "tl_Connect os ossl win h p (tl_new st) w = Inr (ok, c, w')"
  shows "v w' = (fst (v w) \<union> set_option (skCTX (tlSock c)), snd (v w) \<union> set_option (skSSL (tlSock c)))
     \<and> set_option (skCTX (tlSock c)) \<inter> fst (v w) = {} \<and> set_option (skSSL (tlSock c)) \<inter> snd (v w) = {}
     \<and> (skCTX (tlSock c) \<noteq> None \<longrightarrow> tcStatus (tlTcp c) = CONNECTED)
     \<and> (skSSL (tlSock c) \<noteq> None \<longrightarrow> skCTX (tlSock c) \<noteq> None) \<and> (ok \<longrightarrow> skSSL (tlSock c) \<noteq> None)"
proof -
  obtain ok1 tcp w1 where tc: "tc_Connect os win h p tc_new w = Inr (ok1, tcp, w1)"
    using con by (auto simp: tl_Connect_def tl_new_def split: sum.splits)
  note w1 = tc_Connect_ledger [OF assms(1) tc]
  show ?thesis
  proof (cases ok1)
    case False
    with con tc w1 show ?thesis by (auto simp: tl_Connect_def tl_new_def sk_new_def)
  next
    case True
    with tc have status: "tcStatus tcp = CONNECTED" by (simp add: tc_Connect_status)
    obtain ctx w2 where cn: "ssl_CTX_new ossl (client_method (ssProtocol st)) w1 = (ctx, w2)" by fastforce
    note w2 = ledgerD(1) [OF assms(1) cn]
    show ?thesis
    proof (cases ctx)
      case None
      with True con tc cn w1 w2 status show ?thesis
        by (auto simp: tl_Connect_def tl_new_def sk_new_def SetUpCtxClient_def Let_def)
    next
      case (Some x)
      obtain loaded w3 where ld: "load_files ossl st x w2 = (loaded, w3)" by fastforce
      have w3: "v w3 = v w2" using load_files_ledger [OF assms(1), of st x w2] by (simp add: ld)
      obtain t w4 where sn: "ssl_new ossl x w3 = (t, w4)" by fastforce
      note w4 = ledgerD(2) [OF assms(1) sn]
      have w5: "v (snd (ssl_connect ossl y (ssl_set_fd ossl y fd w4))) = v w4" for y fd
        using ledgerD(9,10) [OF assms(1)] by (metis prod.collapse)
      from True Some con tc cn ld sn w1 w2 w3 w4 w5 status show ?thesis
        by (auto simp: tl_Connect_def tl_new_def sk_new_def SetUpCtxClient_def Let_def
            split: if_splits option.splits prod.splits) (metis snd_conv)+
    qed
  qed
qed

subsection \<open>Properties\<close>

text \<open>A client that sends messages one after the other, and a server that receives into buffers of their
  sizes.\<close>

fun tl_sends :: "'w ossl \<Rightarrow> byte list list \<Rightarrow> tls_client \<Rightarrow> 'w \<Rightarrow> (bool \<times> 'w) res option" where
  "tl_sends ossl [] c w = Some (Inr (True, w))"
| "tl_sends ossl (d # ds) c w =
     (case tl_Send ossl d c w of Some (Inr (True, w')) \<Rightarrow> tl_sends ossl ds c w' | r \<Rightarrow> r)"

fun ts_receives :: "'w ossl \<Rightarrow> SSLSocket \<Rightarrow> byte list list \<Rightarrow> 'w \<Rightarrow> (byte list list \<times> 'w) res option" where
  "ts_receives ossl sk [] w = Some (Inr ([], w))"
| "ts_receives ossl sk (buf # bufs) w =
     (case ts_Receive ossl sk buf True w of
        Some (Inr (n, b, w')) \<Rightarrow> map_option (map_sum id (map_prod ((#) (take (nat n) b)) id)) (ts_receives ossl sk bufs w')
      | Some (Inl e) \<Rightarrow> Some (Inl e)
      | None \<Rightarrow> None)"

lemma tl_sends_all:
  assumes "ssl_takes ossl s src" and "tcStatus (tlTcp c) = CONNECTED" and "skSSL (tlSock c) = Some s"
  shows "\<forall>d \<in> set ds. d \<noteq> [] \<and> length d < 2 ^ 31 \<Longrightarrow>
    \<exists>w'. tl_sends ossl ds c w = Some (Inr (True, w')) \<and> src w' = src w @ concat ds"
proof (induction ds arbitrary: w)
  case (Cons d ds)
  then obtain w1 where "tls_send_loop ossl s d 0 w = Some (True, w1)" "src w1 = src w @ d"
    using tls_send_all [OF assms(1), of d w] by auto
  then have "tl_Send ossl d c w = Some (Inr (True, w1))" "src w1 = src w @ d"
    using assms(2,3) by (simp_all add: tl_Send_def)
  with Cons.IH [of w1] Cons.prems show ?case by auto
qed simp

lemma ts_receives_all:
  assumes "ssl_gives ossl r src" and "skSSL sk = Some r"
  shows "\<forall>d \<in> set ds. d \<noteq> [] \<and> length d < 2 ^ 31 \<Longrightarrow> map length bufs = map length ds \<Longrightarrow> src w = concat ds @ rest \<Longrightarrow>
    \<exists>w'. ts_receives ossl sk bufs w = Some (Inr (ds, w')) \<and> src w' = rest"
proof (induction ds arbitrary: bufs w)
  case (Cons d ds)
  from Cons.prems(2) obtain buf bufs' where b: "bufs = buf # bufs'" "length buf = length d" "map length bufs' = map length ds"
    by (cases bufs) auto
  have "0 < length d" "length d \<le> length buf" "length d - 0 \<le> length (src w)" using Cons.prems b(2) by auto
  then obtain w1 where loop: "tls_recv_loop ossl r (length d) True (int 0) buf w
      = Some (Inr (int (length d), put buf 0 (take (length d - 0) (src w)), w1))" and src: "src w1 = drop (length d - 0) (src w)"
    using tls_recv_full [OF assms(1), of "length d" 0 buf w] Cons.prems(1) by auto
  have "put buf 0 (take (length d - 0) (src w)) = d" using Cons.prems(3) b(2) by (simp add: put_def)
  then have "ts_Receive ossl sk buf True w = Some (Inr (int (length d), d, w1))"
    using loop b(2) assms(2) by (simp add: ts_Receive_def)
  moreover have "src w1 = concat ds @ rest" using src Cons.prems(3) by simp
  ultimately show ?case using Cons.IH [of bufs' w1] Cons.prems(1) b by auto
qed simp

text \<open>C12: messages sent over a TLS connection arrive: however SSL_write and SSL_read cut the stream,
  every Send returns true, and a server that receives into buffers of the sizes of the messages gets
  exactly the messages, each in its buffer and in their order, and leaves nothing in the stream.\<close>

theorem tls_messages_arrive:
  assumes "ssl_pipe ossl s r src" and "tcStatus (tlTcp c) = CONNECTED" and "skSSL (tlSock c) = Some s"
    and "skSSL sk = Some r" and "src w = []" and "\<forall>d \<in> set ds. d \<noteq> [] \<and> length d < 2 ^ 31"
    and "map length bufs = map length ds"
  shows "\<exists>w1 w2. tl_sends ossl ds c w = Some (Inr (True, w1)) \<and> ts_receives ossl sk bufs w1 = Some (Inr (ds, w2)) \<and> src w2 = []"
proof -
  have pipe: "ssl_takes ossl s src" "ssl_gives ossl r src" using assms(1) by (simp_all add: ssl_pipe_def)
  obtain w1 where w1: "tl_sends ossl ds c w = Some (Inr (True, w1))" "src w1 = concat ds @ []"
    using tl_sends_all [OF pipe(1) assms(2,3,6), of w] assms(5) by auto
  with ts_receives_all [OF pipe(2) assms(4,6,7), of w1 "[]"] show ?thesis by blast
qed

text \<open>A library whose world is the bytes under way; it moves at most three at a time.\<close>

definition chop_ossl :: "byte list ossl" where
  "chop_ossl = \<lparr>ssl_CTX_new = \<lambda>m w. (Some 1, w), ssl_CTX_free = \<lambda>c w. w, ssl_use_certificate_file = \<lambda>c f w. (1, w),
     ssl_load_verify_locations = \<lambda>c f w. (1, w), ssl_set_verify_depth = \<lambda>c n w. w, ssl_use_PrivateKey_file = \<lambda>c f w. (1, w),
     ssl_new = \<lambda>c w. (Some 2, w), ssl_set_fd = \<lambda>s fd w. w, ssl_connect = \<lambda>s w. (1, w), ssl_accept = \<lambda>s w. (1, w),
     ssl_write = \<lambda>s d n w. (min 3 n, w @ take 3 d), ssl_read = \<lambda>s n w. (take (min 3 (nat n)) w, drop (min 3 (nat n)) w),
     ssl_has_pending = \<lambda>s w. 0, ssl_pending = \<lambda>s w. 0, ssl_shutdown = \<lambda>s w. (0, w), ssl_free = \<lambda>s w. w\<rparr>"

lemma chop_pipe: "ssl_pipe chop_ossl s r (\<lambda>w. w)"
  by (auto simp: ssl_pipe_def ssl_takes_def ssl_gives_def chop_ossl_def min_def Suc_le_eq)

theorem tls_messages_arrive_witness:
  "\<exists>w1 w2. tl_sends chop_ossl [[1, 2, 3, 4, 5], [6]] ((tl_new \<lparr>ssProtocol = TLS, ssCAFile = [], ssCertFile = [], ssKeyFile = []\<rparr>)
         \<lparr>tlTcp := \<lparr>tcStatus = CONNECTED, tcSocket = 4\<rparr>, tlSock := sk_new\<lparr>skSSL := Some 2\<rparr>\<rparr>) [] = Some (Inr (True, w1))
     \<and> ts_receives chop_ossl (sk_new\<lparr>skSSL := Some 2\<rparr>) [replicate 5 0, [0]] w1 = Some (Inr ([[1, 2, 3, 4, 5], [6]], w2))"
  using tls_messages_arrive [OF chop_pipe [of 2 2], of "(tl_new \<lparr>ssProtocol = TLS, ssCAFile = [], ssCertFile = [], ssKeyFile = []\<rparr>)
         \<lparr>tlTcp := \<lparr>tcStatus = CONNECTED, tcSocket = 4\<rparr>, tlSock := sk_new\<lparr>skSSL := Some 2\<rparr>\<rparr>" "sk_new\<lparr>skSSL := Some 2\<rparr>" "[]"
      "[[1, 2, 3, 4, 5], [6]]" "[replicate 5 0, [0]]"]
  by (simp add: ex_simps) blast

lemma tl_Connect_no_files:
  assumes "tl_Connect os ossl win h p (tl_new st) w = Inr (ok, c, w')"
    and "ssCertFile st = []" and "ssCAFile st = []" and "ssKeyFile st = []"
  shows "skCTX (tlSock c) = None \<or> skSSL (tlSock c) \<noteq> None"
proof -
  have "load_files ossl st ctx w = (True, w)" for ctx w
    using assms(2-4) by (simp add: load_files_def load_cert_def load_ca_def load_key_def)
  then show ?thesis
    using assms(1) by (auto simp: tl_Connect_def tl_new_def sk_new_def SetUpCtxClient_def Let_def
        split: sum.splits prod.splits if_splits option.splits)
qed

text \<open>C29: the OpenSSL objects of a client. Whatever Connect of a new client ends with, its destructor
  frees the SSL object and the context that Connect made, and nothing else, with one exception: when the
  context exists and no SSL object does, the context stays for ever. So a successful Connect leaks
  nothing, and neither does one without certificate, CA and key files.\<close>

theorem tls_client_lifetime:
  assumes "ssl_ledger os ossl v" and "tl_Connect os ossl win h p (tl_new st) w = Inr (ok, c, w1)"
  shows "v (tl_destroy os ossl win c w1)
       = (fst (v w) \<union> (if skSSL (tlSock c) = None then set_option (skCTX (tlSock c)) else {}), snd (v w))
     \<and> (ok \<or> ssCertFile st = [] \<and> ssCAFile st = [] \<and> ssKeyFile st = [] \<longrightarrow> v (tl_destroy os ossl win c w1) = v w)"
proof -
  note con = tl_Connect_ledger [OF assms]
  have "v (tl_destroy os ossl win c w1)
       = (fst (v w) \<union> (if skSSL (tlSock c) = None then set_option (skCTX (tlSock c)) else {}), snd (v w))"
    using con by (auto simp: tl_destroy_ledger [OF assms(1)] ShutdownSSL_ledger [OF assms(1)] prod_eq_iff)
  moreover from con tl_Connect_no_files [OF assms(2)] have "ok \<or> ssCertFile st = [] \<and> ssCAFile st = [] \<and> ssKeyFile st = []
      \<longrightarrow> skSSL (tlSock c) = None \<longrightarrow> skCTX (tlSock c) = None" by auto
  ultimately show ?thesis by (auto simp: prod_eq_iff)
qed

text \<open>A library whose world is the sets of the contexts and of the connection objects; it makes at most
  one of each, and it cannot read certificates. The network connects every time.\<close>

definition one_os :: "(nat set \<times> nat set) os" where
  "one_os = \<lparr>os_getaddrinfo = (\<lambda>h p w. ((0, [\<lparr>ai_family = 2, ai_socktype = 1, ai_protocol = 6, ai_addr = 1\<rparr>]), w)),
     os_socket = (\<lambda>f t p w. (3, w)), os_setsockopt = (\<lambda>s opt w. (0, w)), os_connect = (\<lambda>s a w. (0, w)),
     os_bind = (\<lambda>s a w. (0, w)), os_listen = (\<lambda>s w. (0, w)), os_select = (\<lambda>ss t w. ((0, []), w)),
     os_accept = (\<lambda>s w. (4, w)), os_send = (\<lambda>s d w. (-1, w)), os_recv = (\<lambda>s n w. (RClosed, w)),
     os_shutdown = (\<lambda>s w. (0, w)), os_close = (\<lambda>s w. w)\<rparr>"

definition one_ossl :: "(nat set \<times> nat set) ossl" where
  "one_ossl = \<lparr>ssl_CTX_new = \<lambda>m w. (if 1 \<in> fst w then (None, w) else (Some 1, (insert 1 (fst w), snd w))),
     ssl_CTX_free = \<lambda>c w. (fst w - {c}, snd w), ssl_use_certificate_file = \<lambda>c f w. (0, w),
     ssl_load_verify_locations = \<lambda>c f w. (1, w), ssl_set_verify_depth = \<lambda>c n w. w, ssl_use_PrivateKey_file = \<lambda>c f w. (1, w),
     ssl_new = \<lambda>c w. (if 2 \<in> snd w then (None, w) else (Some 2, (fst w, insert 2 (snd w)))),
     ssl_set_fd = \<lambda>s fd w. w, ssl_connect = \<lambda>s w. (1, w), ssl_accept = \<lambda>s w. (1, w),
     ssl_write = \<lambda>s d n w. (n, w), ssl_read = \<lambda>s n w. ([], w),
     ssl_has_pending = \<lambda>s w. 0, ssl_pending = \<lambda>s w. 0, ssl_shutdown = \<lambda>s w. (0, w), ssl_free = \<lambda>s w. (fst w, snd w - {s})\<rparr>"

lemma one_ledger: "ssl_ledger one_os one_ossl (\<lambda>w. w)"
  by (auto simp: ssl_ledger_def one_os_def one_ossl_def)

definition one_connect :: "byte list \<Rightarrow> (bool \<times> tls_client \<times> nat set \<times> nat set) res" where
  "one_connect cert = tl_Connect one_os one_ossl False [] [] (tl_new \<lparr>ssProtocol = TLS, ssCAFile = [], ssCertFile = cert, ssKeyFile = []\<rparr>) ({}, {})"

lemmas one_defs = one_connect_def tl_Connect_def tl_new_def tc_new_def tc_Connect_def one_os_def one_ossl_def SetUpCtxClient_def
  load_files_def load_cert_def load_ca_def load_key_def sk_new_def

theorem tls_client_lifetime_witness:
  "(\<exists>c w1. one_connect [] = Inr (True, c, w1) \<and> w1 = ({1}, {2}) \<and> tl_destroy one_os one_ossl False c w1 = ({}, {}))
     \<and> (\<exists>c w1. one_connect [7] = Inr (False, c, w1) \<and> tl_destroy one_os one_ossl False c w1 = ({1}, {}))"
proof
  obtain c w1 where con: "one_connect [] = Inr (True, c, w1)" "w1 = ({1}, {2})"
    by (simp add: one_defs)
  from con tls_client_lifetime [OF one_ledger con(1) [unfolded one_connect_def], THEN conjunct2]
  show "\<exists>c w1. one_connect [] = Inr (True, c, w1) \<and> w1 = ({1}, {2}) \<and> tl_destroy one_os one_ossl False c w1 = ({}, {})"
    by (intro exI [of _ c] exI [of _ w1]) simp_all
next
  obtain c w1 where con: "one_connect [7] = Inr (False, c, w1)" "skSSL (tlSock c) = None" "skCTX (tlSock c) = Some 1"
    by (simp add: one_defs)
  with tls_client_lifetime [OF one_ledger con(1) [unfolded one_connect_def]]
  show "\<exists>c w1. one_connect [7] = Inr (False, c, w1) \<and> tl_destroy one_os one_ossl False c w1 = ({1}, {})"
    by (intro exI [of _ c] exI [of _ w1]) simp
qed

text \<open>After a Connect whose TLS set-up failed the TCP connection is up without an SSL object, and Send
  does not notice: it calls SSL_write with a null pointer.\<close>

lemma tls_Send_after_failed_setup:
  "\<exists>c w1. one_connect [7] = Inr (False, c, w1) \<and> tl_Send one_ossl [1] c w1 = Some (Inl NullDeref)"
  by (simp add: one_defs tl_Send_def)

end
