(* ===== verification/Win_Service.thy ===== *)
theory Win_Service
  imports X_String
begin

text \<open>
  Windows/EXService.cpp: services of the service control manager (SCM), registered, removed, started,
  stopped and queried. The calls of Windows are the record \<open>scm\<close> over an outside world \<open>'w\<close>; a null
  handle is \<open>None\<close>, a BOOL that the sources compare with TRUE (and not with FALSE) stays a number. An
  operation takes the text of outError and returns its result, the text it leaves there, and the world.
  Every service handle is held by a ScHandle, whose destructor closes it: \<open>owning\<close>.
\<close>

subsection \<open>Windows\<close>

abbreviation SERVICE_STOPPED :: u32 where "SERVICE_STOPPED \<equiv> 1"
abbreviation SERVICE_START_PENDING :: u32 where "SERVICE_START_PENDING \<equiv> 2"
abbreviation SERVICE_STOP_PENDING :: u32 where "SERVICE_STOP_PENDING \<equiv> 3"
abbreviation SERVICE_RUNNING :: u32 where "SERVICE_RUNNING \<equiv> 4"
abbreviation SERVICE_PAUSED :: u32 where "SERVICE_PAUSED \<equiv> 7"
abbreviation SERVICE_AUTO_START :: u32 where "SERVICE_AUTO_START \<equiv> 2"
abbreviation SERVICE_DEMAND_START :: u32 where "SERVICE_DEMAND_START \<equiv> 3"
abbreviation SERVICE_DISABLED :: u32 where "SERVICE_DISABLED \<equiv> 4"
abbreviation SC_MANAGER_CONNECT :: u32 where "SC_MANAGER_CONNECT \<equiv> 1"
abbreviation SC_MANAGER_CREATE_SERVICE :: u32 where "SC_MANAGER_CREATE_SERVICE \<equiv> 2"
abbreviation SERVICE_QUERY_CONFIG :: u32 where "SERVICE_QUERY_CONFIG \<equiv> 0x1"
abbreviation SERVICE_QUERY_STATUS :: u32 where "SERVICE_QUERY_STATUS \<equiv> 0x4"
abbreviation SERVICE_START :: u32 where "SERVICE_START \<equiv> 0x10"
abbreviation SERVICE_STOP :: u32 where "SERVICE_STOP \<equiv> 0x20"
abbreviation DELETE :: u32 where "DELETE \<equiv> 0x10000"
abbreviation ERROR_SERVICE_NOT_ACTIVE :: u32 where "ERROR_SERVICE_NOT_ACTIVE \<equiv> 1062"

record service_status =
  dwCurrentState :: u32
  dwWin32ExitCode :: u32

record service_config =
  lpBinaryPathName :: xstring
  lpDisplayName :: xstring
  dwStartType :: u32

record 'w scm =
  sc_mb2wc :: "byte list \<Rightarrow> xstring"
  sc_GetLastError :: "'w \<Rightarrow> u32"
  sc_OpenSCManager :: "u32 \<Rightarrow> 'w \<Rightarrow> nat option \<times> 'w"
  sc_CreateService :: "nat \<Rightarrow> xstring \<Rightarrow> xstring \<Rightarrow> u32 \<Rightarrow> xstring \<Rightarrow> 'w \<Rightarrow> nat option \<times> 'w"
  sc_OpenService :: "nat \<Rightarrow> xstring \<Rightarrow> u32 \<Rightarrow> 'w \<Rightarrow> nat option \<times> 'w"
  sc_CloseHandle :: "nat \<Rightarrow> 'w \<Rightarrow> 'w"
  sc_SetDelayed :: "nat \<Rightarrow> 'w \<Rightarrow> int \<times> 'w"  \<comment> \<open>ChangeServiceConfig2W of the delayed start\<close>
  sc_QueryStatus :: "nat \<Rightarrow> 'w \<Rightarrow> (int \<times> u32) \<times> 'w"
  sc_ControlStop :: "nat \<Rightarrow> 'w \<Rightarrow> int \<times> 'w"
  sc_DeleteService :: "nat \<Rightarrow> 'w \<Rightarrow> int \<times> 'w"
  sc_StartService :: "nat \<Rightarrow> 'w \<Rightarrow> int \<times> 'w"
  sc_QueryStatusEx :: "nat \<Rightarrow> 'w \<Rightarrow> (int \<times> service_status) \<times> 'w"
  sc_QueryConfig :: "nat \<Rightarrow> 'w \<Rightarrow> (int \<times> service_config) \<times> 'w"
  sc_QueryDelayed :: "nat \<Rightarrow> 'w \<Rightarrow> (int \<times> int) \<times> 'w"  \<comment> \<open>QueryServiceConfig2W and fDelayedAutostart\<close>
  sc_Sleep :: "u32 \<Rightarrow> 'w \<Rightarrow> 'w"

subsection \<open>Handles that close themselves\<close>

text \<open>A handle just opened: without one \<open>e\<close> runs, with one \<open>b\<close> and then the close call.\<close>

definition owning ::
    "(nat \<Rightarrow> 'w \<Rightarrow> 'w) \<Rightarrow> nat option \<times> 'w \<Rightarrow> ('w \<Rightarrow> 'r \<times> 'w) \<Rightarrow> (nat \<Rightarrow> 'w \<Rightarrow> 'r \<times> 'w) \<Rightarrow> 'r \<times> 'w" where
  "owning close hw e b =
     (case fst hw of
        None \<Rightarrow> e (snd hw)
      | Some h \<Rightarrow> (let (r, w') = b h (snd hw) in (r, close h w')))"

text \<open>
  What a client of self-closing handles relies on. In a view \<open>v\<close> of the handles that exist, opening one
  (\<open>opened\<close>) adds at most a new handle and closing one (\<open>closes\<close>) takes it away.
\<close>

locale handle_owner =
  fixes close :: "nat \<Rightarrow> 'w \<Rightarrow> 'w"
    and own :: "nat option \<times> 'w \<Rightarrow> ('w \<Rightarrow> 'r \<times> 'w) \<Rightarrow> (nat \<Rightarrow> 'w \<Rightarrow> 'r \<times> 'w) \<Rightarrow> 'r \<times> 'w"
  assumes own_null: "own (None, w) e b = e w"
    and own_some: "own (Some h, w) e b = (fst (b h w), close h (snd (b h w)))"
begin

definition opened :: "('w \<Rightarrow> nat set) \<Rightarrow> 'w \<Rightarrow> nat option \<times> 'w \<Rightarrow> bool" where
  "opened v w hw = (set_option (fst hw) \<inter> v w = {} \<and> v (snd hw) = v w \<union> set_option (fst hw))"

definition closes :: "('w \<Rightarrow> nat set) \<Rightarrow> bool" where
  "closes v = (\<forall>h w. v (close h w) = v w - {h})"

lemma own_keeps:
  assumes "opened v w hw" and "closes v" and "\<And>w. v (snd (e w)) = v w" and "\<And>h w. v (snd (b h w)) = v w"
  shows "v (snd (own hw e b)) = v w"
proof (cases hw)
  case (Pair h w1)
  with assms(1) have new: "set_option h \<inter> v w = {}" "v w1 = v w \<union> set_option h"
    by (simp_all add: opened_def)
  with Pair assms(2-4) show ?thesis
    by (cases h) (auto simp: own_null own_some closes_def)
qed

end

interpretation ho: handle_owner close "owning close" for close
  by unfold_locales (simp_all add: owning_def split: prod.split)

subsection \<open>The definitions of EXService.hpp and the helpers of EXService.cpp\<close>

datatype StartupType = Automatic | AutomaticDelayedStart | Manual | Disabled

datatype RunState = RsUnknown | RsRunning | RsStopped | RsStartPending | RsStopPending | RsPaused | RsError

record ServiceInfo =
  siServiceName :: xstring
  siDisplayName :: xstring
  siBinaryPath :: xstring
  siStartupType :: StartupType
  siRunState :: RunState
  siRemark :: xstring

definition si_new :: ServiceInfo where
  "si_new = \<lparr>siServiceName = [], siDisplayName = [], siBinaryPath = [], siStartupType = Manual,
     siRunState = RsUnknown, siRemark = []\<rparr>"

text \<open>std::to_string of a DWORD.\<close>

definition to_string_dword :: "u32 \<Rightarrow> byte list" where
  "to_string_dword n = map ucast (dec_digits (unat n))"

definition AppendLastError :: "'w scm \<Rightarrow> xstring \<Rightarrow> string \<Rightarrow> 'w \<Rightarrow> xstring" where
  "AppendLastError scm outError what w =
     (let e1 = xs_assign_cstr (sc_mb2wc scm) outError (Some (blit what));
          e2 = xs_append_cstr (sc_mb2wc scm) e1 (Some (blit '' (code=''));
          e3 = xs_append_string (sc_mb2wc scm) e2 (to_string_dword (sc_GetLastError scm w))
      in xs_append_cstr (sc_mb2wc scm) e3 (Some (blit '')'')))"

definition ToScmStartType :: "StartupType \<Rightarrow> u32" where
  "ToScmStartType t = (case t of Automatic \<Rightarrow> SERVICE_AUTO_START | AutomaticDelayedStart \<Rightarrow> SERVICE_AUTO_START
     | Manual \<Rightarrow> SERVICE_DEMAND_START | Disabled \<Rightarrow> SERVICE_DISABLED)"

definition ToRunState :: "service_status \<Rightarrow> RunState" where
  "ToRunState status =
     (if dwCurrentState status = SERVICE_RUNNING then RsRunning
      else if dwCurrentState status = SERVICE_START_PENDING then RsStartPending
      else if dwCurrentState status = SERVICE_STOP_PENDING then RsStopPending
      else if dwCurrentState status = SERVICE_PAUSED then RsPaused
      else if dwCurrentState status = SERVICE_STOPPED then (if dwWin32ExitCode status = 0 then RsStopped else RsError)
      else RsUnknown)"

text \<open>A call that failed: false and the text of the error.\<close>

definition sc_fail :: "'w scm \<Rightarrow> xstring \<Rightarrow> string \<Rightarrow> 'w \<Rightarrow> (bool \<times> xstring) \<times> 'w" where
  "sc_fail scm outError what w = ((False, AppendLastError scm outError what w), w)"

text \<open>The frame of most operations: the two ScHandles, hSCM and hService.\<close>

definition with_service ::
    "'w scm \<Rightarrow> xstring \<Rightarrow> u32 \<Rightarrow> xstring \<Rightarrow> (nat \<Rightarrow> 'w \<Rightarrow> (bool \<times> xstring) \<times> 'w) \<Rightarrow> 'w \<Rightarrow> (bool \<times> xstring) \<times> 'w" where
  "with_service scm serviceName access outError body w =
     owning (sc_CloseHandle scm) (sc_OpenSCManager scm SC_MANAGER_CONNECT w)
       (sc_fail scm outError ''OpenSCManager failed'')
       (\<lambda>hSCM w1. owning (sc_CloseHandle scm) (sc_OpenService scm hSCM (c_str_of serviceName) access w1)
          (sc_fail scm outError ''OpenService failed'') body)"

subsection \<open>The operations\<close>

definition RegisterService ::
    "'w scm \<Rightarrow> xstring \<Rightarrow> xstring \<Rightarrow> xstring \<Rightarrow> StartupType \<Rightarrow> xstring \<Rightarrow> 'w \<Rightarrow> (bool \<times> xstring) \<times> 'w" where
  "RegisterService scm serviceName displayName binaryPath startupType outError w =
     owning (sc_CloseHandle scm) (sc_OpenSCManager scm SC_MANAGER_CREATE_SERVICE w)
       (sc_fail scm outError ''OpenSCManager failed'')
       (\<lambda>hSCM w1. owning (sc_CloseHandle scm)
          (sc_CreateService scm hSCM (c_str_of serviceName) (c_str_of displayName) (ToScmStartType startupType)
             (c_str_of binaryPath) w1)
          (sc_fail scm outError ''CreateService failed'')
          (\<lambda>hService w2. ((True, outError),
             if startupType = AutomaticDelayedStart then snd (sc_SetDelayed scm hService w2) else w2)))"

definition DeleteServiceByName :: "'w scm \<Rightarrow> xstring \<Rightarrow> xstring \<Rightarrow> 'w \<Rightarrow> (bool \<times> xstring) \<times> 'w" where
  "DeleteServiceByName scm serviceName outError w =
     with_service scm serviceName (SERVICE_STOP OR DELETE OR SERVICE_QUERY_STATUS) outError (\<lambda>hService w1.
       (let ((q, state), w2) = sc_QueryStatus scm hService w1;
            w3 = (if q = 1 \<and> state \<noteq> SERVICE_STOPPED then snd (sc_ControlStop scm hService w2) else w2);
            (d, w4) = sc_DeleteService scm hService w3
        in if d = 0 then sc_fail scm outError ''DeleteService failed'' w4 else ((True, outError), w4))) w"

definition StartServiceByName :: "'w scm \<Rightarrow> xstring \<Rightarrow> xstring \<Rightarrow> 'w \<Rightarrow> (bool \<times> xstring) \<times> 'w" where
  "StartServiceByName scm serviceName outError w =
     with_service scm serviceName SERVICE_START outError (\<lambda>hService w1.
       (let (st, w2) = sc_StartService scm hService w1
        in if st = 0 then sc_fail scm outError ''StartService failed'' w2 else ((True, outError), w2))) w"

text \<open>The loop that waits for the service to stop; \<open>None\<close> if it never ends. Its counter is a DWORD.\<close>

partial_function (option) stop_wait :: "'w scm \<Rightarrow> nat \<Rightarrow> u32 \<Rightarrow> u32 \<Rightarrow> 'w \<Rightarrow> 'w option" where
  "stop_wait scm hService dwWaitMsec dwWaited w =
     (if dwWaited < dwWaitMsec
      then let ((q, state), w1) = sc_QueryStatus scm hService w in
        if q = 0 then Some w1
        else if state = SERVICE_STOPPED then Some w1
        else stop_wait scm hService dwWaitMsec (dwWaited + 200) (sc_Sleep scm 200 w1)
      else Some w)"

declare stop_wait.simps [code]

definition StopServiceByName :: "'w scm \<Rightarrow> xstring \<Rightarrow> xstring \<Rightarrow> u32 \<Rightarrow> 'w \<Rightarrow> ((bool \<times> xstring) \<times> 'w) option" where
  "StopServiceByName scm serviceName outError dwWaitMsec w =
     (case sc_OpenSCManager scm SC_MANAGER_CONNECT w of
        (None, w1) \<Rightarrow> Some (sc_fail scm outError ''OpenSCManager failed'' w1)
      | (Some hSCM, w1) \<Rightarrow>
          (case sc_OpenService scm hSCM (c_str_of serviceName) (SERVICE_STOP OR SERVICE_QUERY_STATUS) w1 of
             (None, w2) \<Rightarrow> (let (r, w3) = sc_fail scm outError ''OpenService failed'' w2 in Some (r, sc_CloseHandle scm hSCM w3))
           | (Some hService, w2) \<Rightarrow>
               map_option (\<lambda>(r, w4). (r, sc_CloseHandle scm hSCM (sc_CloseHandle scm hService w4)))
                 (let (c, w3) = sc_ControlStop scm hService w2 in
                  if c = 0 then
                    (if sc_GetLastError scm w3 \<noteq> ERROR_SERVICE_NOT_ACTIVE
                     then Some (sc_fail scm outError ''ControlService(STOP) failed'' w3)
                     else Some ((True, outError), w3))
                  else map_option (Pair (True, outError)) (stop_wait scm hService dwWaitMsec 0 w3))))"

text \<open>The default of dwWaitMsec is 5000.\<close>

definition RestartService :: "'w scm \<Rightarrow> xstring \<Rightarrow> xstring \<Rightarrow> 'w \<Rightarrow> ((bool \<times> xstring) \<times> 'w) option" where
  "RestartService scm serviceName outError w =
     (case StopServiceByName scm serviceName xs_default 5000 w of
        None \<Rightarrow> None
      | Some (_, w1) \<Rightarrow> Some (StartServiceByName scm serviceName outError w1))"

text \<open>QueryService in two parts, the status and the configuration, each of which changes outInfo only
  when its call works.\<close>

definition query_status :: "'w scm \<Rightarrow> nat \<Rightarrow> ServiceInfo \<Rightarrow> 'w \<Rightarrow> ServiceInfo \<times> 'w" where
  "query_status scm hService outInfo w =
     (let ((q, statusProcess), w') = sc_QueryStatusEx scm hService w in
      if q = 1 then
        (let i1 = outInfo\<lparr>siRunState := ToRunState statusProcess\<rparr> in
         (if siRunState i1 = RsError
          then i1\<lparr>siRemark := xs_append_string (sc_mb2wc scm)
                  (xs_assign_cstr (sc_mb2wc scm) (siRemark i1) (Some (blit ''exit code='')))
                  (to_string_dword (dwWin32ExitCode statusProcess))\<rparr>
          else i1, w'))
      else (outInfo, w'))"

definition query_config :: "'w scm \<Rightarrow> nat \<Rightarrow> ServiceInfo \<Rightarrow> 'w \<Rightarrow> ServiceInfo \<times> 'w" where
  "query_config scm hService outInfo w =
     (let ((q, cfg), w1) = sc_QueryConfig scm hService w in
      if q = 1 then
        (let i1 = outInfo\<lparr>siBinaryPath := c_str_of (lpBinaryPathName cfg), siDisplayName := c_str_of (lpDisplayName cfg)\<rparr> in
         if dwStartType cfg = SERVICE_DISABLED then (i1\<lparr>siStartupType := Disabled\<rparr>, w1)
         else if dwStartType cfg = SERVICE_DEMAND_START then (i1\<lparr>siStartupType := Manual\<rparr>, w1)
         else let ((d, fDelayedAutostart), w2) = sc_QueryDelayed scm hService w1 in
           (i1\<lparr>siStartupType := if d = 1 \<and> fDelayedAutostart \<noteq> 0 then AutomaticDelayedStart else Automatic\<rparr>, w2))
      else (outInfo, w1))"

text \<open>outInfo comes back with the result and outError.\<close>

definition QueryService ::
    "'w scm \<Rightarrow> xstring \<Rightarrow> ServiceInfo \<Rightarrow> xstring \<Rightarrow> 'w \<Rightarrow> (bool \<times> ServiceInfo \<times> xstring) \<times> 'w" where
  "QueryService scm serviceName outInfo outError w =
     owning (sc_CloseHandle scm) (sc_OpenSCManager scm SC_MANAGER_CONNECT w)
       (\<lambda>w1. ((False, outInfo, AppendLastError scm outError ''OpenSCManager failed'' w1), w1))
       (\<lambda>hSCM w1. owning (sc_CloseHandle scm)
          (sc_OpenService scm hSCM (c_str_of serviceName) (SERVICE_QUERY_STATUS OR SERVICE_QUERY_CONFIG) w1)
          (\<lambda>w2. ((False, outInfo, AppendLastError scm outError ''OpenService failed'' w2), w2))
          (\<lambda>hService w2.
             (let (i1, w3) = query_status scm hService (outInfo\<lparr>siServiceName := serviceName\<rparr>) w2;
                  (i2, w4) = query_config scm hService i1 w3
              in ((True, i2, outError), w4))))"

fun QueryServices :: "'w scm \<Rightarrow> xstring list \<Rightarrow> 'w \<Rightarrow> ServiceInfo list \<times> 'w" where
  "QueryServices scm [] w = ([], w)"
| "QueryServices scm (name # serviceNames) w =
     (let ((ok, info, _), w1) = QueryService scm name si_new xs_default w;
          (results, w2) = QueryServices scm serviceNames w1
      in (if ok then info # results else results, w2))"

subsection \<open>Every handle is closed\<close>

text \<open>The handles of the process, seen in the world by \<open>v\<close>: the three calls that open make new ones,
  CloseServiceHandle ends one, and no other call changes them.\<close>

definition sc_ledger :: "'w scm \<Rightarrow> ('w \<Rightarrow> nat set) \<Rightarrow> bool" where
  "sc_ledger scm v =
     ((\<forall>a w. ho.opened v w (sc_OpenSCManager scm a w))
      \<and> (\<forall>h n d t b w. ho.opened v w (sc_CreateService scm h n d t b w))
      \<and> (\<forall>h n a w. ho.opened v w (sc_OpenService scm h n a w))
      \<and> ho.closes (sc_CloseHandle scm) v
      \<and> (\<forall>h w. v (snd (sc_SetDelayed scm h w)) = v w) \<and> (\<forall>h w. v (snd (sc_QueryStatus scm h w)) = v w)
      \<and> (\<forall>h w. v (snd (sc_ControlStop scm h w)) = v w) \<and> (\<forall>h w. v (snd (sc_DeleteService scm h w)) = v w)
      \<and> (\<forall>h w. v (snd (sc_StartService scm h w)) = v w) \<and> (\<forall>h w. v (snd (sc_QueryStatusEx scm h w)) = v w)
      \<and> (\<forall>h w. v (snd (sc_QueryConfig scm h w)) = v w) \<and> (\<forall>h w. v (snd (sc_QueryDelayed scm h w)) = v w)
      \<and> (\<forall>m w. v (sc_Sleep scm m w) = v w))"

lemma sc_ledgerD:
  assumes "sc_ledger scm v"
  shows "ho.opened v w (sc_OpenSCManager scm a w)" "ho.opened v w (sc_CreateService scm h n d t b w)"
    "ho.opened v w (sc_OpenService scm h n a w)" "ho.closes (sc_CloseHandle scm) v"
  using assms by (simp_all add: sc_ledger_def)

lemma sc_ledger_same:
  assumes "sc_ledger scm v"
  shows "v (snd (sc_SetDelayed scm h w)) = v w" "v (snd (sc_QueryStatus scm h w)) = v w"
    "v (snd (sc_ControlStop scm h w)) = v w" "v (snd (sc_DeleteService scm h w)) = v w"
    "v (snd (sc_StartService scm h w)) = v w" "v (snd (sc_QueryStatusEx scm h w)) = v w"
    "v (snd (sc_QueryConfig scm h w)) = v w" "v (snd (sc_QueryDelayed scm h w)) = v w"
    "v (sc_Sleep scm m w) = v w"
  using assms by (simp_all add: sc_ledger_def)

lemma sc_fail_world [simp]: "snd (sc_fail scm e what w) = w"
  by (simp add: sc_fail_def)

lemma with_service_keeps:
  assumes "sc_ledger scm v" and "\<And>h w. v (snd (body h w)) = v w"
  shows "v (snd (with_service scm n a e body w)) = v w"
  unfolding with_service_def
  by (intro ho.own_keeps sc_ledgerD [OF assms(1)] assms(2)) simp_all

lemma RegisterService_keeps: "sc_ledger scm v \<Longrightarrow> v (snd (RegisterService scm n d b t e w)) = v w"
  unfolding RegisterService_def
  by (intro ho.own_keeps sc_ledgerD) (simp_all add: sc_ledger_same)

lemma DeleteServiceByName_keeps: "sc_ledger scm v \<Longrightarrow> v (snd (DeleteServiceByName scm n e w)) = v w"
  unfolding DeleteServiceByName_def
  by (intro with_service_keeps) (simp_all add: Let_def case_prod_beta sc_ledger_same)

lemma StartServiceByName_keeps: "sc_ledger scm v \<Longrightarrow> v (snd (StartServiceByName scm n e w)) = v w"
  unfolding StartServiceByName_def
  by (intro with_service_keeps) (simp_all add: Let_def case_prod_beta sc_ledger_same)

lemma QueryService_keeps: "sc_ledger scm v \<Longrightarrow> v (snd (QueryService scm n i e w)) = v w"
  unfolding QueryService_def
  by (intro ho.own_keeps sc_ledgerD)
    (simp_all add: Let_def case_prod_beta sc_ledger_same query_status_def query_config_def)

lemma QueryServices_keeps: "sc_ledger scm v \<Longrightarrow> v (snd (QueryServices scm ns w)) = v w"
  by (induction ns arbitrary: w) (simp_all add: Let_def case_prod_beta QueryService_keeps)

lemma stop_wait_keeps:
  assumes "sc_ledger scm v" and "stop_wait scm h ms k w = Some w'"
  shows "v w' = v w"
proof -
  have "sc_ledger scm v \<longrightarrow> v w' = v w"
    by (rule stop_wait.raw_induct [where P = "\<lambda>scm h ms k w w'. sc_ledger scm v \<longrightarrow> v w' = v w", OF _ assms(2)])
      (clarsimp simp: Let_def case_prod_beta sc_ledger_same split: if_splits)
  with assms(1) show ?thesis by simp
qed

lemma StopServiceByName_keeps:
  assumes led: "sc_ledger scm v" and "StopServiceByName scm n e ms w = Some (r, w')"
  shows "v w' = v w"
proof -
  obtain h1 w1 where o1: "sc_OpenSCManager scm SC_MANAGER_CONNECT w = (h1, w1)" by fastforce
  obtain h2 w2 where o2: "sc_OpenService scm (the h1) (c_str_of n) (SERVICE_STOP OR SERVICE_QUERY_STATUS) w1 = (h2, w2)" by fastforce
  obtain c w3 where ct: "sc_ControlStop scm (the h2) w2 = (c, w3)" by fastforce
  have v1: "set_option h1 \<inter> v w = {}" "v w1 = v w \<union> set_option h1"
    using sc_ledgerD(1) [OF led, of w SC_MANAGER_CONNECT] by (simp_all add: o1 ho.opened_def)
  have v2: "set_option h2 \<inter> v w1 = {}" "v w2 = v w1 \<union> set_option h2"
    using sc_ledgerD(3) [OF led, of w1 "the h1" "c_str_of n" "SERVICE_STOP OR SERVICE_QUERY_STATUS"]
    unfolding ho.opened_def o2 fst_conv snd_conv by blast+
  have v3: "v w3 = v w2" using sc_ledger_same(3) [OF led, of "the h2" w2] by (simp add: ct)
  have cl: "v (sc_CloseHandle scm h w) = v w - {h}" for h w using sc_ledgerD(4) [OF led] by (simp add: ho.closes_def)
  show ?thesis
  proof (cases h1)
    case None
    with assms(2) o1 v1 show ?thesis by (simp add: StopServiceByName_def sc_fail_def)
  next
    case (Some x1)
    show ?thesis
    proof (cases h2)
      case None
      with Some assms(2) o1 o2 v1 v2 cl show ?thesis by (auto simp: StopServiceByName_def sc_fail_def)
    next
      case (Some x2)
      with \<open>h1 = Some x1\<close> assms(2) o1 o2 ct obtain w4 where w4: "w' = sc_CloseHandle scm x1 (sc_CloseHandle scm x2 w4)"
        "w4 = w3 \<or> stop_wait scm x2 ms 0 w3 = Some w4"
        by (auto simp: StopServiceByName_def sc_fail_def Let_def split: if_splits)
      then have "v w4 = v w3" using stop_wait_keeps [OF led] by metis
      with w4(1) Some \<open>h1 = Some x1\<close> v1 v2 v3 cl show ?thesis by auto
    qed
  qed
qed

text \<open>The calls of a client, one after the other; \<open>None\<close> when one does not return.\<close>

datatype scm_call =
    CRegister xstring xstring xstring StartupType
  | CDelete xstring
  | CStart xstring
  | CStop xstring u32
  | CRestart xstring
  | CQuery xstring ServiceInfo
  | CQueries "xstring list"

fun run_call :: "'w scm \<Rightarrow> scm_call \<Rightarrow> 'w \<Rightarrow> 'w option" where
  "run_call scm (CRegister n d b t) w = Some (snd (RegisterService scm n d b t [] w))"
| "run_call scm (CDelete n) w = Some (snd (DeleteServiceByName scm n [] w))"
| "run_call scm (CStart n) w = Some (snd (StartServiceByName scm n [] w))"
| "run_call scm (CStop n ms) w = map_option snd (StopServiceByName scm n [] ms w)"
| "run_call scm (CRestart n) w = map_option snd (RestartService scm n [] w)"
| "run_call scm (CQuery n i) w = Some (snd (QueryService scm n i [] w))"
| "run_call scm (CQueries ns) w = Some (snd (QueryServices scm ns w))"

fun run_calls :: "'w scm \<Rightarrow> scm_call list \<Rightarrow> 'w \<Rightarrow> 'w option" where
  "run_calls scm [] w = Some w"
| "run_calls scm (c # cs) w = Option.bind (run_call scm c w) (run_calls scm cs)"

lemma run_call_keeps:
  assumes "sc_ledger scm v" and "run_call scm c w = Some w'"
  shows "v w' = v w"
proof (cases c)
  case (CStop n ms)
  with assms StopServiceByName_keeps [OF assms(1)] show ?thesis by auto
next
  case (CRestart n)
  with assms obtain r w1 where "StopServiceByName scm n xs_default 5000 w = Some (r, w1)"
    "w' = snd (StartServiceByName scm n [] w1)"
    by (auto simp: RestartService_def split: option.splits)
  with assms(1) show ?thesis using StopServiceByName_keeps StartServiceByName_keeps by metis
qed (use assms in \<open>auto simp: RegisterService_keeps DeleteServiceByName_keeps StartServiceByName_keeps
      QueryService_keeps QueryServices_keeps\<close>)

subsection \<open>Waiting for a service to stop\<close>

text \<open>The sleeps, counted in the world by \<open>n\<close>.\<close>

definition sc_naps :: "'w scm \<Rightarrow> ('w \<Rightarrow> nat) \<Rightarrow> bool" where
  "sc_naps scm n =
     ((\<forall>m w. n (sc_Sleep scm m w) = Suc (n w)) \<and> (\<forall>h w. n (snd (sc_QueryStatus scm h w)) = n w)
      \<and> (\<forall>h w. n (snd (sc_ControlStop scm h w)) = n w) \<and> (\<forall>a w. n (snd (sc_OpenSCManager scm a w)) = n w)
      \<and> (\<forall>h m a w. n (snd (sc_OpenService scm h m a w)) = n w) \<and> (\<forall>h w. n (sc_CloseHandle scm h w) = n w))"

lemma nap_count: "k < m \<Longrightarrow> Suc ((m - (k + 200) + 199) div 200) \<le> (m - k + 199) div (200::nat)"
proof -
  assume "k < m"
  show "Suc ((m - (k + 200) + 199) div 200) \<le> (m - k + 199) div 200"
  proof (cases "k + 200 \<le> m")
    case True
    then have "m - k + 199 = (m - (k + 200) + 199) + 200" by simp
    then show ?thesis by (simp only: div_add_self2)
  next
    case False
    with \<open>k < m\<close> have "m - (k + 200) + 199 = 199" "200 \<le> m - k + 199" by simp_all
    then show ?thesis using div_le_mono [of 200 "m - k + 199" 200] by simp
  qed
qed

lemma stop_wait_ends:
  assumes "sc_naps scm n" and "unat ms \<le> 2 ^ 32 - 200"
  shows "\<exists>w'. stop_wait scm h ms k w = Some w' \<and> n w' \<le> n w + (unat ms - unat k + 199) div 200"
proof (induction "unat ms - unat k" arbitrary: k w rule: less_induct)
  case less
  show ?case
  proof (cases "k < ms")
    case False
    then show ?thesis by (subst stop_wait.simps) simp
  next
    case True
    then have lt: "unat k < unat ms" by (simp add: word_less_nat_alt)
    obtain q st w1 where qs: "sc_QueryStatus scm h w = ((q, st), w1)" by (metis surj_pair)
    then have n1: "n w1 = n w" using assms(1) unfolding sc_naps_def by (metis snd_conv)
    show ?thesis
    proof (cases "q = 0 \<or> st = SERVICE_STOPPED")
      case True
      with \<open>k < ms\<close> qs n1 show ?thesis by (subst stop_wait.simps) auto
    next
      case False
      have up: "unat (k + 200) = unat k + 200"
        using lt assms(2) by (subst unat_word_ariths) simp
      with lt obtain w' where w': "stop_wait scm h ms (k + 200) (sc_Sleep scm 200 w1) = Some w'"
        "n w' \<le> n (sc_Sleep scm 200 w1) + (unat ms - unat (k + 200) + 199) div 200"
        using less [of "k + 200" "sc_Sleep scm 200 w1"] diff_less_mono2 [of "unat k" "unat k + 200" "unat ms"] by auto
      have nap: "n (sc_Sleep scm 200 w1) = Suc (n w)" using assms(1) n1 by (simp add: sc_naps_def)
      have "stop_wait scm h ms k w = Some w'"
        using \<open>k < ms\<close> qs False w'(1) by (subst stop_wait.simps) simp
      moreover have "Suc ((unat ms - unat (k + 200) + 199) div 200) \<le> (unat ms - unat k + 199) div 200"
        using nap_count [OF lt] up by simp
      ultimately show ?thesis using w'(2) nap by auto
    qed
  qed
qed

lemma stop_wait_forever:
  assumes stuck: "\<And>w. \<exists>q st w'. sc_QueryStatus scm h w = ((q, st), w') \<and> q \<noteq> 0 \<and> st \<noteq> SERVICE_STOPPED"
    and "2 ^ 32 - 8 < unat ms" and "8 dvd unat k"
  shows "stop_wait scm h ms k w = None"
proof (rule ccontr)
  assume "stop_wait scm h ms k w \<noteq> None"
  then obtain w' where ret: "stop_wait scm h ms k w = Some w'" by blast
  let ?S = "\<lambda>scm h. \<forall>w. \<exists>q st w'. sc_QueryStatus scm h w = ((q, st), w') \<and> q \<noteq> 0 \<and> st \<noteq> SERVICE_STOPPED"
  have step: "k < ms \<and> 8 dvd unat (k + 200)" if "8 dvd unat k" "2 ^ 32 - 8 < unat ms" for k ms :: u32
  proof
    have "unat k < 2 ^ 32" using unsigned_less [of k, where ?'a = nat] by simp
    with that(1) have "unat k \<le> 2 ^ 32 - 8" by (auto simp: dvd_def)
    with that(2) show "k < ms" by (simp add: word_less_nat_alt)
    have "8 dvd (unat k + 200) mod 2 ^ 32"
      using that(1) by (subst dvd_mod_iff) (auto simp: dvd_add)
    then show "8 dvd unat (k + 200)" by (subst unat_word_ariths) simp
  qed
  have "?S scm h \<longrightarrow> 2 ^ 32 - 8 < unat ms \<longrightarrow> 8 dvd unat k \<longrightarrow> False"
  proof (rule stop_wait.raw_induct [where P = "\<lambda>scm h ms k w w'. ?S scm h \<longrightarrow> 2 ^ 32 - 8 < unat ms \<longrightarrow> 8 dvd unat k \<longrightarrow> False", OF _ ret])
    fix f :: "'a scm \<Rightarrow> nat \<Rightarrow> u32 \<Rightarrow> u32 \<Rightarrow> 'a \<Rightarrow> 'a option" and scm :: "'a scm" and h ms k w y
    assume IH: "\<And>scm h ms k w y. f scm h ms k w = Some y \<Longrightarrow> ?S scm h \<longrightarrow> 2 ^ 32 - 8 < unat ms \<longrightarrow> 8 dvd unat k \<longrightarrow> False"
      and run: "(if k < ms then let ((q, state), w1) = sc_QueryStatus scm h w in if q = 0 then Some w1
          else if state = SERVICE_STOPPED then Some w1 else f scm h ms (k + 200) (sc_Sleep scm 200 w1) else Some w) = Some y"
    show "?S scm h \<longrightarrow> 2 ^ 32 - 8 < unat ms \<longrightarrow> 8 dvd unat k \<longrightarrow> False"
    proof (intro impI)
      assume s: "?S scm h" and ms: "2 ^ 32 - 8 < unat ms" and k: "8 dvd unat k"
      from s obtain q st w1 where "sc_QueryStatus scm h w = ((q, st), w1)" "q \<noteq> 0" "st \<noteq> SERVICE_STOPPED" by blast
      with run step [OF k ms] have "f scm h ms (k + 200) (sc_Sleep scm 200 w1) = Some y" by simp
      from IH [OF this] s ms step [OF k ms] show False by simp
    qed
  qed
  with assms show False by blast
qed

subsection \<open>What the SCM stores\<close>

text \<open>
  The table of the services seen in the world by \<open>tbl\<close> (configuration and delayed flag), and by \<open>nm\<close>
  which service a handle belongs to, as Windows documents the calls when they work.
\<close>

definition sc_stores ::
    "'w scm \<Rightarrow> ('w \<Rightarrow> xstring \<Rightarrow> (service_config \<times> bool) option) \<Rightarrow> ('w \<Rightarrow> nat \<Rightarrow> xstring option) \<Rightarrow> bool" where
  "sc_stores scm tbl nm =
     ((\<forall>a w h w'. sc_OpenSCManager scm a w = (h, w') \<longrightarrow> tbl w' = tbl w)
      \<and> (\<forall>m n d t b w h w'. sc_CreateService scm m n d t b w = (Some h, w') \<longrightarrow>
           tbl w' = (tbl w)(n \<mapsto> (\<lparr>lpBinaryPathName = b, lpDisplayName = d, dwStartType = t\<rparr>, False)) \<and> nm w' h = Some n)
      \<and> (\<forall>h w n c fl i w'. nm w h = Some n \<longrightarrow> tbl w n = Some (c, fl) \<longrightarrow> sc_SetDelayed scm h w = (i, w') \<longrightarrow>
           tbl w' = (tbl w)(n \<mapsto> (c, True)))
      \<and> (\<forall>m n a w h w'. sc_OpenService scm m n a w = (Some h, w') \<longrightarrow> tbl w' = tbl w \<and> nm w' h = Some n)
      \<and> (\<forall>h w. tbl (sc_CloseHandle scm h w) = tbl w)
      \<and> (\<forall>h w x w'. sc_QueryStatusEx scm h w = (x, w') \<longrightarrow> tbl w' = tbl w \<and> nm w' = nm w)
      \<and> (\<forall>h w n c fl. nm w h = Some n \<longrightarrow> tbl w n = Some (c, fl) \<longrightarrow>
           (\<exists>w'. sc_QueryConfig scm h w = ((1, c), w') \<and> tbl w' = tbl w \<and> nm w' = nm w))
      \<and> (\<forall>h w n c fl. nm w h = Some n \<longrightarrow> tbl w n = Some (c, fl) \<longrightarrow>
           (\<exists>w'. sc_QueryDelayed scm h w = ((1, if fl then 1 else 0), w'))))"

lemma sc_storesD:
  assumes "sc_stores scm tbl nm"
  shows "sc_OpenSCManager scm a w = (ho, w') \<Longrightarrow> tbl w' = tbl w"
    and "sc_CreateService scm m n d t b w = (Some h, w') \<Longrightarrow>
      tbl w' = (tbl w)(n \<mapsto> (\<lparr>lpBinaryPathName = b, lpDisplayName = d, dwStartType = t\<rparr>, False)) \<and> nm w' h = Some n"
    and "nm w h = Some n \<Longrightarrow> tbl w n = Some (c, fl) \<Longrightarrow> sc_SetDelayed scm h w = (i, w') \<Longrightarrow> tbl w' = (tbl w)(n \<mapsto> (c, True))"
    and "sc_OpenService scm m n a w = (Some h, w') \<Longrightarrow> tbl w' = tbl w \<and> nm w' h = Some n"
    and "tbl (sc_CloseHandle scm h w) = tbl w"
    and "sc_QueryStatusEx scm h w = (x, w') \<Longrightarrow> tbl w' = tbl w \<and> nm w' = nm w"
    and "nm w h = Some n \<Longrightarrow> tbl w n = Some (c, fl) \<Longrightarrow>
      \<exists>w'. sc_QueryConfig scm h w = ((1, c), w') \<and> tbl w' = tbl w \<and> nm w' = nm w"
    and "nm w h = Some n \<Longrightarrow> tbl w n = Some (c, fl) \<Longrightarrow> \<exists>w'. sc_QueryDelayed scm h w = ((1, if fl then 1 else 0), w')"
  using assms unfolding sc_stores_def by metis+

lemma c_str_of_idem [simp]: "c_str_of (c_str_of s) = c_str_of s"
  unfolding c_str_of_def by (auto simp: takeWhile_eq_all_conv dest: set_takeWhileD)

text \<open>What RegisterService leaves in the table when it returns true.\<close>

lemma RegisterService_stores:
  assumes st: "sc_stores scm tbl nm" and "RegisterService scm n d b t e w = ((True, e1), w1)"
  shows "tbl w1 (c_str_of n) = Some (\<lparr>lpBinaryPathName = c_str_of b, lpDisplayName = c_str_of d, dwStartType = ToScmStartType t\<rparr>,
     t = AutomaticDelayedStart)"
proof -
  obtain h wa where o1: "sc_OpenSCManager scm SC_MANAGER_CREATE_SERVICE w = (h, wa)" by fastforce
  obtain x where h: "h = Some x" using assms(2) o1
    by (cases h) (auto simp: RegisterService_def owning_def sc_fail_def)
  obtain g wb where o2: "sc_CreateService scm x (c_str_of n) (c_str_of d) (ToScmStartType t) (c_str_of b) wa = (g, wb)" by fastforce
  obtain y where g: "g = Some y" using assms(2) o1 o2 h
    by (cases g) (auto simp: RegisterService_def owning_def sc_fail_def)
  obtain i wc where dl: "sc_SetDelayed scm y wb = (i, wc)" by fastforce
  let ?c = "\<lparr>lpBinaryPathName = c_str_of b, lpDisplayName = c_str_of d, dwStartType = ToScmStartType t\<rparr>"
  have b: "tbl wb (c_str_of n) = Some (?c, False)" "nm wb y = Some (c_str_of n)"
    using sc_storesD(2) [OF st o2 [unfolded g]] by simp_all
  have c: "tbl wc (c_str_of n) = Some (?c, True)" using sc_storesD(3) [OF st b(2,1) dl] by simp
  show ?thesis
    using assms(2) o1 o2 h g dl b c sc_storesD(5) [OF st]
    by (auto simp: RegisterService_def owning_def Let_def split: if_splits)
qed

text \<open>What QueryService reads from it when it returns true.\<close>

lemma QueryService_reads:
  assumes st: "sc_stores scm tbl nm" and "QueryService scm n i0 e w = ((True, i, e1), w1)"
    and tb: "tbl w (c_str_of n) = Some (c, fl)"
  shows "siServiceName i = n \<and> siDisplayName i = c_str_of (lpDisplayName c) \<and> siBinaryPath i = c_str_of (lpBinaryPathName c)
    \<and> siStartupType i = (if dwStartType c = SERVICE_DISABLED then Disabled else if dwStartType c = SERVICE_DEMAND_START then Manual
         else if fl then AutomaticDelayedStart else Automatic)"
proof -
  obtain h wa where o1: "sc_OpenSCManager scm SC_MANAGER_CONNECT w = (h, wa)" by fastforce
  obtain x where h: "h = Some x" using assms(2) o1
    by (cases h) (auto simp: QueryService_def owning_def)
  obtain g wb where o2: "sc_OpenService scm x (c_str_of n) (SERVICE_QUERY_STATUS OR SERVICE_QUERY_CONFIG) wa = (g, wb)" by fastforce
  obtain y where g: "g = Some y" using assms(2) o1 o2 h
    by (cases g) (auto simp: QueryService_def owning_def)
  have a: "tbl wa (c_str_of n) = Some (c, fl)" using sc_storesD(1) [OF st o1] tb by simp
  have b: "tbl wb (c_str_of n) = Some (c, fl)" "nm wb y = Some (c_str_of n)"
    using sc_storesD(4) [OF st o2 [unfolded g]] a by simp_all
  obtain j wc where qs: "query_status scm y (i0\<lparr>siServiceName := n\<rparr>) wb = (j, wc)" by fastforce
  have wc: "tbl wc (c_str_of n) = Some (c, fl)" "nm wc y = Some (c_str_of n)" "siServiceName j = n"
    using qs b sc_storesD(6) [OF st] unfolding query_status_def
    by (auto simp: Let_def split: prod.splits if_splits)
  obtain k wd where qc: "query_config scm y j wc = (k, wd)" by fastforce
  have k: "k = i"
    using assms(2) o1 o2 h g qs qc by (auto simp: QueryService_def owning_def)
  obtain we where "sc_QueryConfig scm y wc = ((1, c), we)" "tbl we = tbl wc" "nm we = nm wc"
    using sc_storesD(7) [OF st wc(2,1)] by blast
  moreover then obtain wf where "sc_QueryDelayed scm y we = ((1, if fl then 1 else 0), wf)"
    using sc_storesD(8) [OF st] wc by metis
  ultimately show ?thesis using qc wc(3) unfolding k query_config_def by auto
qed

subsection \<open>Properties\<close>

text \<open>C24: no call leaks a service handle. After any sequence of calls, whichever of them failed and
  wherever they failed, the handles of the process are those it had before.\<close>

theorem scm_handles_closed:
  assumes "sc_ledger scm v" and "run_calls scm cs w = Some w'"
  shows "v w' = v w"
  using assms(2)
proof (induction cs arbitrary: w)
  case (Cons c cs)
  then obtain w1 where "run_call scm c w = Some w1" "run_calls scm cs w1 = Some w'"
    by (cases "run_call scm c w") auto
  with Cons.IH run_call_keeps [OF assms(1)] show ?case by metis
qed simp



text \<open>QueryServices lists exactly the services that can be queried, in the order of the names.\<close>

lemma QueryServices_lists_known:
  assumes "\<And>name w. fst (fst (QueryService scm name si_new xs_default w)) = known name"
  shows "map siServiceName (fst (QueryServices scm names w)) = filter known names"
proof (induction names arbitrary: w)
  case (Cons name names)
  have "siServiceName (fst (snd (fst (QueryService scm name i e w)))) = name"
    if "fst (fst (QueryService scm name i e w))" for i e
  proof -
    have status: "siServiceName (fst (query_status scm h j x)) = siServiceName j" for h j x
      by (simp add: query_status_def Let_def split: prod.split)
    have config: "siServiceName (fst (query_config scm h j x)) = siServiceName j" for h j x
      by (simp add: query_config_def Let_def split: prod.split)
    from that show ?thesis
      by (auto simp: QueryService_def owning_def Let_def case_prod_beta status config split: option.splits)
  qed
  with assms [of name w] Cons.IH show ?case by (auto simp: Let_def case_prod_beta)
qed simp

text \<open>Asked to wait without end (INFINITE) for a service that never stops, it never returns.\<close>

lemma StopService_INFINITE_never_returns:
  assumes "\<And>w. \<exists>q st w'. sc_QueryStatus scm h w = ((q, st), w') \<and> q \<noteq> 0 \<and> st \<noteq> SERVICE_STOPPED"
    and "sc_OpenSCManager scm SC_MANAGER_CONNECT w = (Some m, w1)"
    and "sc_OpenService scm m (c_str_of n) (SERVICE_STOP OR SERVICE_QUERY_STATUS) w1 = (Some h, w2)"
    and "sc_ControlStop scm h w2 = (c, w3)" and "c \<noteq> 0"
  shows "StopServiceByName scm n e 0xFFFFFFFF w = None"
  using stop_wait_forever [of scm h "0xFFFFFFFF" 0, OF assms(1)] assms(2-5)
  by (simp add: StopServiceByName_def)

text \<open>A service manager whose world holds the table, the services of the handles, the handles and the
  number of sleeps. A service that is told to stop stays in STOP_PENDING.\<close>

record toy_scm =
  tyTbl :: "xstring \<Rightarrow> (service_config \<times> bool) option"
  tyName :: "nat \<Rightarrow> xstring option"
  tyOpen :: "nat set"
  tyNaps :: nat

definition toy_open :: "nat \<Rightarrow> toy_scm \<Rightarrow> nat option \<times> toy_scm" where
  "toy_open h w = (if h \<in> tyOpen w then (None, w) else (Some h, w\<lparr>tyOpen := insert h (tyOpen w)\<rparr>))"

definition toy :: "toy_scm scm" where
  "toy = \<lparr>sc_mb2wc = map ucast, sc_GetLastError = \<lambda>w. 1062,
     sc_OpenSCManager = \<lambda>a. toy_open 0,
     sc_CreateService = \<lambda>m n d t b w. (if tyTbl w n \<noteq> None \<or> 1 \<in> tyOpen w then (None, w) else
        (Some 1, w\<lparr>tyOpen := insert 1 (tyOpen w), tyName := (tyName w)(1 := Some n),
          tyTbl := (tyTbl w)(n \<mapsto> (\<lparr>lpBinaryPathName = b, lpDisplayName = d, dwStartType = t\<rparr>, False))\<rparr>)),
     sc_OpenService = \<lambda>m n a w. (if tyTbl w n = None \<or> 1 \<in> tyOpen w then (None, w) else
        (Some 1, w\<lparr>tyOpen := insert 1 (tyOpen w), tyName := (tyName w)(1 := Some n)\<rparr>)),
     sc_CloseHandle = \<lambda>h w. w\<lparr>tyOpen := tyOpen w - {h}\<rparr>,
     sc_SetDelayed = \<lambda>h w. (1, case tyName w h of None \<Rightarrow> w
        | Some n \<Rightarrow> w\<lparr>tyTbl := (tyTbl w)(n := map_option (\<lambda>(c, f). (c, True)) (tyTbl w n))\<rparr>),
     sc_QueryStatus = \<lambda>h w. ((1, SERVICE_STOP_PENDING), w), sc_ControlStop = \<lambda>h w. (1, w),
     sc_DeleteService = \<lambda>h w. (1, case tyName w h of None \<Rightarrow> w | Some n \<Rightarrow> w\<lparr>tyTbl := (tyTbl w)(n := None)\<rparr>),
     sc_StartService = \<lambda>h w. (0, w),
     sc_QueryStatusEx = \<lambda>h w. ((1, \<lparr>dwCurrentState = SERVICE_STOP_PENDING, dwWin32ExitCode = 0\<rparr>), w),
     sc_QueryConfig = \<lambda>h w. (case Option.bind (tyName w h) (tyTbl w) of
        None \<Rightarrow> ((0, \<lparr>lpBinaryPathName = [], lpDisplayName = [], dwStartType = 0\<rparr>), w) | Some (c, f) \<Rightarrow> ((1, c), w)),
     sc_QueryDelayed = \<lambda>h w. (case Option.bind (tyName w h) (tyTbl w) of
        None \<Rightarrow> ((0, 0), w) | Some (c, f) \<Rightarrow> ((1, if f then 1 else 0), w)),
     sc_Sleep = \<lambda>m w. w\<lparr>tyNaps := Suc (tyNaps w)\<rparr>\<rparr>"

definition toy_empty :: toy_scm where
  "toy_empty = \<lparr>tyTbl = (\<lambda>_. None), tyName = (\<lambda>_. None), tyOpen = {}, tyNaps = 0\<rparr>"

lemma toy_ledger: "sc_ledger toy tyOpen"
  by (auto simp: sc_ledger_def ho.opened_def ho.closes_def toy_def toy_open_def split: option.splits)

lemma toy_naps: "sc_naps toy tyNaps"
  by (auto simp: sc_naps_def toy_def toy_open_def)

lemma toy_stores: "sc_stores toy tyTbl tyName"
  by (auto simp: sc_stores_def toy_def toy_open_def split: option.splits if_splits)

lemmas toy_run = toy_def toy_open_def toy_empty_def RegisterService_def DeleteServiceByName_def StartServiceByName_def with_service_def
  owning_def sc_fail_def QueryService_def query_status_def query_config_def c_str_of_def ToScmStartType_def Let_def AppendLastError_def

theorem scm_handles_closed_witness:
  "\<exists>w. run_calls toy [CRegister [65] [66] [67] AutomaticDelayedStart, CRegister [65] [] [] Manual, CStart [65], CDelete [65], CQueries [[65]]]
       toy_empty = Some w \<and> tyOpen w = tyOpen toy_empty"
proof -
  let ?cs = "[CRegister [65] [66] [67] AutomaticDelayedStart, CRegister [65] [] [] Manual, CStart [65], CDelete [65], CQueries [[65]]]"
  obtain w where w: "run_calls toy ?cs toy_empty = Some w" by simp
  with scm_handles_closed [OF toy_ledger w] show ?thesis by blast
qed



lemma QueryServices_lists_known_witness:
  "map siServiceName (fst (QueryServices (toy\<lparr>sc_OpenSCManager := \<lambda>a w. (Some 0, w),
       sc_OpenService := \<lambda>m n a w. (if n = [65] then Some 1 else None, w)\<rparr>) [[66], [65], [67], [65]] toy_empty)) = [[65], [65]]"
proof -
  let ?scm = "toy\<lparr>sc_OpenSCManager := \<lambda>a w. (Some 0, w), sc_OpenService := \<lambda>m n a w. (if n = [65] then Some 1 else None, w)\<rparr>"
  have "fst (fst (QueryService ?scm name si_new xs_default w)) = (c_str_of name = [65])" for name w
    by (simp add: QueryService_def owning_def Let_def case_prod_beta)
  from QueryServices_lists_known [OF this, of "[[66], [65], [67], [65]]" toy_empty] show ?thesis
    by (simp add: c_str_of_def)
qed

text \<open>When the time is up StopServiceByName returns true although the service runs on.\<close>

lemma StopService_true_while_pending:
  "\<exists>w'. StopServiceByName toy [65] [] 200 (snd (RegisterService toy [65] [] [] Manual [] toy_empty)) = Some ((True, []), w')
     \<and> fst (sc_QueryStatus toy 1 w') = (1, SERVICE_STOP_PENDING)"
  by (simp add: toy_run StopServiceByName_def stop_wait.simps)

text \<open>QueryService leaves in outInfo what it does not overwrite: the remark of an earlier error stays.\<close>

lemma QueryService_keeps_remark:
  "\<exists>i w'. QueryService toy [65] (si_new\<lparr>siRunState := RsError, siRemark := [33]\<rparr>) []
       (snd (RegisterService toy [65] [] [] Manual [] toy_empty)) = ((True, i, []), w')
     \<and> siRunState i = RsStopPending \<and> siRemark i = [33]"
  by (simp add: toy_run si_new_def ToRunState_def)

end
