(* ===== verification/Win_Session.thy ===== *)
theory Win_Session
  imports Win_Service
begin

text \<open>
  Windows/EXSession.cpp, which starts a process in the session of the user at the console, and
  TerminateProcessById of Windows/EXProcess.cpp. The calls of Windows are the record \<open>tok\<close> over an
  outside world \<open>'w\<close>; a handle or block that a call fails to give is \<open>None\<close>. The operations return
  the values of their reference parameters with their result.
\<close>

subsection \<open>Windows\<close>

record proc_info =
  hProcess :: nat
  hThread :: nat
  dwProcessId :: u32

record 'w tok =
  tk_mb2wc :: "byte list \<Rightarrow> xstring"
  tk_GetLastError :: "'w \<Rightarrow> u32"
  tk_OpenProcessToken :: "'w \<Rightarrow> nat option \<times> 'w"
  tk_LookupPrivilegeValue :: "string \<Rightarrow> 'w \<Rightarrow> nat option \<times> 'w"
  tk_AdjustTokenPrivileges :: "nat \<Rightarrow> nat \<Rightarrow> 'w \<Rightarrow> int \<times> 'w"
  tk_CloseHandle :: "nat \<Rightarrow> 'w \<Rightarrow> 'w"
  tk_ActiveConsoleSessionId :: "'w \<Rightarrow> u32 \<times> 'w"
  tk_QueryUserToken :: "u32 \<Rightarrow> 'w \<Rightarrow> nat option \<times> 'w"
  tk_DuplicateTokenEx :: "nat \<Rightarrow> 'w \<Rightarrow> nat option \<times> 'w"
  tk_CreateEnvironmentBlock :: "nat \<Rightarrow> 'w \<Rightarrow> nat option \<times> 'w"
  tk_DestroyEnvironmentBlock :: "nat \<Rightarrow> 'w \<Rightarrow> 'w"
  tk_CreateProcessAsUser :: "nat \<Rightarrow> xstring \<Rightarrow> nat \<Rightarrow> xstring option \<Rightarrow> 'w \<Rightarrow> proc_info option \<times> 'w"
  tk_OpenProcess :: "u32 \<Rightarrow> 'w \<Rightarrow> nat option \<times> 'w"
  tk_TerminateProcess :: "nat \<Rightarrow> 'w \<Rightarrow> int \<times> 'w"

abbreviation ERROR_NOT_ALL_ASSIGNED :: u32 where "ERROR_NOT_ALL_ASSIGNED \<equiv> 1300"

subsection \<open>EXSession.cpp\<close>

definition set_error :: "'w tok \<Rightarrow> xstring \<Rightarrow> string \<Rightarrow> xstring" where
  "set_error tok outError what = xs_assign_cstr (tk_mb2wc tok) outError (Some (blit what))"

definition EnablePrivilege :: "'w tok \<Rightarrow> string \<Rightarrow> xstring \<Rightarrow> 'w \<Rightarrow> (bool \<times> xstring) \<times> 'w" where
  "EnablePrivilege tok privilegeName outError w =
     (case tk_OpenProcessToken tok w of
        (None, w1) \<Rightarrow> ((False, set_error tok outError ''OpenProcessToken failed''), w1)
      | (Some hToken, w1) \<Rightarrow>
          (case tk_LookupPrivilegeValue tok privilegeName w1 of
             (None, w2) \<Rightarrow> ((False, set_error tok outError ''LookupPrivilegeValue failed''), tk_CloseHandle tok hToken w2)
           | (Some luid, w2) \<Rightarrow>
               (let (isAdjusted, w3) = tk_AdjustTokenPrivileges tok hToken luid w2;
                    dwLastError = tk_GetLastError tok w3;
                    w4 = tk_CloseHandle tok hToken w3
                in if isAdjusted = 0 \<or> dwLastError = ERROR_NOT_ALL_ASSIGNED
                   then ((False, set_error tok outError ''AdjustTokenPrivileges failed - service account probably lacks this privilege''), w4)
                   else ((True, outError), w4))))"

definition GetActiveConsoleSessionId :: "'w tok \<Rightarrow> u32 \<Rightarrow> 'w \<Rightarrow> (bool \<times> u32) \<times> 'w" where
  "GetActiveConsoleSessionId tok outSessionId w =
     (let (dwSessionId, w') = tk_ActiveConsoleSessionId tok w in
      if dwSessionId = 0xFFFFFFFF then ((False, outSessionId), w') else ((True, dwSessionId), w'))"

text \<open>The privileges, enabled one after the other.\<close>

fun enable_all :: "'w tok \<Rightarrow> string list \<Rightarrow> xstring \<Rightarrow> 'w \<Rightarrow> (bool \<times> xstring) \<times> 'w" where
  "enable_all tok [] outError w = ((True, outError), w)"
| "enable_all tok (p # ps) outError w =
     (let ((ok, e), w') = EnablePrivilege tok p outError w in
      if ok then enable_all tok ps e w' else ((False, e), w'))"

text \<open>What follows the do-while block: the objects still held are given back.\<close>

definition launch_cleanup :: "'w tok \<Rightarrow> nat option \<Rightarrow> nat option \<Rightarrow> nat option \<Rightarrow> 'w \<Rightarrow> 'w" where
  "launch_cleanup tok pEnvironment hPrimaryToken hUserToken w =
     (let w1 = (case pEnvironment of None \<Rightarrow> w | Some b \<Rightarrow> tk_DestroyEnvironmentBlock tok b w);
          w2 = (case hPrimaryToken of None \<Rightarrow> w1 | Some h \<Rightarrow> tk_CloseHandle tok h w1)
      in case hUserToken of None \<Rightarrow> w2 | Some h \<Rightarrow> tk_CloseHandle tok h w2)"

definition LaunchProcessInSession ::
    "'w tok \<Rightarrow> u32 \<Rightarrow> xstring \<Rightarrow> xstring \<Rightarrow> u32 \<Rightarrow> xstring \<Rightarrow> 'w \<Rightarrow> (bool \<times> u32 \<times> xstring) \<times> 'w" where
  "LaunchProcessInSession tok dwSessionId sCommandLine sWorkingDir outProcessId outError w =
     (let ((ok, e0), w0) = enable_all tok [''SeTcbPrivilege'', ''SeAssignPrimaryTokenPrivilege'', ''SeIncreaseQuotaPrivilege''] outError w in
      if \<not> ok then ((False, outProcessId, e0), w0)
      else case tk_QueryUserToken tok dwSessionId w0 of
        (None, w1) \<Rightarrow> ((False, outProcessId, set_error tok e0 ''WTSQueryUserToken failed - no interactive user in that session?''), w1)
      | (Some hUserToken, w1) \<Rightarrow>
        (case tk_DuplicateTokenEx tok hUserToken w1 of
           (None, w2) \<Rightarrow> ((False, outProcessId, set_error tok e0 ''DuplicateTokenEx failed''), launch_cleanup tok None None (Some hUserToken) w2)
         | (Some hPrimaryToken, w2) \<Rightarrow>
           (case tk_CreateEnvironmentBlock tok hPrimaryToken w2 of
              (None, w3) \<Rightarrow> ((False, outProcessId, set_error tok e0 ''CreateEnvironmentBlock failed''),
                 launch_cleanup tok None (Some hPrimaryToken) (Some hUserToken) w3)
            | (Some pEnvironment, w3) \<Rightarrow>
              (let vecCmd = xs_toWString sCommandLine @ [0];
                   pWorkingDir = (if \<not> xs_IsEmpty sWorkingDir then Some (c_str_of sWorkingDir) else None)
               in case tk_CreateProcessAsUser tok hPrimaryToken vecCmd pEnvironment pWorkingDir w3 of
                    (None, w4) \<Rightarrow> ((False, outProcessId, set_error tok e0 ''CreateProcessAsUser failed''),
                       launch_cleanup tok (Some pEnvironment) (Some hPrimaryToken) (Some hUserToken) w4)
                  | (Some pi, w4) \<Rightarrow> ((True, dwProcessId pi, e0),
                       launch_cleanup tok (Some pEnvironment) (Some hPrimaryToken) (Some hUserToken)
                         (tk_CloseHandle tok (hProcess pi) (tk_CloseHandle tok (hThread pi) w4)))))))"

definition LaunchProcessInActiveSession ::
    "'w tok \<Rightarrow> xstring \<Rightarrow> xstring \<Rightarrow> u32 \<Rightarrow> xstring \<Rightarrow> 'w \<Rightarrow> (bool \<times> u32 \<times> xstring) \<times> 'w" where
  "LaunchProcessInActiveSession tok sCommandLine sWorkingDir outProcessId outError w =
     (let ((found, dwSessionId), w1) = GetActiveConsoleSessionId tok 0 w in
      if \<not> found then ((False, outProcessId, set_error tok outError ''No active console session (nobody logged in)''), w1)
      else LaunchProcessInSession tok dwSessionId sCommandLine sWorkingDir outProcessId outError w1)"

subsection \<open>EXProcess.cpp\<close>

definition TerminateProcessById :: "'w tok \<Rightarrow> u32 \<Rightarrow> 'w \<Rightarrow> bool \<times> 'w" where
  "TerminateProcessById tok uPID w =
     owning (tk_CloseHandle tok) (tk_OpenProcess tok uPID w) (Pair False)
       (\<lambda>h w1. let (r, w2) = tk_TerminateProcess tok h w1 in (r = 1, w2))"

subsection \<open>What a call leaves behind\<close>

text \<open>
  What the world owes the caller, seen by \<open>k\<close>: the handles, the environment blocks, and the number of
  processes started. A process that starts brings two new handles.
\<close>

definition new_handle :: "('w \<Rightarrow> nat set \<times> nat set \<times> nat) \<Rightarrow> 'w \<Rightarrow> nat option \<times> 'w \<Rightarrow> bool" where
  "new_handle k w hw = (set_option (fst hw) \<inter> fst (k w) = {} \<and> k (snd hw) = (fst (k w) \<union> set_option (fst hw), snd (k w)))"

definition new_block :: "('w \<Rightarrow> nat set \<times> nat set \<times> nat) \<Rightarrow> 'w \<Rightarrow> nat option \<times> 'w \<Rightarrow> bool" where
  "new_block k w bw = (set_option (fst bw) \<inter> fst (snd (k w)) = {}
     \<and> k (snd bw) = (fst (k w), fst (snd (k w)) \<union> set_option (fst bw), snd (snd (k w))))"

definition new_process :: "('w \<Rightarrow> nat set \<times> nat set \<times> nat) \<Rightarrow> 'w \<Rightarrow> proc_info option \<times> 'w \<Rightarrow> bool" where
  "new_process k w pw = (case fst pw of None \<Rightarrow> k (snd pw) = k w
     | Some pi \<Rightarrow> {hProcess pi, hThread pi} \<inter> fst (k w) = {}
         \<and> k (snd pw) = (fst (k w) \<union> {hProcess pi, hThread pi}, fst (snd (k w)), Suc (snd (snd (k w)))))"

definition tok_ledger :: "'w tok \<Rightarrow> ('w \<Rightarrow> nat set \<times> nat set \<times> nat) \<Rightarrow> bool" where
  "tok_ledger tok k =
     ((\<forall>w. new_handle k w (tk_OpenProcessToken tok w)) \<and> (\<forall>i w. new_handle k w (tk_QueryUserToken tok i w))
      \<and> (\<forall>h w. new_handle k w (tk_DuplicateTokenEx tok h w)) \<and> (\<forall>i w. new_handle k w (tk_OpenProcess tok i w))
      \<and> (\<forall>h w. new_block k w (tk_CreateEnvironmentBlock tok h w))
      \<and> (\<forall>h c e d w. new_process k w (tk_CreateProcessAsUser tok h c e d w))
      \<and> (\<forall>h w. k (tk_CloseHandle tok h w) = (fst (k w) - {h}, snd (k w)))
      \<and> (\<forall>x w. k (tk_DestroyEnvironmentBlock tok x w) = (fst (k w), fst (snd (k w)) - {x}, snd (snd (k w))))
      \<and> (\<forall>x w. k (snd (tk_LookupPrivilegeValue tok x w)) = k w)
      \<and> (\<forall>h x w. k (snd (tk_AdjustTokenPrivileges tok h x w)) = k w)
      \<and> (\<forall>w. k (snd (tk_ActiveConsoleSessionId tok w)) = k w)
      \<and> (\<forall>h w. k (snd (tk_TerminateProcess tok h w)) = k w))"

lemma tok_ledgerD:
  assumes "tok_ledger tok k"
  shows "tk_OpenProcessToken tok w = (ho, w') \<Longrightarrow> set_option ho \<inter> fst (k w) = {} \<and> k w' = (fst (k w) \<union> set_option ho, snd (k w))"
    and "tk_QueryUserToken tok i w = (ho, w') \<Longrightarrow> set_option ho \<inter> fst (k w) = {} \<and> k w' = (fst (k w) \<union> set_option ho, snd (k w))"
    and "tk_DuplicateTokenEx tok h w = (ho, w') \<Longrightarrow> set_option ho \<inter> fst (k w) = {} \<and> k w' = (fst (k w) \<union> set_option ho, snd (k w))"
    and "tk_OpenProcess tok i w = (ho, w') \<Longrightarrow> set_option ho \<inter> fst (k w) = {} \<and> k w' = (fst (k w) \<union> set_option ho, snd (k w))"
    and "tk_CreateEnvironmentBlock tok h w = (ho, w') \<Longrightarrow> set_option ho \<inter> fst (snd (k w)) = {}
      \<and> k w' = (fst (k w), fst (snd (k w)) \<union> set_option ho, snd (snd (k w)))"
    and "tk_CreateProcessAsUser tok h c e d w = (None, w') \<Longrightarrow> k w' = k w"
    and "tk_CreateProcessAsUser tok h c e d w = (Some pi, w') \<Longrightarrow> hProcess pi \<notin> fst (k w) \<and> hThread pi \<notin> fst (k w)
      \<and> k w' = (fst (k w) \<union> {hProcess pi, hThread pi}, fst (snd (k w)), Suc (snd (snd (k w))))"
    and "tk_LookupPrivilegeValue tok x w = (ho, w') \<Longrightarrow> k w' = k w"
    and "tk_AdjustTokenPrivileges tok h l w = (a, w') \<Longrightarrow> k w' = k w"
    and "tk_ActiveConsoleSessionId tok w = (j, w') \<Longrightarrow> k w' = k w"
    and "tk_TerminateProcess tok h w = (a, w') \<Longrightarrow> k w' = k w"
proof -
  note L = assms [unfolded tok_ledger_def new_handle_def new_block_def new_process_def]
  show "tk_OpenProcessToken tok w = (ho, w') \<Longrightarrow> set_option ho \<inter> fst (k w) = {} \<and> k w' = (fst (k w) \<union> set_option ho, snd (k w))"
    "tk_QueryUserToken tok i w = (ho, w') \<Longrightarrow> set_option ho \<inter> fst (k w) = {} \<and> k w' = (fst (k w) \<union> set_option ho, snd (k w))"
    "tk_DuplicateTokenEx tok h w = (ho, w') \<Longrightarrow> set_option ho \<inter> fst (k w) = {} \<and> k w' = (fst (k w) \<union> set_option ho, snd (k w))"
    "tk_OpenProcess tok i w = (ho, w') \<Longrightarrow> set_option ho \<inter> fst (k w) = {} \<and> k w' = (fst (k w) \<union> set_option ho, snd (k w))"
    "tk_CreateEnvironmentBlock tok h w = (ho, w') \<Longrightarrow> set_option ho \<inter> fst (snd (k w)) = {}
      \<and> k w' = (fst (k w), fst (snd (k w)) \<union> set_option ho, snd (snd (k w)))"
    "tk_LookupPrivilegeValue tok x w = (ho, w') \<Longrightarrow> k w' = k w" "tk_AdjustTokenPrivileges tok h l w = (a, w') \<Longrightarrow> k w' = k w"
    "tk_ActiveConsoleSessionId tok w = (j, w') \<Longrightarrow> k w' = k w" "tk_TerminateProcess tok h w = (a, w') \<Longrightarrow> k w' = k w"
    using L by (metis fst_conv snd_conv)+
  have P: "new_process k w (tk_CreateProcessAsUser tok h c e d w)" using assms by (simp add: tok_ledger_def)
  then show "tk_CreateProcessAsUser tok h c e d w = (None, w') \<Longrightarrow> k w' = k w"
    and "tk_CreateProcessAsUser tok h c e d w = (Some pi, w') \<Longrightarrow> hProcess pi \<notin> fst (k w) \<and> hThread pi \<notin> fst (k w)
      \<and> k w' = (fst (k w) \<union> {hProcess pi, hThread pi}, fst (snd (k w)), Suc (snd (snd (k w))))"
    by (simp_all add: new_process_def)
qed

lemma tok_close:
  assumes "tok_ledger tok k"
  shows "k (tk_CloseHandle tok h w) = (fst (k w) - {h}, snd (k w))"
    and "k (tk_DestroyEnvironmentBlock tok x w) = (fst (k w), fst (snd (k w)) - {x}, snd (snd (k w)))"
  using assms by (simp_all add: tok_ledger_def)

lemma EnablePrivilege_keeps:
  assumes led: "tok_ledger tok k" and run: "EnablePrivilege tok p e w = ((ok, e'), w')"
  shows "k w' = k w \<and> (ok \<longrightarrow> e' = e)"
proof -
  obtain t w1 where op: "tk_OpenProcessToken tok w = (t, w1)" by fastforce
  obtain l w2 where lk: "tk_LookupPrivilegeValue tok p w1 = (l, w2)" by fastforce
  obtain a w3 where ad: "tk_AdjustTokenPrivileges tok (the t) (the l) w2 = (a, w3)" by fastforce
  obtain H r where kw: "k w = (H, r)" by (cases "k w")
  note K = kw tok_ledgerD(1) [OF led op] tok_ledgerD(8) [OF led lk] tok_ledgerD(9) [OF led ad]
  show ?thesis
    using run op lk ad K
    by (cases t; cases l) (auto simp: EnablePrivilege_def Let_def tok_close [OF led] split: if_splits)
qed

lemma enable_all_keeps:
  assumes "tok_ledger tok k"
  shows "enable_all tok ps e w = ((ok, e'), w') \<Longrightarrow> k w' = k w \<and> (ok \<longrightarrow> e' = e)"
proof (induction ps arbitrary: e w)
  case (Cons p ps)
  obtain ok1 e1 w1 where p: "EnablePrivilege tok p e w = ((ok1, e1), w1)" by (metis surj_pair)
  with Cons EnablePrivilege_keeps [OF assms p] show ?case by (auto split: if_splits)
qed simp

lemma LaunchProcessInSession_keeps:
  assumes led: "tok_ledger tok k" and run: "LaunchProcessInSession tok sid cmd dir pid e w = ((ok, pid', e'), w')"
  shows "k w' = (fst (k w), fst (snd (k w)), snd (snd (k w)) + (if ok then 1 else 0))
     \<and> (\<not> ok \<longrightarrow> pid' = pid) \<and> (ok \<longrightarrow> e' = e)"
proof -
  obtain ok0 e0 w0 where en: "enable_all tok [''SeTcbPrivilege'', ''SeAssignPrimaryTokenPrivilege'', ''SeIncreaseQuotaPrivilege''] e w
      = ((ok0, e0), w0)" by (metis surj_pair)
  note k0 = enable_all_keeps [OF led en]
  obtain u w1 where qu: "tk_QueryUserToken tok sid w0 = (u, w1)" by fastforce
  obtain p w2 where du: "tk_DuplicateTokenEx tok (the u) w1 = (p, w2)" by fastforce
  obtain x w3 where en2: "tk_CreateEnvironmentBlock tok (the p) w2 = (x, w3)" by fastforce
  obtain c w4 where cr: "tk_CreateProcessAsUser tok (the p) (xs_toWString cmd @ [0]) (the x)
      (if \<not> xs_IsEmpty dir then Some (c_str_of dir) else None) w3 = (c, w4)" by fastforce
  obtain H B n where kw: "k w = (H, B, n)" by (metis surj_pair)
  note K = kw k0 tok_ledgerD(2) [OF led qu] tok_ledgerD(3) [OF led du] tok_ledgerD(5) [OF led en2]
  have new: "(c = None \<longrightarrow> k w4 = k w3) \<and> (\<forall>pi. c = Some pi \<longrightarrow> hProcess pi \<notin> fst (k w3) \<and> hThread pi \<notin> fst (k w3)
      \<and> k w4 = (fst (k w3) \<union> {hProcess pi, hThread pi}, fst (snd (k w3)), Suc (snd (snd (k w3)))))"
    using tok_ledgerD(6,7) [OF led] cr by metis
  note run = run [unfolded LaunchProcessInSession_def en prod.case]
  show ?thesis
  proof (cases "\<not> ok0")
    case True
    with run k0 show ?thesis by auto
  next
    case ok0: False
    show ?thesis
    proof (cases "u = None \<or> p = None")
      case True
      with run ok0 qu du K show ?thesis
        by (cases u) (auto simp: launch_cleanup_def tok_close [OF led])
    next
      case False
      then obtain u' p' where "u = Some u'" "p = Some p'" by auto
      with run ok0 qu du en2 cr K new show ?thesis
        by (cases x; cases c) (auto simp: launch_cleanup_def tok_close [OF led] Let_def split: if_splits)
    qed
  qed
qed

lemma TerminateProcessById_keeps:
  assumes "tok_ledger tok k"
  shows "fst (k (snd (TerminateProcessById tok pid w))) = fst (k w)"
  unfolding TerminateProcessById_def
  by (rule ho.own_keeps [where v = "\<lambda>w. fst (k w)"])
    (use assms in \<open>simp_all add: tok_ledger_def new_handle_def ho.opened_def ho.closes_def case_prod_beta\<close>)

subsection \<open>Properties\<close>

text \<open>C27: launching a process gives back everything it takes. On each way out of LaunchProcessInSession
  and of LaunchProcessInActiveSession the handles and environment blocks are those from before the call;
  the call returns true exactly when it started a process, and then one; when it returns false
  outProcessId is untouched, and when it returns true the error text is.\<close>

theorem LaunchProcess_gives_back:
  assumes "tok_ledger tok k"
    and "((ok, pid', e'), w') \<in> {LaunchProcessInSession tok sid cmd dir pid e w, LaunchProcessInActiveSession tok cmd dir pid e w}"
  shows "k w' = (fst (k w), fst (snd (k w)), snd (snd (k w)) + (if ok then 1 else 0))
     \<and> (\<not> ok \<longrightarrow> pid' = pid) \<and> (ok \<longrightarrow> e' = e)"
proof (cases "((ok, pid', e'), w') = LaunchProcessInSession tok sid cmd dir pid e w")
  case True
  then show ?thesis using LaunchProcessInSession_keeps [OF assms(1)] by metis
next
  case False
  obtain i w1 where as: "tk_ActiveConsoleSessionId tok w = (i, w1)" by fastforce
  have "k w1 = k w" using tok_ledgerD(10) [OF assms(1) as] .
  with False assms(2) as LaunchProcessInSession_keeps [OF assms(1), of i cmd dir pid e w1 ok pid' e' w'] show ?thesis
    by (auto simp: LaunchProcessInActiveSession_def GetActiveConsoleSessionId_def split: if_splits)
qed

text \<open>A system whose world is what the ledger sees. The command line tells whether a process can start.\<close>

definition toy_tok :: "(nat set \<times> nat set \<times> nat) tok" where
  "toy_tok = \<lparr>tk_mb2wc = map ucast, tk_GetLastError = \<lambda>w. 0,
     tk_OpenProcessToken = \<lambda>w. (if 1 \<in> fst w then (None, w) else (Some 1, (insert 1 (fst w), snd w))),
     tk_LookupPrivilegeValue = \<lambda>p w. (Some 20, w), tk_AdjustTokenPrivileges = \<lambda>h l w. (1, w),
     tk_CloseHandle = \<lambda>h w. (fst w - {h}, snd w), tk_ActiveConsoleSessionId = \<lambda>w. (3, w),
     tk_QueryUserToken = \<lambda>i w. (if 2 \<in> fst w then (None, w) else (Some 2, (insert 2 (fst w), snd w))),
     tk_DuplicateTokenEx = \<lambda>h w. (if 3 \<in> fst w then (None, w) else (Some 3, (insert 3 (fst w), snd w))),
     tk_CreateEnvironmentBlock = \<lambda>h w. (if 4 \<in> fst (snd w) then (None, w) else (Some 4, (fst w, insert 4 (fst (snd w)), snd (snd w)))),
     tk_DestroyEnvironmentBlock = \<lambda>x w. (fst w, fst (snd w) - {x}, snd (snd w)),
     tk_CreateProcessAsUser = \<lambda>h c x d w. (if c = [0] \<or> 5 \<in> fst w \<or> 6 \<in> fst w then (None, w) else
        (Some \<lparr>hProcess = 5, hThread = 6, dwProcessId = 77\<rparr>, (fst w \<union> {5, 6}, fst (snd w), Suc (snd (snd w))))),
     tk_OpenProcess = \<lambda>i w. (None, w), tk_TerminateProcess = \<lambda>h w. (1, w)\<rparr>"

lemma toy_tok_ledger: "tok_ledger toy_tok (\<lambda>w. w)"
  by (auto simp: tok_ledger_def new_handle_def new_block_def new_process_def toy_tok_def)

lemmas toy_launch = toy_tok_def LaunchProcessInActiveSession_def GetActiveConsoleSessionId_def LaunchProcessInSession_def
  EnablePrivilege_def launch_cleanup_def xs_toWString_def Let_def

theorem LaunchProcess_gives_back_witness:
  "(\<exists>w'. LaunchProcessInActiveSession toy_tok [65] [] 9 [] ({}, {}, 0) = ((True, 77, []), w') \<and> w' = ({}, {}, 1))
   \<and> (\<exists>e' w'. LaunchProcessInActiveSession toy_tok [] [] 9 [] ({}, {}, 0) = ((False, 9, e'), w') \<and> w' = ({}, {}, 0))"
proof
  obtain w' where a: "LaunchProcessInActiveSession toy_tok [65] [] 9 [] ({}, {}, 0) = ((True, 77, []), w')"
    by (simp add: toy_launch)
  with LaunchProcess_gives_back [OF toy_tok_ledger, of True 77 "[]" w' 0 "[65]" "[]" 9 "[]" "({}, {}, 0)"]
  show "\<exists>w'. LaunchProcessInActiveSession toy_tok [65] [] 9 [] ({}, {}, 0) = ((True, 77, []), w') \<and> w' = ({}, {}, 1)"
    by simp
  obtain pid' e' w' where b: "LaunchProcessInActiveSession toy_tok [] [] 9 [] ({}, {}, 0) = ((False, pid', e'), w')"
    by (simp add: toy_launch)
  with LaunchProcess_gives_back [OF toy_tok_ledger, of False pid' e' w' 0 "[]" "[]" 9 "[]" "({}, {}, 0)"]
  show "\<exists>e' w'. LaunchProcessInActiveSession toy_tok [] [] 9 [] ({}, {}, 0) = ((False, 9, e'), w') \<and> w' = ({}, {}, 0)"
    by simp
qed

end
