(* ===== verification/Ipc_Unix.thy ===== *)
theory Ipc_Unix
  imports X_String Event_Queue
begin

text \<open>
  IPC/EXIPC_unix.cpp and EXIPC_unix.h: requests and responses over POSIX shared memory. The named
  objects of the system are the record \<open>usys\<close>: a name leads to an object, which lives on after
  shm_unlink for those that have it open. The memory of an object is seen as an stIPCData (\<open>shCtl\<close>)
  or, for the names that end in DATA, as bytes (\<open>shRaw\<close>), all the bytes that can be accessed: the size
  of an stIPCData rounded up to a page. What happens under a semaphore is one step, so of a semaphore
  only its name counts. The answers of the system are the record \<open>ukernel\<close>.

  A std::string in shared memory (sSenderIPCName) is a pointer into the heap of the process that
  assigned it: \<open>shm_str\<close> has that process with the characters and is \<open>None\<close> in fresh memory, which is
  zeros. Using it in another process, or storing a name through a null pointer, is an error; a name
  of at most \<open>uk_sso\<close> characters is not moved but copied to where the string points (libstdc++).

  Descriptors and mappings are closed by destructors and not modelled, except that the names go when
  they are unlinked; the logging and the last error are not modelled either.
\<close>

subsection \<open>Shared data\<close>

type_synonym uname = "byte list"
type_synonym shm_str = "(u32 \<times> uname) option"

text \<open>The type of the sender's name differs between shared memory and the server's queue.\<close>

record 'n unix_data =
  udReq :: "byte list"
  udReqSize :: nat
  udHasReq :: bool
  udRes :: "byte list"
  udResSize :: nat
  udHasRes :: bool
  udNeedRes :: bool
  udSender :: 'n
  udPid :: u32
  udTimeout :: int
  udInit :: bool
  udCheck :: int

definition ud_zero :: "'n \<Rightarrow> 'n unix_data" where
  "ud_zero nm = \<lparr>udReq = replicate 512 0, udReqSize = 0, udHasReq = False, udRes = replicate 512 0, udResSize = 0,
     udHasRes = False, udNeedRes = False, udSender = nm, udPid = 0, udTimeout = 0, udInit = False, udCheck = 0\<rparr>"

text \<open>sizeof( stIPCData ) of a 64 bit build, and the bytes of an object of that size that can be accessed.\<close>

definition UNIX_SIZE :: nat where
  "UNIX_SIZE = 1112"

datatype trunc_res = TOk | TEinval | TFail

record ukernel =
  uk_page :: nat
  uk_sso :: nat
  uk_creat :: "uname \<Rightarrow> bool"
  uk_open :: "uname \<Rightarrow> bool"
  uk_trunc :: "uname \<Rightarrow> trunc_res"
  uk_sem :: "uname \<Rightarrow> bool"
  uk_mmap :: "nat \<Rightarrow> bool"
  uk_malloc :: "nat \<Rightarrow> bool"
  uk_alive :: "u32 \<Rightarrow> bool"

record usys =
  shNames :: "uname \<Rightarrow> nat option"
  shCtl :: "nat \<Rightarrow> shm_str unix_data"
  shRaw :: "nat \<Rightarrow> byte list"
  shNext :: nat
  shSems :: "uname set"

text \<open>Move assignment, copy assignment and reading of a std::string in shared memory by process \<open>p\<close>. The
  moved-from string frees the old characters; a short name is copied to where the old ones are.\<close>

definition str_move :: "nat \<Rightarrow> u32 \<Rightarrow> shm_str \<Rightarrow> uname \<Rightarrow> shm_str res" where
  "str_move sso p old new =
     (case old of
        None \<Rightarrow> if length new \<le> sso then Inl NullDeref else Inr (Some (p, new))
      | Some (q, _) \<Rightarrow> if q = p then Inr (Some (p, new)) else Inl OutOfBounds)"

definition str_copy :: "u32 \<Rightarrow> shm_str \<Rightarrow> uname \<Rightarrow> shm_str res" where
  "str_copy p old new =
     (case old of
        None \<Rightarrow> if new = [] then Inl NullDeref else Inr (Some (p, new))
      | Some (q, _) \<Rightarrow> if q = p then Inr (Some (p, new)) else Inl OutOfBounds)"

definition str_read :: "u32 \<Rightarrow> shm_str \<Rightarrow> uname res" where
  "str_read p old =
     (case old of None \<Rightarrow> Inr [] | Some (q, s) \<Rightarrow> if q = p then Inr s else Inl OutOfBounds)"

definition getClientIPCName :: "u32 \<Rightarrow> uname \<Rightarrow> uname" where
  "getClientIPCName pid app = blit ''/iMonSHM'' @ map ucast (to_wstring (sint pid)) @ app"

definition getDataIPCName :: "uname \<Rightarrow> uname" where
  "getDataIPCName sIPCName = sIPCName @ blit ''DATA''"

subsection \<open>Shared memory and semaphores\<close>

text \<open>The entries of mapIPC: the name of each IPC and the name of its data.\<close>

type_synonym umap = "(uname \<times> uname) list"

definition isExistIPC :: "umap \<Rightarrow> uname \<Rightarrow> bool" where
  "isExistIPC mapIPC sIPCName = list_ex (\<lambda>(a, d). a = sIPCName \<or> d = sIPCName) mapIPC"

definition shm_unlink :: "uname \<Rightarrow> 'x usys_scheme \<Rightarrow> 'x usys_scheme" where
  "shm_unlink n s = s\<lparr>shNames := (shNames s)(n := None)\<rparr>"

definition sem_unlink :: "uname \<Rightarrow> 'x usys_scheme \<Rightarrow> 'x usys_scheme" where
  "sem_unlink n s = s\<lparr>shSems := shSems s - {n}\<rparr>"

definition cleanupIPC :: "uname \<Rightarrow> bool \<Rightarrow> bool \<Rightarrow> 'x usys_scheme \<Rightarrow> 'x usys_scheme" where
  "cleanupIPC n hasShm hasSem s =
     (let s1 = (if hasShm \<and> n \<noteq> [] then shm_unlink n s else s)
      in if hasSem \<and> n \<noteq> [] then sem_unlink n s1 else s1)"

text \<open>shm_open with O_CREAT: the object of the name, or a new one filled with zeros. ftruncate answers EINVAL when
  the object already has a size, on the systems that allow it only once.\<close>

definition shm_creat :: "nat \<Rightarrow> uname \<Rightarrow> 'x usys_scheme \<Rightarrow> nat \<times> 'x usys_scheme" where
  "shm_creat page n s =
     (case shNames s n of
        Some i \<Rightarrow> (i, s)
      | None \<Rightarrow> (shNext s, s\<lparr>shNames := (shNames s)(n \<mapsto> shNext s), shCtl := (shCtl s)(shNext s := ud_zero None),
           shRaw := (shRaw s)(shNext s := replicate ((UNIX_SIZE + page - 1) div page * page) 0), shNext := Suc (shNext s)\<rparr>))"

definition createShmIPC :: "ukernel \<Rightarrow> umap \<Rightarrow> uname \<Rightarrow> 'x usys_scheme \<Rightarrow> nat option \<times> 'x usys_scheme" where
  "createShmIPC K mapIPC sIPCName s =
     (if isExistIPC mapIPC sIPCName then (None, s)
      else if \<not> uk_creat K sIPCName then (None, s)
      else let (nShmfd, s1) = shm_creat (uk_page K) sIPCName s in
        case uk_trunc K sIPCName of
          TOk \<Rightarrow> (Some nShmfd, s1)
        | TEinval \<Rightarrow> (Some nShmfd, s1)
        | TFail \<Rightarrow> (None, cleanupIPC sIPCName True False s1))"

definition openShmIPC :: "ukernel \<Rightarrow> uname \<Rightarrow> 'x usys_scheme \<Rightarrow> nat option" where
  "openShmIPC K sIPCName s = (if uk_open K sIPCName then shNames s sIPCName else None)"

definition createSemIPC :: "ukernel \<Rightarrow> uname \<Rightarrow> 'x usys_scheme \<Rightarrow> bool \<times> 'x usys_scheme" where
  "createSemIPC K sIPCName s =
     (let s1 = sem_unlink sIPCName s in
      if uk_sem K sIPCName then (True, s1\<lparr>shSems := insert sIPCName (shSems s1)\<rparr>)
      else (False, cleanupIPC sIPCName False False s1))"

definition openSemIPC :: "ukernel \<Rightarrow> uname \<Rightarrow> 'x usys_scheme \<Rightarrow> bool" where
  "openSemIPC K sIPCName s = (uk_sem K sIPCName \<and> sIPCName \<in> shSems s)"

text \<open>openMmapIPC and the Open of CIPCMmap on a valid descriptor: whether there is a mapping. mmap refuses a size of 0.\<close>

definition openMmapIPC :: "ukernel \<Rightarrow> nat \<Rightarrow> bool" where
  "openMmapIPC K n = (0 < n \<and> uk_mmap K n)"

text \<open>The destructors of CIPCShm and CIPCSem with isDeleteOnClose.\<close>

definition shm_Destroy :: "uname \<Rightarrow> 'x usys_scheme \<Rightarrow> 'x usys_scheme" where
  "shm_Destroy n s = (if n \<noteq> [] then shm_unlink n s else s)"

definition sem_Destroy :: "uname \<Rightarrow> 'x usys_scheme \<Rightarrow> 'x usys_scheme" where
  "sem_Destroy n s = (if n \<noteq> [] then sem_unlink n s else s)"

text \<open>memcpy between a buffer and the bytes of a mapped object; behind its last page there is no memory.\<close>

definition raw_write :: "nat \<Rightarrow> byte list \<Rightarrow> byte list \<Rightarrow> byte list res" where
  "raw_write n src raw = (if n \<le> length src \<and> n \<le> length raw then Inr (take n src @ drop n raw) else Inl OutOfBounds)"

subsection \<open>The client\<close>

text \<open>One pass of the send loop: whether the request was placed. \<open>o\<close> is the server's object, \<open>n\<close> the size.\<close>

definition unix_send_try ::
    "ukernel \<Rightarrow> u32 \<Rightarrow> uname \<Rightarrow> int \<Rightarrow> int \<Rightarrow> int \<Rightarrow> uname \<Rightarrow> nat \<Rightarrow> byte list \<Rightarrow> nat \<Rightarrow> 'x usys_scheme
     \<Rightarrow> (bool \<times> 'x usys_scheme) res" where
  "unix_send_try K pid app now timeOutSec nCheck sIPCName ob req n s =
     (let d = shCtl s ob in
      if \<not> openMmapIPC K UNIX_SIZE \<or> udInit d = False \<or> udHasReq d = True then Inr (False, s)
      else case str_move (uk_sso K) pid (udSender d) (getClientIPCName pid app) of
        Inl e \<Rightarrow> Inl e
      | Inr nm \<Rightarrow>
          (let d1 = d\<lparr>udHasRes := False, udPid := pid, udReqSize := n, udSender := nm, udNeedRes := True,
                 udTimeout := now + timeOutSec, udCheck := nCheck\<rparr>;
               s1 = s\<lparr>shCtl := (shCtl s)(ob := d1)\<rparr>
           in if n > 512 \<or> nCheck = 1 then
                (case openShmIPC K (getDataIPCName sIPCName) s1 of
                   None \<Rightarrow> Inr (False, s1)
                 | Some od \<Rightarrow>
                     if \<not> openSemIPC K (getDataIPCName sIPCName) s1 \<or> \<not> openMmapIPC K n then Inr (False, s1)
                     else case raw_write n req (shRaw s1 od) of
                       Inl e \<Rightarrow> Inl e
                     | Inr raw \<Rightarrow> Inr (True, s1\<lparr>shRaw := (shRaw s1)(od := raw),
                                           shCtl := (shCtl s1)(ob := d1\<lparr>udHasReq := True\<rparr>)\<rparr>))
              else if n \<le> length req then
                Inr (True, s1\<lparr>shCtl := (shCtl s1)(ob := d1\<lparr>udReq := take n req @ drop n (udReq d1), udHasReq := True\<rparr>)\<rparr>)
              else Inl OutOfBounds))"

text \<open>One pass of the receive loop on the client's objects \<open>oc\<close> and \<open>od\<close>: whether there was a response, the
  caller's buffer and its \<open>responseSize\<close>.\<close>

definition unix_recv_try ::
    "ukernel \<Rightarrow> int \<Rightarrow> nat \<Rightarrow> nat \<Rightarrow> byte list \<Rightarrow> nat \<Rightarrow> 'x usys_scheme \<Rightarrow> (bool \<times> byte list \<times> nat) res" where
  "unix_recv_try K nCheck oc od buf rsz s =
     (let d = shCtl s oc in
      if openMmapIPC K UNIX_SIZE \<and> udHasReq d = False \<and> udHasRes d = True then
        (let n = udResSize d in
         if n > 512 \<or> nCheck = 1 then
           (if \<not> openMmapIPC K n then Inr (False, buf, n)
            else case raw_write n (shRaw s od) buf of Inl e \<Rightarrow> Inl e | Inr buf' \<Rightarrow> Inr (True, buf', n))
         else case raw_write n (udRes d) buf of Inl e \<Rightarrow> Inl e | Inr buf' \<Rightarrow> Inr (True, buf', n))
      else Inr (False, buf, rsz))"

text \<open>The loops make \<open>timeOutSec * 100\<close> passes at most; what the rest of the system does during the usleep
  after pass \<open>r\<close> (counted down) is \<open>env r\<close>, its answers in the pass \<open>K r\<close>.\<close>

fun unix_send_tries ::
    "(nat \<Rightarrow> 'x usys_scheme \<Rightarrow> 'x usys_scheme) \<Rightarrow> (nat \<Rightarrow> 'x usys_scheme \<Rightarrow> (bool \<times> 'x usys_scheme) res) \<Rightarrow> nat
     \<Rightarrow> 'x usys_scheme \<Rightarrow> (bool \<times> 'x usys_scheme) res" where
  "unix_send_tries env pass 0 s = Inr (False, s)"
| "unix_send_tries env pass (Suc r) s =
     (case pass r s of
        Inl e \<Rightarrow> Inl e
      | Inr (ok, s') \<Rightarrow> if ok then Inr (True, s') else unix_send_tries env pass r (env r s'))"

fun unix_recv_tries ::
    "(nat \<Rightarrow> 'x usys_scheme \<Rightarrow> 'x usys_scheme) \<Rightarrow> (nat \<Rightarrow> byte list \<Rightarrow> nat \<Rightarrow> 'x usys_scheme \<Rightarrow> (bool \<times> byte list \<times> nat) res)
     \<Rightarrow> nat \<Rightarrow> byte list \<Rightarrow> nat \<Rightarrow> 'x usys_scheme \<Rightarrow> (bool \<times> byte list \<times> nat \<times> 'x usys_scheme) res" where
  "unix_recv_tries env pass 0 buf rsz s = Inr (False, buf, rsz, s)"
| "unix_recv_tries env pass (Suc r) buf rsz s =
     (case pass r buf rsz s of
        Inl e \<Rightarrow> Inl e
      | Inr (ok, buf', rsz') \<Rightarrow>
          if ok then Inr (True, buf', rsz', s) else unix_recv_tries env pass r buf' rsz' (env r s))"

text \<open>The four objects of the client: the two of shared memory, or \<open>None\<close> when one cannot be made; their
  destructors take all the names away in any case.\<close>

definition unix_client_open :: "ukernel \<Rightarrow> umap \<Rightarrow> uname \<Rightarrow> 'x usys_scheme \<Rightarrow> (nat \<times> nat) option \<times> 'x usys_scheme" where
  "unix_client_open K mapIPC c s =
     (case createShmIPC K mapIPC c s of
        (None, s1) \<Rightarrow> (None, s1)
      | (Some oc, s1) \<Rightarrow>
          (case createShmIPC K mapIPC (getDataIPCName c) s1 of
             (None, s2) \<Rightarrow> (None, s2)
           | (Some od, s2) \<Rightarrow>
               (let (ok, s3) = createSemIPC K c s2 in
                if \<not> ok then (None, s3)
                else let (ok', s4) = createSemIPC K (getDataIPCName c) s3 in
                  (if ok' then Some (oc, od) else None, s4))))"

definition unix_client_close :: "uname \<Rightarrow> 'x usys_scheme \<Rightarrow> 'x usys_scheme" where
  "unix_client_close c s =
     shm_Destroy c (shm_Destroy (getDataIPCName c) (sem_Destroy c (sem_Destroy (getDataIPCName c) s)))"

definition unix_SendIPC ::
    "(nat \<Rightarrow> ukernel) \<Rightarrow> (nat \<Rightarrow> 'x usys_scheme \<Rightarrow> 'x usys_scheme) \<Rightarrow> int \<Rightarrow> umap \<Rightarrow> u32 \<Rightarrow> uname \<Rightarrow> uname
     \<Rightarrow> byte list \<Rightarrow> nat \<Rightarrow> byte list \<Rightarrow> nat \<Rightarrow> int \<Rightarrow> int \<Rightarrow> 'x usys_scheme \<Rightarrow> (bool \<times> byte list \<times> nat \<times> 'x usys_scheme) res" where
  "unix_SendIPC K env now mapIPC pid app sIPCName requestData n responseData rsz timeOutSec nCheck s =
     (let c = getClientIPCName pid app; passes = nat (timeOutSec * 100) in
      case unix_client_open (K passes) mapIPC c s of
        (None, s1) \<Rightarrow> Inr (False, responseData, rsz, unix_client_close c s1)
      | (Some (oc, od), s1) \<Rightarrow>
          (case openShmIPC (K passes) sIPCName s1 of
             None \<Rightarrow> Inr (False, responseData, rsz, unix_client_close c s1)
           | Some ob \<Rightarrow>
               if \<not> openSemIPC (K passes) sIPCName s1 then Inr (False, responseData, rsz, unix_client_close c s1)
               else case unix_send_tries env (\<lambda>r. unix_send_try (K r) pid app now timeOutSec nCheck sIPCName ob requestData n)
                      passes s1 of
                 Inl e \<Rightarrow> Inl e
               | Inr (False, s2) \<Rightarrow> Inr (False, responseData, rsz, unix_client_close c s2)
               | Inr (True, s2) \<Rightarrow>
                   (case unix_recv_tries env (\<lambda>r. unix_recv_try (K r) nCheck oc od) passes responseData rsz s2 of
                      Inl e \<Rightarrow> Inl e
                    | Inr (isRecv, buf, rsz', s3) \<Rightarrow> Inr (isRecv, buf, rsz', unix_client_close c s3))))"

definition unix_test_msg :: "byte list" where
  "unix_test_msg = [0xF8, 0xF7, 0xF6, 0xF5, 0xF4, 0xF3, 0xF2, 0xF1]"

text \<open>CheckIPC compares the eight bytes of quAnswer, which start as zeros.\<close>

definition unix_CheckIPC ::
    "(nat \<Rightarrow> ukernel) \<Rightarrow> (nat \<Rightarrow> 'x usys_scheme \<Rightarrow> 'x usys_scheme) \<Rightarrow> int \<Rightarrow> umap \<Rightarrow> u32 \<Rightarrow> uname \<Rightarrow> uname \<Rightarrow> int
     \<Rightarrow> 'x usys_scheme \<Rightarrow> (bool \<times> 'x usys_scheme) res" where
  "unix_CheckIPC K env now mapIPC pid app sIPCName nCheck s =
     (case unix_SendIPC K env now mapIPC pid app sIPCName unix_test_msg 8 (replicate 8 0) 8 10 nCheck s of
        Inl e \<Rightarrow> Inl e
      | Inr (ok, quAnswer, _, s') \<Rightarrow> Inr (ok \<and> unix_test_msg = quAnswer, s'))"

subsection \<open>The server\<close>

record 'u unix_server = usys +
  uvName :: uname
  uvQueue :: "uname unix_data equeue"
  uvStop :: bool
  uvCtx :: 'u

text \<open>
  The callback gets the IPC name, the request's bytes and size and the response size. The pointer for the
  response is handed over by value and is null, so a callback can only set the response size and
  change its context.
\<close>

type_synonym 'u unix_callback = "uname \<Rightarrow> byte list \<Rightarrow> nat \<Rightarrow> nat \<Rightarrow> 'u \<Rightarrow> nat \<times> 'u"

definition unix_reset :: "'n unix_data \<Rightarrow> 'n unix_data" where
  "unix_reset d = d\<lparr>udHasReq := False, udHasRes := False, udPid := 0, udNeedRes := False\<rparr>"

text \<open>One pass of the main thread, which has the object \<open>ob\<close> mapped.\<close>

definition unix_main_round :: "ukernel \<Rightarrow> u32 \<Rightarrow> nat \<Rightarrow> 'u unix_server \<Rightarrow> 'u unix_server res" where
  "unix_main_round K pid ob sv =
     (let d = shCtl sv ob in
      if udHasReq d = True then
        (if \<not> uk_alive K (udPid d) then Inr (sv\<lparr>shCtl := (shCtl sv)(ob := unix_reset d)\<rparr>)
         else case str_read pid (udSender d) of
           Inl e \<Rightarrow> Inl e
         | Inr nm \<Rightarrow>
             (let qData = \<lparr>udReq = udReq d, udReqSize = udReqSize d, udHasReq = udHasReq d, udRes = udRes d,
                    udResSize = udResSize d, udHasRes = udHasRes d, udNeedRes = udNeedRes d, udSender = nm, udPid = udPid d,
                    udTimeout = udTimeout d, udInit = udInit d, udCheck = udCheck d\<rparr>
              in Inr (sv\<lparr>uvQueue := uq_EnQueue qData (uvQueue sv), shCtl := (shCtl sv)(ob := unix_reset d)\<rparr>)))
      else Inr sv)"

text \<open>The bytes of a request; \<open>None\<close> where the worker goes on with the next one.\<close>

definition unix_fetch :: "ukernel \<Rightarrow> uname unix_data \<Rightarrow> 'u unix_server \<Rightarrow> byte list option res" where
  "unix_fetch K data sv =
     (if udReqSize data > 512 \<or> udCheck data = 1 then
        (case openShmIPC K (getDataIPCName (uvName sv)) sv of
           None \<Rightarrow> Inr None
         | Some od \<Rightarrow>
             if \<not> openSemIPC K (getDataIPCName (uvName sv)) sv \<or> \<not> openMmapIPC K (udReqSize data) \<or> \<not> uk_malloc K (udReqSize data)
             then Inr None
             else if udReqSize data \<le> length (shRaw sv od) then Inr (Some (take (udReqSize data) (shRaw sv od)))
             else Inl OutOfBounds)
      else Inr (Some (udReq data)))"

text \<open>Writing the response of \<open>n\<close> bytes into the client's memory. Its flag is set before its bytes are there.\<close>

definition unix_respond ::
    "ukernel \<Rightarrow> u32 \<Rightarrow> uname \<Rightarrow> uname \<Rightarrow> int \<Rightarrow> byte list \<Rightarrow> nat \<Rightarrow> 'x usys_scheme \<Rightarrow> 'x usys_scheme res" where
  "unix_respond K pid svname c nCheck res n s =
     (case openShmIPC K c s of
        None \<Rightarrow> Inr s
      | Some oc \<Rightarrow>
          if \<not> openSemIPC K c s \<or> \<not> openMmapIPC K UNIX_SIZE then Inr s
          else case str_copy pid (udSender (shCtl s oc)) svname of
            Inl e \<Rightarrow> Inl e
          | Inr nm \<Rightarrow>
              (let d = (shCtl s oc)\<lparr>udHasRes := True, udHasReq := False, udPid := pid, udSender := nm, udInit := True, udResSize := n\<rparr>;
                   s1 = s\<lparr>shCtl := (shCtl s)(oc := d)\<rparr>
               in if n > 512 \<or> nCheck = 1 then
                    (case openShmIPC K (getDataIPCName c) s1 of
                       None \<Rightarrow> Inr s1
                     | Some od \<Rightarrow>
                         if \<not> openSemIPC K (getDataIPCName c) s1 \<or> \<not> openMmapIPC K n then Inr s1
                         else map_sum id (\<lambda>raw. s1\<lparr>shRaw := (shRaw s1)(od := raw)\<rparr>) (raw_write n res (shRaw s1 od)))
                  else map_sum id (\<lambda>r. s1\<lparr>shCtl := (shCtl s1)(oc := d\<lparr>udRes := r\<rparr>)\<rparr>) (raw_write n res (udRes d))))"

definition unix_worker_serve ::
    "ukernel \<Rightarrow> u32 \<Rightarrow> 'u unix_callback option \<Rightarrow> uname unix_data \<Rightarrow> 'u unix_server \<Rightarrow> 'u unix_server res" where
  "unix_worker_serve K pid cb data sv =
     (if udHasReq data = False then Inr sv
      else case unix_fetch K data sv of
        Inl e \<Rightarrow> Inl e
      | Inr None \<Rightarrow> Inr sv
      | Inr (Some reqData) \<Rightarrow>
          (let (rsz, sv1) =
             (case cb of
                None \<Rightarrow> (udResSize data, sv)
              | Some f \<Rightarrow> (if udCheck data = 0
                  then let (rsz, u) = f (uvName sv) reqData (udReqSize data) (udResSize data) (uvCtx sv) in (rsz, sv\<lparr>uvCtx := u\<rparr>)
                  else (udResSize data, sv)));
               (resData, rsz) = (if udCheck data \<noteq> 0 then (Some unix_test_msg, 8) else (None, rsz))
           in if udNeedRes data = False \<and> udCheck data = 0 \<or> rsz \<noteq> 0 \<and> resData = None then Inr sv1
              else unix_respond K pid (uvName sv1) (udSender data) (udCheck data)
                     (case resData of None \<Rightarrow> [] | Some bs \<Rightarrow> bs) rsz sv1))"

text \<open>A pass of a worker; \<open>None\<close> while it waits in DeQueue. The flag says that it leaves its loop.\<close>

definition unix_worker_round ::
    "ukernel \<Rightarrow> u32 \<Rightarrow> 'u unix_callback option \<Rightarrow> 'u unix_server \<Rightarrow> (bool \<times> 'u unix_server) res option" where
  "unix_worker_round K pid cb sv =
     (case uq_DeQueue (ud_zero []) (uvQueue sv) of
        None \<Rightarrow> None
      | Some (data, q) \<Rightarrow>
          (let sv1 = sv\<lparr>uvQueue := q\<rparr> in
           if uvStop sv1 then Some (Inr (True, sv1))
           else Some (map_sum id (Pair False) (unix_worker_serve K pid cb data sv1))))"

subsection \<open>CreateIPC and DestroyIPC\<close>

text \<open>What the threads of a new server start with: the number of workers, and the object the main thread maps,
  or \<open>None\<close> when it ends at once.\<close>

definition unix_server_start :: "ukernel \<Rightarrow> uname \<Rightarrow> int \<Rightarrow> 'x usys_scheme \<Rightarrow> nat \<times> nat option" where
  "unix_server_start K sIPCName nMaxThreadCount s =
     (nat (nMaxThreadCount - 1),
      case openShmIPC K sIPCName s of
        None \<Rightarrow> None
      | Some ob \<Rightarrow> if openSemIPC K sIPCName s \<and> openMmapIPC K UNIX_SIZE then Some ob else None)"

text \<open>CreateIPC up to the start of the server: the result, mapIPC and the objects.\<close>

definition unix_CreateIPC :: "ukernel \<Rightarrow> uname \<Rightarrow> umap \<Rightarrow> 'x usys_scheme \<Rightarrow> bool \<times> umap \<times> 'x usys_scheme" where
  "unix_CreateIPC K sIPCName mapIPC s =
     (let sData = getDataIPCName sIPCName in
      case createShmIPC K mapIPC sIPCName s of
        (None, s1) \<Rightarrow> (False, mapIPC, s1)
      | (Some ob, s1) \<Rightarrow>
          if \<not> openMmapIPC K UNIX_SIZE then (False, mapIPC, s1)
          else case createShmIPC K mapIPC sData s1 of
            (None, s2) \<Rightarrow> (False, mapIPC, s2)
          | (Some od, s2) \<Rightarrow>
              (let (ok, s3) = createSemIPC K sIPCName s2 in
               if \<not> ok then (False, mapIPC, s3)
               else let (ok', s4) = createSemIPC K sData s3 in
                 if \<not> ok' then (False, mapIPC, s4)
                 else (True, mapIPC @ [(sIPCName, sData)],
                       s4\<lparr>shCtl := (shCtl s4)(ob := (shCtl s4 ob)\<lparr>udInit := True\<rparr>)\<rparr>)))"

text \<open>DestroyIPC up to the destructor of the server.\<close>

definition unix_DestroyIPC :: "ukernel \<Rightarrow> uname \<Rightarrow> umap \<Rightarrow> 'x usys_scheme \<Rightarrow> bool \<times> umap \<times> 'x usys_scheme" where
  "unix_DestroyIPC K sIPCName mapIPC s =
     (case map_of mapIPC sIPCName of
        None \<Rightarrow> (False, mapIPC, s)
      | Some sData \<Rightarrow>
          (let s1 = cleanupIPC sIPCName (openShmIPC K sIPCName s \<noteq> None) (openSemIPC K sIPCName s) s;
               s2 = cleanupIPC sData (openShmIPC K sData s1 \<noteq> None) (openSemIPC K sData s1) s1
           in (True, filter (\<lambda>(a, d). a \<noteq> sIPCName) mapIPC, s2)))"

subsection \<open>A client and a server at work\<close>

text \<open>What the server's threads do while the client sleeps: steps of the main thread and of a worker, in an
  order \<open>ms\<close>. A server that fails stays where it is.\<close>

fun unix_steps :: "ukernel \<Rightarrow> u32 \<Rightarrow> 'u unix_callback option \<Rightarrow> nat \<Rightarrow> bool list \<Rightarrow> 'u unix_server \<Rightarrow> 'u unix_server" where
  "unix_steps K pid cb ob [] sv = sv"
| "unix_steps K pid cb ob (True # ms) sv =
     (case unix_main_round K pid ob sv of Inl e \<Rightarrow> sv | Inr sv' \<Rightarrow> unix_steps K pid cb ob ms sv')"
| "unix_steps K pid cb ob (False # ms) sv =
     (case unix_worker_round K pid cb sv of
        Some (Inl e) \<Rightarrow> sv | Some (Inr (_, sv')) \<Rightarrow> unix_steps K pid cb ob ms sv' | None \<Rightarrow> unix_steps K pid cb ob ms sv)"

text \<open>No response with bytes is under way, and no CheckIPC request.\<close>

definition plain :: "'u unix_server \<Rightarrow> bool" where
  "plain sv = ((\<forall>i. udResSize (shCtl sv i) = 0 \<and> udCheck (shCtl sv i) = 0)
     \<and> (\<forall>d \<in> set (eqItems (uvQueue sv)). udResSize d = 0 \<and> udCheck d = 0))"

lemma plain_main: "plain sv \<Longrightarrow> unix_main_round K pid ob sv = Inr sv' \<Longrightarrow> plain sv'"
  by (auto simp: plain_def unix_main_round_def Let_def unix_reset_def uq_EnQueue_def split: if_splits sum.splits)

lemma plain_respond:
  assumes "plain sv" and "unix_respond K pid nm c 0 res 0 sv = Inr sv'"
  shows "plain sv'"
  using assms by (auto simp: plain_def unix_respond_def Let_def raw_write_def split: option.splits if_splits sum.splits)

lemma plain_serve:
  assumes "plain sv" and "udResSize data = 0" and "udCheck data = 0" and "unix_worker_serve K pid cb data sv = Inr sv'"
  shows "plain sv'"
proof -
  have ctx: "plain (sv\<lparr>uvCtx := u\<rparr>)" for u using assms(1) by (simp add: plain_def)
  show ?thesis
    using assms ctx plain_respond [OF assms(1)] plain_respond [OF ctx]
    by (auto simp: unix_worker_serve_def Let_def split: if_splits sum.splits option.splits prod.splits)
qed

lemma plain_worker:
  assumes "plain sv" and "unix_worker_round K pid cb sv = Some (Inr (b, sv'))"
  shows "plain sv'"
proof -
  obtain data q where dq: "uq_DeQueue (ud_zero []) (uvQueue sv) = Some (data, q)"
    using assms(2) by (auto simp: unix_worker_round_def split: option.splits)
  then have "plain (sv\<lparr>uvQueue := q\<rparr>)" and "udResSize data = 0 \<and> udCheck data = 0"
    using assms(1) by (auto simp: plain_def uq_DeQueue_def ud_zero_def split: if_splits dest: list.set_sel(2))
  with assms(2) dq show ?thesis
    by (cases "unix_worker_serve K pid cb data (sv\<lparr>uvQueue := q\<rparr>)")
      (auto simp: unix_worker_round_def Let_def split: if_splits intro: plain_serve)
qed

lemma plain_steps: "plain sv \<Longrightarrow> plain (unix_steps K pid cb ob ms sv)"
  by (induction K pid cb ob ms sv rule: unix_steps.induct)
    (auto split: sum.splits option.splits dest: plain_main plain_worker)

lemma plain_shm_creat:
  "plain sv \<Longrightarrow> plain (snd (createShmIPC K m n sv))"
  by (auto simp: createShmIPC_def shm_creat_def cleanupIPC_def shm_unlink_def plain_def ud_zero_def Let_def
      split: option.splits trunc_res.splits)

lemma plain_sem: "plain sv \<Longrightarrow> plain (snd (createSemIPC K n sv))"
  by (simp add: createSemIPC_def sem_unlink_def cleanupIPC_def plain_def Let_def)

lemma plain_client_open: "plain sv \<Longrightarrow> plain (snd (unix_client_open K m c sv))"
  using plain_shm_creat [of sv K m c] plain_shm_creat [of "snd (createShmIPC K m c sv)" K m "getDataIPCName c"]
    plain_sem [of "snd (createShmIPC K m (getDataIPCName c) (snd (createShmIPC K m c sv)))" K c]
    plain_sem [of "snd (createSemIPC K c (snd (createShmIPC K m (getDataIPCName c) (snd (createShmIPC K m c sv)))))" K "getDataIPCName c"]
  by (auto simp: unix_client_open_def Let_def split: prod.splits option.splits)

lemma plain_send_try: "plain sv \<Longrightarrow> unix_send_try K pid app now t 0 srv ob req n sv = Inr (ok, sv') \<Longrightarrow> plain sv'"
  by (auto simp: unix_send_try_def plain_def Let_def split: if_splits sum.splits option.splits)

lemma plain_send_tries:
  assumes "\<And>r sv. plain sv \<Longrightarrow> plain (env r sv)"
  shows "plain sv \<Longrightarrow> unix_send_tries env (\<lambda>r. unix_send_try (K r) pid app now t 0 srv ob req n) k sv = Inr (ok, sv') \<Longrightarrow> plain sv'"
proof (induction k arbitrary: sv)
  case (Suc k)
  then obtain ok1 sv1 where p: "unix_send_try (K k) pid app now t 0 srv ob req n sv = Inr (ok1, sv1)"
    by (auto split: sum.splits)
  with Suc assms plain_send_try [OF Suc.prems(1) p] show ?case by (auto split: if_splits)
qed simp

lemma plain_recv_try:
  "plain sv \<Longrightarrow> unix_recv_try K 0 oc od buf rsz sv = Inr (ok, buf', rsz') \<Longrightarrow> buf' = buf \<and> (ok \<longrightarrow> rsz' = 0)"
  by (auto simp: unix_recv_try_def plain_def raw_write_def Let_def split: if_splits)

lemma plain_recv_tries:
  assumes "\<And>r sv. plain sv \<Longrightarrow> plain (env r sv)"
  shows "plain sv \<Longrightarrow> unix_recv_tries env (\<lambda>r. unix_recv_try (K r) 0 oc od) k buf rsz sv = Inr (ok, buf', rsz', sv')
    \<Longrightarrow> buf' = buf \<and> (ok \<longrightarrow> rsz' = 0)"
proof (induction k arbitrary: sv rsz)
  case (Suc k)
  then obtain ok1 buf1 rsz1 where p: "unix_recv_try (K k) 0 oc od buf rsz sv = Inr (ok1, buf1, rsz1)"
    by (auto split: sum.splits)
  with Suc assms plain_recv_try [OF Suc.prems(1) p] show ?case by (auto split: if_splits)
qed simp

lemma unix_SendIPC_plain:
  assumes env: "\<And>r sv. plain sv \<Longrightarrow> plain (env r sv)" and "plain sv"
    and run: "unix_SendIPC K env now m pid app srv req n buf rsz t 0 sv = Inr (ok, buf', rsz', sv')"
  shows "buf' = buf \<and> (ok \<longrightarrow> rsz' = 0)"
proof -
  let ?c = "getClientIPCName pid app"
  obtain oo s1 where co: "unix_client_open (K (nat (t * 100))) m ?c sv = (oo, s1)" by fastforce
  with plain_client_open [OF assms(2), of "K (nat (t * 100))" m ?c] have s1: "plain s1" by simp
  show ?thesis
  proof (cases "oo = None \<or> openShmIPC (K (nat (t * 100))) srv s1 = None \<or> \<not> openSemIPC (K (nat (t * 100))) srv s1")
    case True
    with run co show ?thesis by (cases oo) (auto simp: unix_SendIPC_def Let_def split: option.splits if_splits)
  next
    case False
    then obtain oc od ob where oo: "oo = Some (oc, od)" and ob: "openShmIPC (K (nat (t * 100))) srv s1 = Some ob" by auto
    note run = run [unfolded unix_SendIPC_def Let_def co oo prod.case option.case ob]
    obtain ok2 s2 where st: "unix_send_tries env (\<lambda>r. unix_send_try (K r) pid app now t 0 srv ob req n) (nat (t * 100)) s1 = Inr (ok2, s2)"
      using run False by (auto split: sum.splits)
    note s2 = plain_send_tries [OF env s1 st]
    show ?thesis
    proof (cases ok2)
      case False
      with run st \<open>\<not> (oo = None \<or> _)\<close> show ?thesis by simp
    next
      case True
      then obtain s3 where "unix_recv_tries env (\<lambda>r. unix_recv_try (K r) 0 oc od) (nat (t * 100)) buf rsz s2 = Inr (ok, buf', rsz', s3)"
        using run st \<open>\<not> (oo = None \<or> _)\<close> by (auto split: sum.splits)
      from plain_recv_tries [OF env s2 this] show ?thesis .
    qed
  qed
qed

text \<open>A system that gives what it is asked for, and a server of process \<open>pid\<close> without work.\<close>

definition unix_willing :: "ukernel \<Rightarrow> bool" where
  "unix_willing K = ((\<forall>n. uk_creat K n \<and> uk_open K n \<and> uk_trunc K n = TOk \<and> uk_sem K n)
     \<and> (\<forall>n. uk_mmap K n \<and> uk_malloc K n) \<and> (\<forall>p. uk_alive K p))"

definition unix_idle :: "u32 \<Rightarrow> nat \<Rightarrow> nat \<Rightarrow> 'u unix_server \<Rightarrow> bool" where
  "unix_idle pid ob od sv =
     (uvName sv \<noteq> [] \<and> shNames sv (uvName sv) = Some ob \<and> shNames sv (getDataIPCName (uvName sv)) = Some od
      \<and> {uvName sv, getDataIPCName (uvName sv)} \<subseteq> shSems sv \<and> ob < shNext sv \<and> od < shNext sv
      \<and> udInit (shCtl sv ob) \<and> \<not> udHasReq (shCtl sv ob) \<and> udResSize (shCtl sv ob) = 0 \<and> length (udReq (shCtl sv ob)) = 512
      \<and> (\<forall>q nm. udSender (shCtl sv ob) = Some (q, nm) \<longrightarrow> q = pid) \<and> uvQueue sv = eq_new \<and> \<not> uvStop sv)"

lemma getDataIPCName_neq [simp]: "getDataIPCName c \<noteq> c" "c \<noteq> getDataIPCName c" "getDataIPCName c \<noteq> []"
  by (simp_all add: getDataIPCName_def blit_def)

lemma getDataIPCName_inj [simp]: "getDataIPCName c = getDataIPCName d \<longleftrightarrow> c = d"
  by (simp add: getDataIPCName_def)

text \<open>The state after the client has opened its objects, with the numbers \<open>N\<close> and \<open>N + 1\<close>.\<close>

definition client_opened :: "nat \<Rightarrow> uname \<Rightarrow> 'x usys_scheme \<Rightarrow> 'x usys_scheme" where
  "client_opened page c s =
     s\<lparr>shNames := (shNames s)(c \<mapsto> shNext s, getDataIPCName c \<mapsto> Suc (shNext s)),
       shCtl := (shCtl s)(shNext s := ud_zero None, Suc (shNext s) := ud_zero None),
       shRaw := (shRaw s)(shNext s := replicate ((UNIX_SIZE + page - 1) div page * page) 0,
                          Suc (shNext s) := replicate ((UNIX_SIZE + page - 1) div page * page) 0),
       shNext := Suc (Suc (shNext s)), shSems := insert (getDataIPCName c) (insert c (shSems s))\<rparr>"

lemma unix_client_open_willing:
  assumes "unix_willing K" and "\<not> isExistIPC m c" and "\<not> isExistIPC m (getDataIPCName c)"
    and "shNames s c = None" and "shNames s (getDataIPCName c) = None"
  shows "unix_client_open K m c s = (Some (shNext s, Suc (shNext s)), client_opened (uk_page K) c s)"
  using assms by (simp add: unix_client_open_def createShmIPC_def shm_creat_def createSemIPC_def sem_unlink_def unix_willing_def
      client_opened_def insert_Diff_if insert_absorb)

text \<open>What the server sees of a request that has been placed.\<close>

definition placed :: "u32 \<Rightarrow> nat \<Rightarrow> nat \<Rightarrow> uname \<Rightarrow> byte list \<Rightarrow> nat \<Rightarrow> 'u unix_server \<Rightarrow> 'u unix_server \<Rightarrow> bool" where
  "placed pid ob od c req n sv sv' =
     ((\<exists>d raw. sv' = sv\<lparr>shCtl := (shCtl sv)(ob := d), shRaw := (shRaw sv)(od := raw)\<rparr>
        \<and> udHasReq d \<and> udSender d = Some (pid, c) \<and> udReqSize d = n \<and> udNeedRes d \<and> udCheck d = 0 \<and> udInit d
        \<and> udResSize d = 0 \<and> length (udReq d) = 512 \<and> length raw = length (shRaw sv od)
        \<and> (if n > 512 then take n raw = take n req else take n (udReq d) = take n req)))"

lemma willing_calls:
  assumes "unix_willing K"
  shows "openMmapIPC K k \<longleftrightarrow> 0 < k" "openShmIPC K x s = shNames s x" "openSemIPC K x s \<longleftrightarrow> x \<in> shSems s"
  using assms by (auto simp: openMmapIPC_def openShmIPC_def openSemIPC_def unix_willing_def)

lemma unix_send_try_places:
  assumes "unix_willing K" and idle: "unix_idle pid ob od sv" and "uk_sso K < length (getClientIPCName pid app)"
    and n: "n \<le> length req" "n \<le> length (shRaw sv od)"
  shows "\<exists>sv'. unix_send_try K pid app now t 0 (uvName sv) ob req n sv = Inr (True, sv')
     \<and> placed pid ob od (getClientIPCName pid app) req n sv sv'"
proof -
  have mv: "str_move (uk_sso K) pid (udSender (shCtl sv ob)) (getClientIPCName pid app) = Inr (Some (pid, getClientIPCName pid app))"
    using idle assms(3) by (auto simp: str_move_def unix_idle_def split: option.split)
  note w = willing_calls [OF assms(1)]
  let ?d = "(shCtl sv ob)\<lparr>udHasRes := False, udPid := pid, udReqSize := n, udSender := Some (pid, getClientIPCName pid app),
      udNeedRes := True, udTimeout := now + t, udCheck := 0\<rparr>"
  show ?thesis
  proof (cases "n > 512")
    case True
    let ?s = "sv\<lparr>shCtl := (shCtl sv)(ob := ?d\<lparr>udHasReq := True\<rparr>), shRaw := (shRaw sv)(od := take n req @ drop n (shRaw sv od))\<rparr>"
    have "unix_send_try K pid app now t 0 (uvName sv) ob req n sv = Inr (True, ?s)"
      using True idle mv n by (simp add: w unix_send_try_def Let_def unix_idle_def raw_write_def UNIX_SIZE_def)
    moreover have "placed pid ob od (getClientIPCName pid app) req n sv ?s"
      unfolding placed_def using True idle n
      by (intro exI [of _ "?d\<lparr>udHasReq := True\<rparr>"] exI [of _ "take n req @ drop n (shRaw sv od)"]) (simp add: unix_idle_def)
    ultimately show ?thesis by blast
  next
    case False
    let ?e = "?d\<lparr>udReq := take n req @ drop n (udReq (shCtl sv ob)), udHasReq := True\<rparr>"
    let ?s = "sv\<lparr>shCtl := (shCtl sv)(ob := ?e)\<rparr>"
    have "unix_send_try K pid app now t 0 (uvName sv) ob req n sv = Inr (True, ?s)"
      using False idle mv n by (simp add: w unix_send_try_def Let_def unix_idle_def UNIX_SIZE_def)
    moreover have "placed pid ob od (getClientIPCName pid app) req n sv ?s"
      unfolding placed_def using False idle n
      by (intro exI [of _ ?e] exI [of _ "shRaw sv od"]) (simp add: unix_idle_def)
    ultimately show ?thesis by blast
  qed
qed

text \<open>The state after the server has served a request: \<open>d\<close> is what the client placed, \<open>u\<close> the context the
  callback left, and only a response of size 0 is written, into the object \<open>oc\<close> of the client.\<close>

definition served :: "u32 \<Rightarrow> nat \<Rightarrow> nat \<Rightarrow> nat \<Rightarrow> 'u \<Rightarrow> 'u unix_server \<Rightarrow> 'u unix_server" where
  "served pid ob oc rsz u sv =
     (let sv1 = sv\<lparr>shCtl := (shCtl sv)(ob := unix_reset (shCtl sv ob)), uvQueue := eq_new, uvCtx := u\<rparr> in
      if rsz \<noteq> 0 then sv1
      else sv1\<lparr>shCtl := (shCtl sv1)(oc := (shCtl sv1 oc)\<lparr>udHasRes := True, udHasReq := False, udPid := pid,
              udSender := Some (pid, uvName sv), udInit := True, udResSize := 0\<rparr>)\<rparr>)"

lemma unix_steps_serve:
  assumes will: "unix_willing K" and idle: "unix_idle pid ob od sv" and pl: "placed pid ob od c req n (client_opened page c sv) sv2"
    and c: "c \<noteq> []" "shNames sv c = None" "shNames sv (getDataIPCName c) = None"
    and n: "n \<le> length (shRaw sv od)"
  shows "\<exists>bytes. take n bytes = take n req \<and> (case f (uvName sv) bytes n 0 (uvCtx sv) of (rsz, u) \<Rightarrow>
     unix_steps K pid (Some f) ob [True, False] sv2 = served pid ob (shNext sv) rsz u sv2)"
proof -
  obtain d raw where sv2: "sv2 = client_opened page c sv\<lparr>shCtl := (shCtl (client_opened page c sv))(ob := d), shRaw := (shRaw (client_opened page c sv))(od := raw)\<rparr>"
    and d: "udHasReq d" "udSender d = Some (pid, c)" "udReqSize d = n" "udNeedRes d" "udCheck d = 0" "udInit d" "udResSize d = 0"
      "length raw = length (shRaw (client_opened page c sv) od)"
    and bytes: "if n > 512 then take n raw = take n req else take n (udReq d) = take n req"
    using pl unfolding placed_def by blast
  have nq: "ob \<noteq> shNext sv" "od \<noteq> shNext sv" "od \<noteq> Suc (shNext sv)" "ob \<noteq> Suc (shNext sv)" "ob < Suc (shNext sv)"
    and nm: "uvName sv \<noteq> c" "uvName sv \<noteq> getDataIPCName c" "getDataIPCName (uvName sv) \<noteq> c" "uvName sv \<noteq> []"
    using idle c by (auto simp: unix_idle_def)
  define qd where "qd = \<lparr>udReq = udReq d, udReqSize = n, udHasReq = True, udRes = udRes d, udResSize = 0, udHasRes = udHasRes d,
      udNeedRes = True, udSender = c, udPid = udPid d, udTimeout = udTimeout d, udInit = True, udCheck = 0\<rparr>"
  let ?m = "sv2\<lparr>uvQueue := \<lparr>eqItems = [qd], eqStop = False\<rparr>, shCtl := (shCtl sv2)(ob := unix_reset d)\<rparr>"
  let ?w = "sv2\<lparr>shCtl := (shCtl sv2)(ob := unix_reset d), uvQueue := eq_new\<rparr>"
  have stop: "\<not> uvStop sv2" using idle by (simp add: unix_idle_def sv2 client_opened_def)
  have main: "unix_main_round K pid ob sv2 = Inr ?m"
    using will idle d by (simp add: unix_main_round_def unix_willing_def str_read_def sv2 unix_idle_def uq_EnQueue_def eq_new_def
        client_opened_def qd_def)
  define bs where "bs = (if n > 512 then take n raw else udReq d)"
  have fetch: "unix_fetch K qd ?w = Inr (Some bs)"
    using idle c n d(8) nq nm will by (simp add: unix_fetch_def willing_calls [OF will] sv2 client_opened_def qd_def bs_def unix_idle_def)
      (simp add: unix_willing_def)
  obtain rsz u where f: "f (uvName sv) bs n 0 (uvCtx sv) = (rsz, u)" by fastforce
  have serve: "unix_worker_serve K pid (Some f) qd ?w = Inr (served pid ob (shNext sv) rsz u sv2)"
  proof (cases "rsz = 0")
    case False
    then show ?thesis
      using fetch f by (simp add: unix_worker_serve_def served_def Let_def qd_def sv2 client_opened_def)
  next
    case True
    have "unix_respond K pid (uvName sv) c 0 [] 0 (?w\<lparr>uvCtx := u\<rparr>) = Inr (served pid ob (shNext sv) rsz u sv2)"
      using c nq nm True
      by (simp add: unix_respond_def willing_calls [OF will] sv2 client_opened_def served_def Let_def raw_write_def
          str_copy_def ud_zero_def UNIX_SIZE_def fun_upd_twist)
    then show ?thesis
      using fetch f True by (simp add: unix_worker_serve_def Let_def qd_def sv2 client_opened_def)
  qed
  have "unix_worker_round K pid (Some f) ?m = Some (Inr (False, served pid ob (shNext sv) rsz u sv2))"
    using serve [unfolded eq_new_def] stop by (simp add: unix_worker_round_def uq_DeQueue_def)
  with main have "unix_steps K pid (Some f) ob [True, False] sv2 = served pid ob (shNext sv) rsz u sv2" by simp
  moreover have "take n bs = take n req" using bytes by (simp add: bs_def split: if_splits)
  ultimately show ?thesis using f by (intro exI [of _ bs]) simp
qed

lemma unix_steps_idle:
  assumes "\<not> udHasReq (shCtl sv ob)" and "uvQueue sv = eq_new"
  shows "unix_steps K pid cb ob [True, False] sv = sv"
  using assms by (simp add: unix_main_round_def unix_worker_round_def uq_DeQueue_def eq_new_def)

lemma unix_recv_tries_idle:
  assumes "\<not> udHasRes (shCtl sv oc)" and "\<not> udHasReq (shCtl sv ob)" and "uvQueue sv = eq_new"
  shows "unix_recv_tries (\<lambda>r. unix_steps K pid cb ob [True, False]) (\<lambda>r. unix_recv_try K nCheck oc od) k buf rsz sv = Inr (False, buf, rsz, sv)"
  using unix_steps_idle [OF assms(2,3)] assms(1) by (induction k) (simp_all add: unix_recv_try_def del: unix_steps.simps)

lemma unix_SendIPC_serves:
  assumes will: "unix_willing K" and idle: "unix_idle pid ob od sv" and sso: "uk_sso K < length (getClientIPCName pid app)"
    and c: "c = getClientIPCName pid app" "shNames sv c = None" "shNames sv (getDataIPCName c) = None"
      "\<not> isExistIPC m c" "\<not> isExistIPC m (getDataIPCName c)"
    and n: "n \<le> length req" "n \<le> length (shRaw sv od)" and t: "0 < t"
  shows "\<exists>bytes sv'. take n bytes = take n req \<and> (case f (uvName sv) bytes n 0 (uvCtx sv) of (res, u) \<Rightarrow>
     unix_SendIPC (\<lambda>r. K) (\<lambda>r. unix_steps K pid (Some f) ob [True, False]) now m pid app (uvName sv) req n buf rsz t 0 sv
       = Inr (res = 0, buf, (if res = 0 then 0 else rsz), sv')
     \<and> unix_idle pid ob od sv' \<and> uvCtx sv' = u \<and> uvName sv' = uvName sv \<and> shNames sv' = shNames sv
     \<and> length (shRaw sv' od) = length (shRaw sv od))"
proof -
  let ?s1 = "client_opened (uk_page K) c sv" and ?env = "\<lambda>r. unix_steps K pid (Some f) ob [True, False]"
  have co: "unix_client_open K m c sv = (Some (shNext sv, Suc (shNext sv)), ?s1)"
    using unix_client_open_willing [OF will c(4,5,2,3)] .
  have ne: "c \<noteq> []" by (simp add: c(1) getClientIPCName_def blit_def)
  have old: "ob \<noteq> shNext sv" "ob \<noteq> Suc (shNext sv)" "od \<noteq> shNext sv" "od \<noteq> Suc (shNext sv)"
    and nm: "uvName sv \<noteq> c" "uvName sv \<noteq> getDataIPCName c" "getDataIPCName (uvName sv) \<noteq> c"
    using idle c(2,3) by (auto simp: unix_idle_def)
  have idle1: "unix_idle pid ob od ?s1"
    using idle old nm by (auto simp: unix_idle_def client_opened_def)
  have raw1: "shRaw ?s1 od = shRaw sv od" and name1: "uvName ?s1 = uvName sv" using old by (simp_all add: client_opened_def)
  obtain s2 where st: "unix_send_try K pid app now t 0 (uvName sv) ob req n ?s1 = Inr (True, s2)"
    and pl: "placed pid ob od c req n ?s1 s2"
    using unix_send_try_places [OF will idle1 sso n(1), of now t] n(2) raw1 name1 c(1) by auto
  obtain bytes where bytes: "take n bytes = take n req"
    and sv: "case f (uvName sv) bytes n 0 (uvCtx sv) of (res, u) \<Rightarrow> ?env 0 s2 = served pid ob (shNext sv) res u s2"
    using unix_steps_serve [OF will idle pl ne c(2,3) n(2), of f] by (elim exE conjE) (rule that)
  obtain res u where f: "f (uvName sv) bytes n 0 (uvCtx sv) = (res, u)" by fastforce
  let ?s3 = "served pid ob (shNext sv) res u s2"
  have s3: "?env r s2 = ?s3" for r using sv f by simp
  obtain d raw where s2: "s2 = ?s1\<lparr>shCtl := (shCtl ?s1)(ob := d), shRaw := (shRaw ?s1)(od := raw)\<rparr>"
    and d: "udInit d" "udResSize d = 0" "length (udReq d) = 512" "udSender d = Some (pid, c)" "length raw = length (shRaw sv od)"
    using pl unfolding placed_def raw1 by blast
  have "2 \<le> nat (t * 100)" using t by simp
  then obtain k where k: "nat (t * 100) = Suc (Suc k)" using le_Suc_ex by (metis add_2_eq_Suc)
  have first: "unix_recv_try K 0 (shNext sv) (Suc (shNext sv)) buf rsz s2 = Inr (False, buf, rsz)"
    using old by (simp add: unix_recv_try_def s2 client_opened_def ud_zero_def)
  have rest: "unix_recv_tries ?env (\<lambda>r. unix_recv_try K 0 (shNext sv) (Suc (shNext sv))) (Suc k) buf rsz ?s3
      = Inr (res = 0, buf, (if res = 0 then 0 else rsz), ?s3)"
  proof (cases "res = 0")
    case True
    then show ?thesis
      using old by (simp add: unix_recv_try_def served_def raw_write_def willing_calls [OF will] UNIX_SIZE_def)
  next
    case False
    have "unix_recv_tries ?env (\<lambda>r. unix_recv_try K 0 (shNext sv) (Suc (shNext sv))) (Suc k) buf rsz ?s3 = Inr (False, buf, rsz, ?s3)"
      using False old by (intro unix_recv_tries_idle) (simp_all add: served_def s2 client_opened_def ud_zero_def unix_reset_def)
    with False show ?thesis by simp
  qed
  have "unix_SendIPC (\<lambda>r. K) ?env now m pid app (uvName sv) req n buf rsz t 0 sv
      = Inr (res = 0, buf, (if res = 0 then 0 else rsz), unix_client_close c ?s3)"
    using co st first rest s3 idle nm old k
    by (simp add: unix_SendIPC_def c(1) [symmetric] willing_calls [OF will] client_opened_def unix_idle_def del: unix_steps.simps)
  moreover have "unix_idle pid ob od (unix_client_close c ?s3)"
    using idle1 old nm d ne by (auto simp: unix_idle_def unix_client_close_def shm_Destroy_def sem_Destroy_def shm_unlink_def
        sem_unlink_def served_def s2 unix_reset_def eq_new_def client_opened_def Let_def)
  moreover have "uvCtx (unix_client_close c ?s3) = u \<and> uvName (unix_client_close c ?s3) = uvName sv
      \<and> shNames (unix_client_close c ?s3) = shNames sv \<and> length (shRaw (unix_client_close c ?s3) od) = length (shRaw sv od)"
    using ne c(2,3) d(5) by (auto simp: unix_client_close_def shm_Destroy_def sem_Destroy_def shm_unlink_def sem_unlink_def
        served_def s2 client_opened_def Let_def fun_eq_iff)
  ultimately show ?thesis using bytes f by auto
qed

subsection \<open>The map of a process\<close>

text \<open>The calls of a process on its map.\<close>

datatype umap_op = UCreate ukernel uname | UDestroy ukernel uname

fun umap_step :: "umap_op \<Rightarrow> umap \<times> 'x usys_scheme \<Rightarrow> umap \<times> 'x usys_scheme" where
  "umap_step (UCreate K n) (m, s) = snd (unix_CreateIPC K n m s)"
| "umap_step (UDestroy K n) (m, s) = snd (unix_DestroyIPC K n m s)"

definition umap_names :: "umap \<Rightarrow> uname list" where
  "umap_names m = concat (map (\<lambda>(a, d). [a, d]) m)"

text \<open>Every entry has two names of its own, the second made from the first, with their objects and semaphores,
  and the first object is initialised.\<close>

definition umap_ok :: "umap \<Rightarrow> 'x usys_scheme \<Rightarrow> bool" where
  "umap_ok m s =
     (distinct (umap_names m) \<and> (\<forall>a d. (a, d) \<in> set m \<longrightarrow> d = getDataIPCName a)
      \<and> (\<forall>n \<in> set (umap_names m). shNames s n \<noteq> None \<and> n \<in> shSems s)
      \<and> (\<forall>a d i. (a, d) \<in> set m \<longrightarrow> shNames s a = Some i \<longrightarrow> udInit (shCtl s i))
      \<and> (\<forall>n i. shNames s n = Some i \<longrightarrow> i < shNext s))"

lemma umap_okD:
  assumes "umap_ok m s"
  shows "(a, d) \<in> set m \<Longrightarrow> shNames s a = Some i \<Longrightarrow> udInit (shCtl s i)" and "shNames s n = Some i \<Longrightarrow> i < shNext s"
  using assms unfolding umap_ok_def by blast+

lemma isExistIPC_names: "isExistIPC m n \<longleftrightarrow> n \<in> set (umap_names m)"
  by (induction m) (auto simp: isExistIPC_def umap_names_def)

lemma umap_ok_shm:
  assumes "umap_ok m s" and "createShmIPC K m n s = (r, s')"
  shows "umap_ok m s' \<and> (\<forall>i. r = Some i \<longrightarrow> n \<notin> set (umap_names m) \<and> shNames s' n = Some i)
     \<and> (\<forall>x. x \<noteq> n \<longrightarrow> shNames s' x = shNames s x) \<and> shSems s' = shSems s"
proof (cases "isExistIPC m n \<or> \<not> uk_creat K n")
  case True
  with assms(2) have "r = None \<and> s' = s" by (auto simp: createShmIPC_def split: if_splits)
  with assms(1) show ?thesis by simp
next
  case False
  then have n: "n \<notin> set (umap_names m)" by (simp add: isExistIPC_names)
  then have a: "(a, d) \<in> set m \<Longrightarrow> a \<noteq> n" for a d by (force simp: umap_names_def)
  obtain i s1 where c: "shm_creat (uk_page K) n s = (i, s1)" by fastforce
  have s1: "umap_ok m s1 \<and> shNames s1 n = Some i \<and> (\<forall>x. x \<noteq> n \<longrightarrow> shNames s1 x = shNames s x) \<and> shSems s1 = shSems s"
  proof (cases "shNames s n")
    case None
    have new: "shNames s x \<noteq> Some (shNext s)" for x using assms(1) by (auto simp: umap_ok_def)
    have init: "(b, e) \<in> set m \<Longrightarrow> shNames s b = Some j \<Longrightarrow> udInit (shCtl s j)" for b e j
      using umap_okD(1) [OF assms(1)] by blast
    from None c assms(1) n a new init show ?thesis
      by (auto simp: shm_creat_def umap_ok_def less_SucI split: if_splits)
  next
    case (Some j)
    with c assms(1) show ?thesis by (auto simp: shm_creat_def)
  qed
  have un: "umap_ok m (shm_unlink n s1)"
    using s1 n a by (auto simp: umap_ok_def shm_unlink_def)
  show ?thesis
    using False assms(2) c s1 un n
    by (auto simp: createShmIPC_def cleanupIPC_def shm_unlink_def Let_def split: trunc_res.splits if_splits)
qed

lemma umap_ok_sem:
  assumes "umap_ok m s" and "n \<notin> set (umap_names m)" and "createSemIPC K n s = (ok, s')"
  shows "umap_ok m s' \<and> shNames s' = shNames s \<and> shCtl s' = shCtl s \<and> shNext s' = shNext s
     \<and> shSems s' = (if ok then insert n (shSems s) else shSems s - {n})"
proof -
  have "s' = (if ok then s\<lparr>shSems := insert n (shSems s)\<rparr> else sem_unlink n s)"
    using assms(3) by (auto simp: createSemIPC_def sem_unlink_def cleanupIPC_def Let_def split: if_splits)
  with assms(1,2) show ?thesis by (auto simp: umap_ok_def sem_unlink_def)
qed

lemma umap_ok_create:
  assumes "umap_ok m s" and "unix_CreateIPC K n m s = (ok, m', s')"
  shows "umap_ok m' s'"
proof -
  let ?d = "getDataIPCName n"
  obtain r1 s1 where c1: "createShmIPC K m n s = (r1, s1)" by fastforce
  obtain r2 s2 where c2: "createShmIPC K m ?d s1 = (r2, s2)" by fastforce
  obtain b3 s3 where c3: "createSemIPC K n s2 = (b3, s3)" by fastforce
  obtain b4 s4 where c4: "createSemIPC K ?d s3 = (b4, s4)" by fastforce
  note o1 = umap_ok_shm [OF assms(1) c1]
  note o2 = umap_ok_shm [OF conjunct1 [OF o1] c2]
  show ?thesis
  proof (cases "r1 = None \<or> \<not> openMmapIPC K UNIX_SIZE \<or> r2 = None")
    case True
    with assms(2) c1 c2 o1 o2 show ?thesis
      by (cases r1; cases r2) (auto simp: unix_CreateIPC_def Let_def split: if_splits)
  next
    case False
    then obtain ob od where r: "r1 = Some ob" "r2 = Some od" by auto
    have nn: "n \<notin> set (umap_names m)" "?d \<notin> set (umap_names m)" using o1 o2 r by auto
    note o3 = umap_ok_sem [OF conjunct1 [OF o2] nn(1) c3]
    note o4 = umap_ok_sem [OF conjunct1 [OF o3] nn(2) c4]
    have names: "shNames s4 n = Some ob" "shNames s4 ?d = Some od" using o1 o2 o3 o4 r by auto
    show ?thesis
    proof (cases "b3 \<and> b4")
      case False
      with assms(2) c1 c2 c3 c4 o3 o4 r \<open>\<not> (r1 = None \<or> _)\<close> show ?thesis
        by (cases b3) (auto simp: unix_CreateIPC_def Let_def)
    next
      case True
      have res: "m' = m @ [(n, ?d)]" "s' = s4\<lparr>shCtl := (shCtl s4)(ob := (shCtl s4 ob)\<lparr>udInit := True\<rparr>)\<rparr>"
        using assms(2) c1 c2 c3 c4 r True \<open>\<not> (r1 = None \<or> _)\<close> by (auto simp: unix_CreateIPC_def Let_def)
      have nms: "umap_names m' = umap_names m @ [n, ?d]" by (simp add: res umap_names_def)
      have init: "(b, e) \<in> set m \<Longrightarrow> shNames s4 b = Some j \<Longrightarrow> udInit (shCtl s4 j)" for b e j
        using umap_okD(1) [OF conjunct1 [OF o4]] by blast
      have sems: "n \<in> shSems s4" "?d \<in> shSems s4" using o3 o4 True by auto
      show ?thesis
        unfolding umap_ok_def nms
        using o4 nn names sems init by (auto simp: res umap_ok_def)
    qed
  qed
qed

lemma umap_ok_destroy:
  assumes "umap_ok m s" and "unix_DestroyIPC K n m s = (ok, m', s')"
  shows "umap_ok m' s'"
proof (cases "map_of m n")
  case None
  with assms show ?thesis by (simp add: unix_DestroyIPC_def)
next
  case (Some d)
  then have d: "d = getDataIPCName n" "(n, d) \<in> set m" using assms(1) map_of_SomeD [OF Some] by (simp_all add: umap_ok_def)
  let ?f = "filter (\<lambda>(a, d). a \<noteq> n) m"
  have dist: "distinct (umap_names m)" and dd: "\<And>a e. (a, e) \<in> set m \<Longrightarrow> e = getDataIPCName a"
    using assms(1) by (simp_all add: umap_ok_def)
  have sub: "set (umap_names ?f) \<subseteq> set (umap_names m)" by (auto simp: umap_names_def)
  have distf: "distinct (umap_names m) \<Longrightarrow> distinct (umap_names ?f)"
    by (induction m) (auto simp: umap_names_def split: if_splits)
  obtain m1 m2 where m: "m = m1 @ (n, d) # m2" using d(2) by (meson split_list)
  then have "umap_names m = umap_names m1 @ [n, d] @ umap_names m2" by (simp add: umap_names_def)
  moreover have "set (umap_names ?f) \<subseteq> set (umap_names m1) \<union> set (umap_names m2)" by (auto simp: m umap_names_def)
  ultimately have n: "n \<notin> set (umap_names ?f) \<and> getDataIPCName n \<notin> set (umap_names ?f)"
    using dist d(1) by auto
  have st: "\<exists>h1 h2 h3 h4. s' = cleanupIPC (getDataIPCName n) h3 h4 (cleanupIPC n h1 h2 s) \<and> m' = ?f"
    using assms(2) Some d(1) by (auto simp: unix_DestroyIPC_def Let_def)
  then obtain h1 h2 h3 h4 where st: "s' = cleanupIPC (getDataIPCName n) h3 h4 (cleanupIPC n h1 h2 s)" "m' = ?f" by blast
  have same: "shNames s' x = shNames s x" "x \<in> shSems s' \<longleftrightarrow> x \<in> shSems s" if "x \<in> set (umap_names ?f)" for x
    using that n by (auto simp: st cleanupIPC_def shm_unlink_def sem_unlink_def Let_def)
  have less: "shNames s' x = Some i \<Longrightarrow> shNames s x = Some i" "shCtl s' = shCtl s" "shNext s' = shNext s" for x i
    by (auto simp: st cleanupIPC_def shm_unlink_def sem_unlink_def Let_def split: if_splits)
  show ?thesis
    unfolding umap_ok_def st(2)
  proof (intro conjI)
    show "distinct (umap_names ?f)" using distf [OF dist] .
    show "\<forall>a e. (a, e) \<in> set ?f \<longrightarrow> e = getDataIPCName a" using dd by simp
    show "\<forall>x \<in> set (umap_names ?f). shNames s' x \<noteq> None \<and> x \<in> shSems s'"
      using same sub assms(1) by (auto simp: umap_ok_def)
    show "\<forall>a e i. (a, e) \<in> set ?f \<longrightarrow> shNames s' a = Some i \<longrightarrow> udInit (shCtl s' i)"
    proof (intro allI impI)
      fix a e i assume "(a, e) \<in> set ?f" "shNames s' a = Some i"
      then have "(a, e) \<in> set m" "shNames s a = Some i" using less(1) by simp_all
      then show "udInit (shCtl s' i)" using umap_okD(1) [OF assms(1)] less(2) by simp
    qed
    show "\<forall>x i. shNames s' x = Some i \<longrightarrow> i < shNext s'"
      using umap_okD(2) [OF assms(1)] less by auto
  qed
qed

lemma umap_ok_step: "umap_ok m s \<Longrightarrow> umap_ok (fst (umap_step x (m, s))) (snd (umap_step x (m, s)))"
proof (cases x)
  case (UCreate K n)
  obtain ok m' s' where "unix_CreateIPC K n m s = (ok, m', s')" by (metis surj_pair)
  then show "umap_ok m s \<Longrightarrow> ?thesis" using UCreate umap_ok_create by auto
next
  case (UDestroy K n)
  obtain ok m' s' where "unix_DestroyIPC K n m s = (ok, m', s')" by (metis surj_pair)
  then show "umap_ok m s \<Longrightarrow> ?thesis" using UDestroy umap_ok_destroy by auto
qed

subsection \<open>The destructor of a server\<close>

text \<open>
  After the destructor has set _isStop and stopped the queue, and the main thread, without a request, has
  ended: the workers' steps on the queue and in their loop. A worker that comes back from DeQueue, or is outside of it,
  sees _isStop and ends; the destructor returns when all have ended, the threads in the set.
\<close>

inductive unix_stop_step :: "'a \<Rightarrow> 'a qsys \<times> nat set \<Rightarrow> 'a qsys \<times> nat set \<Rightarrow> bool" for T where
  inside: "q_inner (uq_DeQueue T) s s' \<Longrightarrow> unix_stop_step T (s, D) (s', D)"
| finish: "sysPc s t = QRet x \<or> sysPc s t = QOut \<Longrightarrow> unix_stop_step T (s, D) (s, insert t D)"

definition unix_joined :: "nat set \<Rightarrow> 'a qsys \<times> nat set \<Rightarrow> bool" where
  "unix_joined W sD = (W \<subseteq> snd sD)"

definition stranded :: "nat \<Rightarrow> 'a qsys \<times> nat set \<Rightarrow> bool" where
  "stranded t sD = (uq_dead (fst sD) \<and> sysPc (fst sD) t \<in> {QReady, QWait} \<and> t \<notin> snd sD)"

lemma stranded_step:
  assumes "unix_stop_step T sD sD'" and "stranded t sD"
  shows "stranded t sD'"
  using assms
proof (induction rule: unix_stop_step.induct)
  case (inside s s' D)
  then have st: "uq_dead s" "sysPc s t \<in> {QReady, QWait}" "t \<notin> D" by (simp_all add: stranded_def)
  from inside(1) st(1,2) have "sysPc s' t \<in> {QReady, QWait}"
    by (induction rule: q_inner.induct) (auto simp: uq_dead_def uq_DeQueue_def)
  with st uq_dead_step [OF inside(1)] show ?case by (simp add: stranded_def)
next
  case (finish s r x D)
  then show ?case by (auto simp: stranded_def)
qed

subsection \<open>Properties\<close>

text \<open>A client that sends its messages one after the other, each with the server at work while it sleeps, and
  goes on when SendIPC returns true.\<close>

fun unix_post :: "ukernel \<Rightarrow> int \<Rightarrow> umap \<Rightarrow> u32 \<Rightarrow> uname \<Rightarrow> 'u unix_callback \<Rightarrow> nat \<Rightarrow> int \<Rightarrow> byte list list
     \<Rightarrow> 'u unix_server \<Rightarrow> 'u unix_server option" where
  "unix_post K now m pid app f ob t [] sv = Some sv"
| "unix_post K now m pid app f ob t (r # rs) sv =
     (case unix_SendIPC (\<lambda>_. K) (\<lambda>_. unix_steps K pid (Some f) ob [True, False]) now m pid app (uvName sv) r (length r) [] 0 t 0 sv of
        Inr (True, _, _, sv') \<Rightarrow> unix_post K now m pid app f ob t rs sv'
      | _ \<Rightarrow> None)"



text \<open>Between processes the IPC does not work: once a client of process \<open>p\<close> has placed a request, the main
  thread of a server in another process reads the client's name through a pointer of \<open>p\<close>, outside of its
  own memory.\<close>

lemma unix_foreign_request_undefined:
  assumes "unix_send_try K p app now t nCheck srv ob req n s = Inr (True, sv)" and "p \<noteq> q" and "uk_alive K' p"
  shows "unix_main_round K' q ob sv = Inl OutOfBounds"
proof -
  obtain nm where "str_move (uk_sso K) p (udSender (shCtl s ob)) (getClientIPCName p app) = Inr nm"
    using assms(1) by (auto simp: unix_send_try_def Let_def split: if_splits sum.splits)
  moreover from this obtain x where "nm = Some (p, x)" by (auto simp: str_move_def split: option.splits if_splits)
  ultimately have "udHasReq (shCtl sv ob) \<and> udSender (shCtl sv ob) = Some (p, x) \<and> udPid (shCtl sv ob) = p"
    using assms(1) by (auto simp: unix_send_try_def Let_def split: if_splits sum.splits option.splits)
  with assms(2,3) show ?thesis by (simp add: unix_main_round_def str_read_def)
qed

text \<open>DestroyIPC of an idle server never returns: when one of its workers is inside DeQueue and the queue is
  empty as the destructor stops it, then however the threads go on, that worker never ends, so the
  destructor waits for ever in join.\<close>

lemma unix_destructor_hangs:
  assumes "eqItems (sysQ s) = []" and "t \<in> W" and "sysPc s t \<in> {QReady, QWait}"
    and "(unix_stop_step T)\<^sup>*\<^sup>* (uq_Stop_sys s, {}) sD"
  shows "\<not> unix_joined W sD"
proof -
  have "stranded t (uq_Stop_sys s, {})"
    using assms(1,3) by (auto simp: stranded_def uq_dead_def uq_Stop_sys_def uq_Stop_def notify_all_def)
  with assms(4) have "stranded t sD" by (induction rule: rtranclp_induct) (auto intro: stranded_step)
  with assms(2) show ?thesis by (auto simp: stranded_def unix_joined_def)
qed

text \<open>C30: whatever calls of CreateIPC and DestroyIPC a process makes, failed ones included, the entries of
  its map have pairwise different names, and each entry's objects and semaphores exist, with the flag
  isInit set, so its clients find the server.\<close>

theorem unix_map_well_formed:
  fixes s :: "'a usys_scheme"
  assumes "shNext s = 0" and "\<And>n. shNames s n = None" and "fold umap_step ops ([], s) = (m, s')"
  shows "umap_ok m s'"
proof -
  have "umap_ok (fst p) (snd p) \<Longrightarrow> umap_ok (fst (umap_step x p)) (snd (umap_step x p))" for x and p :: "umap \<times> 'a usys_scheme"
    by (cases p) (simp add: umap_ok_step)
  then have "umap_ok (fst p) (snd p) \<Longrightarrow> umap_ok (fst (fold umap_step ops p)) (snd (fold umap_step ops p))" for p :: "umap \<times> 'a usys_scheme"
    by (induction ops arbitrary: p) simp_all
  moreover have "umap_ok [] s" using assms(1,2) by (simp add: umap_ok_def umap_names_def)
  ultimately show ?thesis using assms(3) by (metis fst_conv snd_conv)
qed

text \<open>A willing system with pages of 4096 bytes and the string type of libstdc++, the empty system, and the
  server that CreateIPC starts in it for the name "ABC". Its client is a process 7 with the program
  name "/bin/prog".\<close>

definition demo_K :: ukernel where
  "demo_K = \<lparr>uk_page = 4096, uk_sso = 15, uk_creat = \<lambda>_. True, uk_open = \<lambda>_. True, uk_trunc = \<lambda>_. TOk, uk_sem = \<lambda>_. True,
     uk_mmap = \<lambda>_. True, uk_malloc = \<lambda>_. True, uk_alive = \<lambda>_. True\<rparr>"

definition demo_sys :: usys where
  "demo_sys = \<lparr>shNames = \<lambda>_. None, shCtl = \<lambda>_. ud_zero None, shRaw = \<lambda>_. [], shNext = 0, shSems = {}\<rparr>"

definition demo_name :: uname where "demo_name = [65, 66, 67]"
definition demo_app :: uname where "demo_app = [47, 98, 105, 110, 47, 112, 114, 111, 103]"

definition demo_created :: "bool \<times> umap \<times> usys" where
  "demo_created = unix_CreateIPC demo_K demo_name [] demo_sys"

definition demo_server :: "'u \<Rightarrow> 'u unix_server" where
  "demo_server u = (let s = snd (snd demo_created) in
     \<lparr>shNames = shNames s, shCtl = shCtl s, shRaw = shRaw s, shNext = shNext s, shSems = shSems s,
      uvName = demo_name, uvQueue = eq_new, uvStop = False, uvCtx = u\<rparr>)"

lemma demo_willing: "unix_willing demo_K"
  by (simp add: unix_willing_def demo_K_def)

lemmas demo_create_defs = demo_created_def unix_CreateIPC_def createShmIPC_def shm_creat_def createSemIPC_def
  sem_unlink_def isExistIPC_def demo_sys_def openMmapIPC_def UNIX_SIZE_def Let_def

lemma demo_map: "fst (snd demo_created) = [(demo_name, getDataIPCName demo_name)]"
  by (simp add: demo_create_defs demo_K_def)

lemma demo_idle: "unix_idle 7 0 1 (demo_server u)"
  by (simp add: unix_idle_def demo_server_def demo_create_defs demo_K_def demo_name_def ud_zero_def)

lemma demo_plain: "plain (demo_server u)"
  by (simp add: plain_def demo_server_def demo_create_defs demo_K_def ud_zero_def eq_new_def)

lemma demo_raw: "length (shRaw (demo_server u) 1) = 4096"
  by (simp add: demo_server_def demo_create_defs demo_K_def)

lemma demo_unix_client: "getClientIPCName 7 demo_app = [47, 105, 77, 111, 110, 83, 72, 77, 55, 47, 98, 105, 110, 47, 112, 114, 111, 103]"
  by (simp add: getClientIPCName_def demo_app_def blit_def to_wstring_def dec_digits.simps of_char_def)

lemma demo_fresh:
  "shNames (demo_server u) (getClientIPCName 7 demo_app) = None"
  "shNames (demo_server u) (getDataIPCName (getClientIPCName 7 demo_app)) = None"
  "\<not> isExistIPC (fst (snd demo_created)) (getClientIPCName 7 demo_app)"
  "\<not> isExistIPC (fst (snd demo_created)) (getDataIPCName (getClientIPCName 7 demo_app))"
  by (simp_all add: demo_unix_client demo_server_def demo_create_defs demo_K_def demo_name_def getDataIPCName_def blit_def)


text \<open>A callback that answers with three bytes (times out) and one that answers with none.\<close>

definition demo_call :: "nat \<Rightarrow> (bool \<times> byte list \<times> nat \<times> unit unix_server) res" where
  "demo_call res = unix_SendIPC (\<lambda>_. demo_K) (\<lambda>_. unix_steps demo_K 7 (Some (\<lambda>_ _ _ _ _. (res, ()))) 0 [True, False]) 0
     (fst (snd demo_created)) 7 demo_app demo_name [1, 2] 2 [9, 9, 9] 3 1 0 (demo_server ())"

lemma demo_call_runs: "\<exists>sv'. demo_call res = Inr (res = 0, [9, 9, 9], if res = 0 then 0 else 3, sv')"
proof -
  have "uk_sso demo_K < length (getClientIPCName 7 demo_app)" by (simp add: demo_unix_client demo_K_def)
  moreover have "uvName (demo_server ()) = demo_name" by (simp add: demo_server_def Let_def)
  moreover have "2 \<le> length (shRaw (demo_server ()) 1)" using demo_raw [of "()"] by simp
  ultimately show ?thesis
    using unix_SendIPC_serves [OF demo_willing demo_idle [of "()"] _ refl demo_fresh, of 2 "[1, 2]" 1 "\<lambda>_ _ _ _ _. (res, ())" 0 "[9, 9, 9]" 3]
    by (auto simp: demo_call_def)
qed


lemma unix_foreign_request_undefined_witness:
  "\<exists>sv. unix_send_try demo_K 7 demo_app 0 10 0 demo_name 0 [1, 2] 2 (demo_server ()) = Inr (True, sv)
     \<and> unix_main_round demo_K 8 0 sv = Inl OutOfBounds"
proof -
  have name: "uvName (demo_server ()) = demo_name" by (simp add: demo_server_def Let_def)
  have "2 \<le> length (shRaw (demo_server ()) 1)" using demo_raw [of "()"] by simp
  then obtain sv where "unix_send_try demo_K 7 demo_app 0 10 0 demo_name 0 [1, 2] 2 (demo_server ()) = Inr (True, sv)"
    using unix_send_try_places [OF demo_willing demo_idle, of demo_app 2 "[1, 2]" "()" 0 10]
    by (auto simp: name demo_unix_client demo_K_def)
  moreover from this have "unix_main_round demo_K 8 0 sv = Inl OutOfBounds"
    by (rule unix_foreign_request_undefined) (simp_all add: demo_K_def)
  ultimately show ?thesis by blast
qed

text \<open>A server with the default number of threads, its workers waiting.\<close>

lemma unix_destructor_hangs_witness:
  "fst (unix_server_start demo_K demo_name 10 (snd (snd demo_created))) = 9
   \<and> \<not> unix_joined {0..<9} (uq_Stop_sys \<lparr>sysQ = eq_new :: nat equeue, sysPc = \<lambda>_. QWait\<rparr>, {})"
proof
  show "fst (unix_server_start demo_K demo_name 10 (snd (snd demo_created))) = 9"
    by (simp add: unix_server_start_def)
  show "\<not> unix_joined {0..<9} (uq_Stop_sys \<lparr>sysQ = eq_new :: nat equeue, sysPc = \<lambda>_. QWait\<rparr>, {})"
    by (rule unix_destructor_hangs [of "\<lparr>sysQ = eq_new :: nat equeue, sysPc = \<lambda>_. QWait\<rparr>" 0 _ 0]) (simp_all add: eq_new_def)
qed

theorem unix_map_well_formed_witness:
  "\<exists>m s'. fold umap_step [UCreate demo_K [65], UCreate demo_K [65], UCreate demo_K [66], UDestroy demo_K [65]] ([], demo_sys) = (m, s')
     \<and> map fst m = [[66]] \<and> umap_ok m s'"
proof -
  obtain m s' where f: "fold umap_step [UCreate demo_K [65], UCreate demo_K [65], UCreate demo_K [66], UDestroy demo_K [65]] ([], demo_sys) = (m, s')"
    and m: "map fst m = [[66]]"
    by (simp add: demo_create_defs unix_DestroyIPC_def demo_K_def cleanupIPC_def getDataIPCName_def blit_def)
  have "umap_ok m s'" by (rule unix_map_well_formed [OF _ _ f]) (simp_all add: demo_sys_def)
  with f m show ?thesis by (intro exI [of _ m] exI [of _ s'] conjI)
qed

end
