(* ===== verification/Ipc_Typed.thy ===== *)
theory Ipc_Typed
  imports Ipc_Win
begin

text \<open>
  The shape of the shared state of the Windows IPC (IPC/EXIPC.cpp): the arrays of every stIPCData keep
  their lengths and every object has an open handle, whatever clients and server do in whatever order.
\<close>

subsection \<open>Well-formed objects\<close>

definition data_ok :: "stIPCData \<Rightarrow> bool" where
  "data_ok d = (length (reqData d) = 512 \<and> length (resData d) = 512 \<and> length (sSenderIPCName d) = 256)"

definition objs_ok :: "('a \<Rightarrow> bool) \<Rightarrow> 'a objs \<Rightarrow> bool" where
  "objs_ok P m = (\<forall>n x k. m n = Some (x, k) \<longrightarrow> P x \<and> 1 \<le> k)"

definition ipc_ok :: "'u ipc_server \<Rightarrow> bool" where
  "ipc_ok sv = (objs_ok data_ok (syStruct sv) \<and> objs_ok (\<lambda>_. True) (syData sv) \<and> (\<forall>d \<in> set (eqItems (svQueue sv)). data_ok d))"

lemma data_ok_zero [simp]: "data_ok ip_zero" by (simp add: data_ok_def ip_zero_def)
lemma data_ok_clear [simp]: "data_ok (ip_clear d) = data_ok d" by (simp add: data_ok_def ip_clear_def)

lemma objs_ok_create [inv_intros]: "P z \<Longrightarrow> objs_ok P m \<Longrightarrow> objs_ok P (obj_create z n m)"
  by (auto simp: objs_ok_def obj_create_def split: option.splits if_splits)

lemma objs_ok_put [inv_intros]: "P x \<Longrightarrow> objs_ok P m \<Longrightarrow> objs_ok P (obj_put n x m)"
  by (auto simp: objs_ok_def obj_put_def split: option.splits if_splits)

lemma objs_ok_close [inv_intros]: "objs_ok P m \<Longrightarrow> objs_ok P (obj_close n m)"
  by (auto simp: objs_ok_def obj_close_def split: option.splits if_splits)

lemma objs_ok_open: "objs_ok P m \<Longrightarrow> obj_open n m = Some (x, m') \<Longrightarrow> P x \<and> objs_ok P m'"
  by (auto simp: objs_ok_def obj_open_def split: option.splits if_splits)

lemma write_name_length: "write_name n arr = Inr nm \<Longrightarrow> length nm = length arr"
  by (auto simp: write_name_def split: if_splits)

subsection \<open>Every operation keeps it\<close>

lemma send_begin_ok [inv_intros]: "ipc_ok sv \<Longrightarrow> ipc_ok (send_begin page t c n sv)"
  by (auto simp: send_begin_def ipc_ok_def Let_def mx_Create_def intro: inv_intros)

lemma send_end_ok [inv_intros]: "ipc_ok sv \<Longrightarrow> ipc_ok (send_end c n sv)"
  by (auto simp: send_end_def ipc_ok_def Let_def intro: inv_intros)

lemma send_try_ok:
  assumes "ipc_ok sv" and "send_try page grant now t chk pid name c n req sv = Inr (ok, req', sv')"
  shows "ipc_ok sv'"
proof (cases "\<exists>d m. obj_open (GetGlobalName name) (syStruct sv) = Some (d, m)")
  case True
  then obtain d m where o: "obj_open (GetGlobalName name) (syStruct sv) = Some (d, m)" by blast
  note dm = objs_ok_open [OF _ o, of data_ok]
  from assms(1) have s: "objs_ok data_ok (syStruct sv)" "objs_ok (\<lambda>_. True) (syData sv)" "\<forall>d \<in> set (eqItems (svQueue sv)). data_ok d"
    by (simp_all add: ipc_ok_def)
  show ?thesis
    using assms(2) o dm [OF s(1)] s
    by (auto simp: send_try_def ipc_ok_def Let_def data_ok_def write_name_length
        split: if_splits sum.splits option.splits intro!: objs_ok_close objs_ok_put)
next
  case False
  with assms show ?thesis by (auto simp: send_try_def Let_def split: if_splits option.splits)
qed

lemma recv_try_ok:
  assumes "ipc_ok sv" and "recv_try page grant t chk c buf rsz sv = Inr (ok, buf', rsz', sv')"
  shows "ipc_ok sv'"
proof (cases "\<exists>d m. obj_open (GetGlobalName c) (syStruct sv) = Some (d, m)")
  case True
  then obtain d m where o: "obj_open (GetGlobalName c) (syStruct sv) = Some (d, m)" by blast
  from assms(1) have s: "objs_ok data_ok (syStruct sv)" "objs_ok (\<lambda>_. True) (syData sv)" "\<forall>d \<in> set (eqItems (svQueue sv)). data_ok d"
    by (simp_all add: ipc_ok_def)
  show ?thesis
    using assms(2) o objs_ok_open [OF s(1) o] s
    by (auto simp: recv_try_def ipc_ok_def Let_def data_ok_def
        split: if_splits sum.splits option.splits intro!: objs_ok_close objs_ok_put)
next
  case False
  with assms show ?thesis by (auto simp: recv_try_def Let_def split: if_splits option.splits)
qed

lemma main_round_ok: "ipc_ok sv \<Longrightarrow> ipc_ok (main_round proc sv)"
proof -
  assume "ipc_ok sv"
  then have s: "objs_ok data_ok (syStruct sv)" "objs_ok (\<lambda>_. True) (syData sv)" "\<forall>d \<in> set (eqItems (svQueue sv)). data_ok d"
    by (simp_all add: ipc_ok_def)
  define g where "g = GetGlobalName (svName sv)"
  define sv1 where "sv1 = (if svHMap sv then sv
                 else case obj_open g (syStruct sv) of None \<Rightarrow> sv | Some (_, m) \<Rightarrow> sv\<lparr>syStruct := m, svHMap := True\<rparr>)"
  have "objs_ok data_ok (syStruct sv1) \<and> syData sv1 = syData sv \<and> svQueue sv1 = svQueue sv"
    using s(1) objs_ok_open [OF s(1), of g] by (auto simp: sv1_def split: option.split)
  moreover from this have "syStruct sv1 g = Some (d, k) \<Longrightarrow> data_ok d" for d k by (auto simp: objs_ok_def)
  moreover have "main_round proc sv = (case syStruct sv1 g of
           None \<Rightarrow> sv1\<lparr>svHMap := False\<rparr>
         | Some (d, _) \<Rightarrow>
             (if hasRequest d \<and> \<not> IsRunningProcess proc (nSenderPID d)
              then sv1\<lparr>syStruct := obj_put g (ip_clear d) (syStruct sv1)\<rparr>
              else if hasRequest d
              then sv1\<lparr>svQueue := eq_EnQueue d (svQueue sv1),
                     syStruct := obj_close g (obj_put g (ip_clear d) (syStruct sv1)), svHMap := False\<rparr>
              else sv1\<lparr>syStruct := obj_close g (syStruct sv1), svHMap := False\<rparr>))"
    unfolding main_round_def Let_def g_def sv1_def by (rule refl)
  ultimately show ?thesis using s
    by (auto simp: ipc_ok_def eq_EnQueue_def split: option.split intro!: objs_ok_close objs_ok_put)
qed

lemma worker_respond_ok:
  assumes "ipc_ok sv" and "worker_respond page grant pid name data res rsz c sv = Inr (e, sv')"
  shows "ipc_ok sv'"
proof (cases "\<exists>d m. obj_open (GetGlobalName c) (syStruct sv) = Some (d, m)")
  case True
  then obtain d m where o: "obj_open (GetGlobalName c) (syStruct sv) = Some (d, m)" by blast
  from assms(1) have s: "objs_ok data_ok (syStruct sv)" "objs_ok (\<lambda>_. True) (syData sv)" "\<forall>d \<in> set (eqItems (svQueue sv)). data_ok d"
    by (simp_all add: ipc_ok_def)
  show ?thesis
    using assms(2) o objs_ok_open [OF s(1) o] s
    by (auto simp: worker_respond_def ipc_ok_def Let_def data_ok_def mx_Create_def write_name_length
        split: if_splits sum.splits option.splits intro!: objs_ok_close objs_ok_put objs_ok_create)
next
  case False
  with assms show ?thesis
    by (auto simp: worker_respond_def ipc_ok_def mx_Create_def Let_def split: if_splits option.splits)
qed

lemma worker_fetch_ok:
  assumes "ipc_ok sv" and "worker_fetch page grant data sv = Inr (r, sv')"
  shows "ipc_ok sv'"
proof -
  have d: "objs_ok (\<lambda>_. True) (syData sv)" using assms(1) by (simp add: ipc_ok_def)
  show ?thesis
    using assms objs_ok_open [OF d]
    by (auto simp: worker_fetch_def ipc_ok_def Let_def split: if_splits sum.splits option.splits)
qed

lemma worker_serve_ok:
  assumes "ipc_ok sv" and "worker_serve page grant pid cb data sv = Inr (e, sv')"
  shows "ipc_ok sv'"
proof (cases "hasRequest data")
  case True
  with assms(2) obtain req sv1 where f: "worker_fetch page grant data sv = Inr (req, sv1)"
    by (auto simp: worker_serve_def split: sum.splits)
  have ok: "ipc_ok sv1" by (rule worker_fetch_ok [OF assms(1) f])
  then have okc: "ipc_ok (sv1\<lparr>svCtx := u\<rparr>)" for u by (simp add: ipc_ok_def)
  show ?thesis
    using assms(2) True f ok okc worker_respond_ok [OF ok] worker_respond_ok [OF okc]
    by (auto simp: worker_serve_def Let_def split: if_splits sum.splits option.splits prod.splits)
next
  case False
  with assms show ?thesis by (simp add: worker_serve_def)
qed

lemma worker_round_ok:
  assumes "ipc_ok sv" and "worker_round page grant pid cb sv = Inr sv'"
  shows "ipc_ok sv'"
proof (cases "svIdle sv = 0 \<or> eq_DeQueue ip_zero (svQueue sv) = None")
  case True
  with assms show ?thesis by (auto simp: worker_round_def split: if_splits)
next
  case False
  then obtain data q where dq: "eq_DeQueue ip_zero (svQueue sv) = Some (data, q)" by auto
  have q: "ipc_ok (sv\<lparr>svQueue := q\<rparr>)"
    using assms(1) dq by (auto simp: ipc_ok_def eq_DeQueue_def split: if_splits dest: list.set_sel(2))
  have keep: "ipc_ok (x\<lparr>svIdle := a\<rparr>) = ipc_ok x" "ipc_ok (x\<lparr>svWaiting := b\<rparr>) = ipc_ok x" for x :: "'a ipc_server" and a b
    by (simp_all add: ipc_ok_def)
  show ?thesis
  proof (cases "svStop sv")
    case True
    with assms(2) False dq q show ?thesis by (auto simp: worker_round_def keep)
  next
    case run: False
    then obtain e sv1 where "worker_serve page grant pid cb data (sv\<lparr>svQueue := q\<rparr>) = Inr (e, sv1)"
      using assms(2) False dq by (auto simp: worker_round_def split: sum.splits)
    with worker_serve_ok [OF q this] assms(2) False dq run show ?thesis
      by (cases e) (auto simp: worker_round_def keep)
  qed
qed

lemma worker_finish_ok: "ipc_ok sv \<Longrightarrow> worker_finish i sv = Some sv' \<Longrightarrow> ipc_ok sv'"
  by (auto simp: worker_finish_def ipc_ok_def split: if_splits prod.splits intro: objs_ok_close)

subsection \<open>All the steps of the system\<close>

text \<open>A client at any point of SendIPC, the threads of the server, and the creation of the server.\<close>

inductive ipc_step :: "nat \<Rightarrow> (u32 \<Rightarrow> u32 option option) \<Rightarrow> 'u ipc_callback option \<Rightarrow> 'u ipc_server \<Rightarrow> 'u ipc_server \<Rightarrow> bool"
  for page proc cb where
  client_begin: "ipc_step page proc cb sv (send_begin page t c n sv)"
| client_send: "send_try page grant now t chk pid name c n req sv = Inr (ok, req', sv') \<Longrightarrow> ipc_step page proc cb sv sv'"
| client_recv: "recv_try page grant t chk c buf rsz sv = Inr (ok, buf', rsz', sv') \<Longrightarrow> ipc_step page proc cb sv sv'"
| client_end: "ipc_step page proc cb sv (send_end c n sv)"
| main_thread: "ipc_step page proc cb sv (main_round proc sv)"
| worker: "worker_round page grant pid cb sv = Inr sv' \<Longrightarrow> ipc_step page proc cb sv sv'"
| waiter: "worker_finish i sv = Some sv' \<Longrightarrow> ipc_step page proc cb sv sv'"

lemma ipc_step_ok: "ipc_step page proc cb sv sv' \<Longrightarrow> ipc_ok sv \<Longrightarrow> ipc_ok sv'"
  by (induction rule: ipc_step.induct)
    (auto intro: send_begin_ok send_end_ok main_round_ok
      dest: send_try_ok recv_try_ok worker_round_ok worker_finish_ok)

lemma CreateIPC_ok:
  assumes "objs_ok data_ok (syStruct s)" and "objs_ok (\<lambda>_. True) (syData s)"
  shows "ipc_ok (CreateIPC name ctx nMax s)"
proof -
  let ?g = "GetGlobalName name" and ?m = "obj_create ip_zero (GetGlobalName name) (syStruct s)"
  have m: "objs_ok data_ok ?m" by (intro objs_ok_create assms(1)) simp
  obtain d k where g: "?m ?g = Some (d, k)" by (cases "?m ?g") (auto simp: obj_create_def)
  with m have "data_ok d" by (auto simp: objs_ok_def)
  then have d: "data_ok ((ip_clear d)\<lparr>isInit := True\<rparr>)" by (simp add: data_ok_def ip_clear_def)
  have "objs_ok data_ok (obj_put ?g ((ip_clear d)\<lparr>isInit := True\<rparr>) ?m)" by (rule objs_ok_put [OF d m])
  with g assms(2) show ?thesis by (simp add: CreateIPC_def ipc_ok_def Let_def eq_new_def)
qed

subsection \<open>Property\<close>


text \<open>A client that opens its objects and places a request, and the main thread that takes it.\<close>

definition no_objs :: ipc_sys where
  "no_objs = \<lparr>syStruct = \<lambda>_. None, syData = \<lambda>_. None, syMutex = {}\<rparr>"


end
