(* ===== verification/Loading_Circle.thy ===== *)
theory Loading_Circle
  imports Ex_Prelude
begin

text \<open>
  QT/EXQLoadingCircle.cpp: a dialog that draws a turning circle. Its state is the record \<open>circle\<close>; the
  timer is its interval when it runs and the number of its connections to updateAnimation. What is
  drawn is a list of arcs. Qt itself (showing, painting, the event loop, threads) is outside; widgets are
  given by their positions and sizes, and int is unbounded here, as all numbers stay small.
\<close>

subsection \<open>The dialog\<close>

datatype brush =
    SolidBrush string
  | GradientBrush nat
  | ConicalBrush int int string string

record qtimer =
  tmInterval :: "int option"
  tmConnections :: nat

record circle =
  lcColors :: "brush list"
  lcTimer :: "qtimer option"
  lcSize :: "int \<times> int"
  lcPos :: "int \<times> int"
  lcLength :: int
  lcIdx :: int
  lcFirst :: bool
  lcUpdateMsec :: int
  lcRadius :: int
  lcPenSize :: int

definition lc_init :: "circle \<Rightarrow> circle" where
  "lc_init c = c\<lparr>lcTimer := Some \<lparr>tmInterval = None, tmConnections = 0\<rparr>, lcIdx := 0, lcLength := 0, lcFirst := True\<rparr>"

definition AddColor :: "string \<Rightarrow> circle \<Rightarrow> circle" where
  "AddColor color c = c\<lparr>lcColors := lcColors c @ [SolidBrush color]\<rparr>"

definition AddGradientColor :: "nat \<Rightarrow> circle \<Rightarrow> circle" where
  "AddGradientColor gradient c = c\<lparr>lcColors := lcColors c @ [GradientBrush gradient]\<rparr>"

definition AddGradientAuto :: "string \<Rightarrow> string \<Rightarrow> circle \<Rightarrow> circle" where
  "AddGradientAuto color1 color2 c =
     c\<lparr>lcColors := lcColors c @ [ConicalBrush (fst (lcSize c) div 2) (snd (lcSize c) div 2) color1 color2]\<rparr>"

definition ClearColor :: "circle \<Rightarrow> circle" where
  "ClearColor c = c\<lparr>lcColors := []\<rparr>"

definition SetDefaultColor :: "circle \<Rightarrow> circle" where
  "SetDefaultColor c =
     AddGradientAuto ''#8d39d7'' ''#3eccd5'' (AddGradientAuto ''#6c8ad6'' ''#8d39d7''
       (AddGradientAuto ''#3eccd5'' ''#6c8ad6'' (c\<lparr>lcColors := []\<rparr>)))"

definition lc_new :: circle where
  "lc_new = lc_init (SetDefaultColor \<lparr>lcColors = [], lcTimer = None, lcSize = (100, 100), lcPos = (0, 0), lcLength = 0, lcIdx = 0,
     lcFirst = True, lcUpdateMsec = 25, lcRadius = 40, lcPenSize = 5\<rparr>)"

definition SetSpeed :: "int \<Rightarrow> circle \<Rightarrow> circle" where
  "SetSpeed nSpeed c = c\<lparr>lcUpdateMsec := nSpeed\<rparr>"

definition SetRadius :: "int \<Rightarrow> circle \<Rightarrow> circle" where
  "SetRadius nRadius c = c\<lparr>lcRadius := nRadius\<rparr>"

definition SetPenSize :: "int \<Rightarrow> circle \<Rightarrow> circle" where
  "SetPenSize nPenSize c = c\<lparr>lcPenSize := nPenSize\<rparr>"

text \<open>The widgets above the dialog, the parent first and the top-level widget last: the loop adds the
  positions of all but the last.\<close>

fun parents_offset :: "(int \<times> int) list \<Rightarrow> int \<times> int" where
  "parents_offset (p # q # ps) = (fst p + fst (parents_offset (q # ps)), snd p + snd (parents_offset (q # ps)))"
| "parents_offset ps = (0, 0)"

text \<open>Start of a dialog whose parent has the size \<open>psize\<close> and a window at \<open>win\<close>. Without a parent the loop starts
  with a null pointer. Every call makes another connection.\<close>

definition lc_Start :: "(int \<times> int) list \<Rightarrow> int \<times> int \<Rightarrow> int \<times> int \<Rightarrow> circle \<Rightarrow> circle res" where
  "lc_Start parents psize win c =
     (case lcTimer c of
        None \<Rightarrow> Inr c
      | Some t \<Rightarrow>
          (if parents = [] then Inl NullDeref
           else let (nX, nY) = parents_offset parents in
             Inr (c\<lparr>lcPos := (fst win + nX + fst psize div 2 - fst (lcSize c) div 2, snd win + nY + snd psize div 2 - snd (lcSize c) div 2),
                    lcTimer := Some (t\<lparr>tmInterval := Some (lcUpdateMsec c), tmConnections := tmConnections t + 1\<rparr>)\<rparr>)))"

definition lc_Stop :: "circle \<Rightarrow> circle" where
  "lc_Stop c = lc_init (c\<lparr>lcTimer := None\<rparr>)"

definition updateAnimation :: "circle \<Rightarrow> circle" where
  "updateAnimation c =
     (if lcLength c < 360 then c\<lparr>lcLength := lcLength c + 10\<rparr>
      else let i = lcIdx c + 1 in
        c\<lparr>lcFirst := False, lcIdx := (if i \<ge> int (length (lcColors c)) then 0 else i), lcLength := 0\<rparr>)"

text \<open>A time-out of the timer calls updateAnimation once per connection.\<close>

definition lc_tick :: "circle \<Rightarrow> circle" where
  "lc_tick c = (case lcTimer c of
     None \<Rightarrow> c
   | Some t \<Rightarrow> if tmInterval t = None then c else (updateAnimation ^^ tmConnections t) c)"

record arc =
  arcBrush :: brush
  arcCentre :: "int \<times> int"
  arcRadius :: int
  arcWidth :: int
  arcStart :: int
  arcSpan :: int

text \<open>_vecColor.at, which asserts that the index is in range.\<close>

definition color_at :: "brush list \<Rightarrow> int \<Rightarrow> brush res" where
  "color_at bs i = (if 0 \<le> i \<and> i < int (length bs) then Inr (bs ! nat i) else Inl OutOfBounds)"

text \<open>What paintEvent draws. The radius and the pen size are constants in it, not the members.\<close>

definition lc_paint :: "circle \<Rightarrow> arc list res" where
  "lc_paint c =
     (let centre = (fst (lcSize c) div 2, snd (lcSize c) div 2);
          nPrev = (if lcIdx c - 1 < 0 then int (length (lcColors c)) - 1 else lcIdx c - 1);
          under = (if lcFirst c = False
            then (case color_at (lcColors c) nPrev of
                Inl e \<Rightarrow> Inl e
              | Inr b \<Rightarrow> Inr [\<lparr>arcBrush = b, arcCentre = centre, arcRadius = 40, arcWidth = 5, arcStart = 90 * 16, arcSpan = - 360 * 16\<rparr>])
            else Inr [])
      in case under of
           Inl e \<Rightarrow> Inl e
         | Inr arcs \<Rightarrow>
             (case color_at (lcColors c) (lcIdx c) of
                Inl e \<Rightarrow> Inl e
              | Inr b \<Rightarrow> Inr (arcs @ [\<lparr>arcBrush = b, arcCentre = centre, arcRadius = 40, arcWidth = 5, arcStart = 90 * 16,
                          arcSpan = - lcLength c * 16 + 1\<rparr>])))"

subsection \<open>The animation in closed form\<close>

definition circle_at :: "nat \<Rightarrow> circle \<Rightarrow> circle" where
  "circle_at t c = c\<lparr>lcLength := 10 * int (t mod 37), lcIdx := int ((t div 37) mod length (lcColors c)), lcFirst := (t < 37)\<rparr>"

lemma Suc_mod_div_37:
  "t mod 37 < 36 \<Longrightarrow> Suc t mod 37 = Suc (t mod 37) \<and> Suc t div 37 = t div 37 \<and> (Suc t < 37) = (t < 37)"
  "\<not> t mod 37 < 36 \<Longrightarrow> t mod 37 = 36 \<and> Suc t mod 37 = 0 \<and> Suc t div 37 = Suc (t div 37) \<and> \<not> Suc t < 37"
  for t :: nat
proof -
  have lt: "t mod 37 < 37" by simp
  assume "t mod 37 < 36"
  then show "Suc t mod 37 = Suc (t mod 37) \<and> Suc t div 37 = t div 37 \<and> (Suc t < 37) = (t < 37)"
    by (cases "t = 36") (auto simp: mod_Suc div_Suc)
next
  have lt: "t mod 37 < 37" by simp
  assume "\<not> t mod 37 < 36"
  with lt have m: "t mod 37 = 36" by linarith
  then have "\<not> t < 36" by auto
  with m show "t mod 37 = 36 \<and> Suc t mod 37 = 0 \<and> Suc t div 37 = Suc (t div 37) \<and> \<not> Suc t < 37"
    by (simp add: mod_Suc div_Suc)
qed

lemma updateAnimation_at:
  assumes "lcColors c \<noteq> []"
  shows "updateAnimation (circle_at t c) = circle_at (Suc t) c"
proof (cases "t mod 37 < 36")
  case True
  then show ?thesis
    using Suc_mod_div_37(1) [OF True] by (simp add: updateAnimation_def circle_at_def)
next
  case False
  note m = Suc_mod_div_37(2) [OF False]
  let ?n = "length (lcColors c)"
  have "t div 37 mod ?n < ?n" using assms by simp
  then have idx: "(if int ?n \<le> int (t div 37 mod ?n) + 1 then 0 else int (t div 37 mod ?n) + 1) = int (Suc (t div 37) mod ?n)"
    by (auto simp: mod_Suc)
  show ?thesis using m idx by (simp add: updateAnimation_def circle_at_def Let_def)
qed

lemma updateAnimation_pow:
  "lcColors c \<noteq> [] \<Longrightarrow> (updateAnimation ^^ k) (circle_at t c) = circle_at (t + k) c"
  by (induction k) (simp_all add: updateAnimation_at)

text \<open>Starting \<open>k\<close> times, and \<open>n\<close> time-outs of the timer.\<close>

fun lc_starts :: "nat \<Rightarrow> (int \<times> int) list \<Rightarrow> int \<times> int \<Rightarrow> int \<times> int \<Rightarrow> circle \<Rightarrow> circle res" where
  "lc_starts 0 parents psize win c = Inr c"
| "lc_starts (Suc k) parents psize win c =
     (case lc_Start parents psize win c of Inl e \<Rightarrow> Inl e | Inr c' \<Rightarrow> lc_starts k parents psize win c')"

lemma lc_starts_timer:
  assumes "parents \<noteq> []"
  shows "lcTimer c = Some \<lparr>tmInterval = i, tmConnections = m\<rparr> \<Longrightarrow>
    \<exists>c'. lc_starts k parents psize win c = Inr c' \<and> lcTimer c' = Some \<lparr>tmInterval = (if k = 0 then i else Some (lcUpdateMsec c)), tmConnections = m + k\<rparr>
      \<and> lcColors c' = lcColors c \<and> lcLength c' = lcLength c \<and> lcIdx c' = lcIdx c \<and> lcFirst c' = lcFirst c \<and> lcUpdateMsec c' = lcUpdateMsec c"
proof (induction k arbitrary: c i m)
  case (Suc k)
  obtain nX nY where off: "parents_offset parents = (nX, nY)" by fastforce
  obtain c1 where c1: "lc_Start parents psize win c = Inr c1" "lcTimer c1 = Some \<lparr>tmInterval = Some (lcUpdateMsec c), tmConnections = m + 1\<rparr>"
    "lcColors c1 = lcColors c" "lcLength c1 = lcLength c" "lcIdx c1 = lcIdx c" "lcFirst c1 = lcFirst c" "lcUpdateMsec c1 = lcUpdateMsec c"
    using assms Suc.prems off by (simp add: lc_Start_def)
  from Suc.IH [OF c1(2)] obtain c' where "lc_starts k parents psize win c1 = Inr c'"
    "lcTimer c' = Some \<lparr>tmInterval = (if k = 0 then Some (lcUpdateMsec c) else Some (lcUpdateMsec c1)), tmConnections = m + 1 + k\<rparr>"
    "lcColors c' = lcColors c1" "lcLength c' = lcLength c1" "lcIdx c' = lcIdx c1" "lcFirst c' = lcFirst c1" "lcUpdateMsec c' = lcUpdateMsec c1" by auto
  with c1 show ?case by (intro exI [of _ c']) auto
qed simp

lemma lc_tick_at:
  assumes "lcTimer c = Some \<lparr>tmInterval = Some i, tmConnections = k\<rparr>" and "lcColors c \<noteq> []"
  shows "(lc_tick ^^ n) (circle_at t c) = circle_at (t + n * k) c"
proof (induction n)
  case (Suc n)
  have "lcTimer (circle_at (t + n * k) c) = Some \<lparr>tmInterval = Some i, tmConnections = k\<rparr>" using assms(1) by (simp add: circle_at_def)
  with Suc updateAnimation_pow [OF assms(2)] show ?case by (simp add: lc_tick_def algebra_simps)
qed simp

subsection \<open>Property\<close>

text \<open>The animation in closed form. After \<open>k\<close> calls of Start on a new dialog (with a parent) and \<open>n\<close> time-outs of the timer,
  \<open>k * n\<close> steps have been made: one turn takes 37 of them, the arc grows by 10 degrees with each, and the colours
  take turns. So the painter always finds its colours: it draws one arc of the current colour, over a full
  circle of the previous one from the second turn on. A second Start doubles the speed.\<close>

lemma loading_circle_animation:
  assumes "parents \<noteq> []" and "0 < k"
  shows "\<exists>c arcs. lc_starts k parents psize win lc_new = Inr c \<and> (lc_tick ^^ n) c = circle_at (k * n) c \<and> length (lcColors c) = 3
     \<and> lc_paint ((lc_tick ^^ n) c) = Inr arcs \<and> length arcs = (if k * n < 37 then 1 else 2)
     \<and> arcBrush (last arcs) = lcColors c ! (k * n div 37 mod 3) \<and> arcSpan (last arcs) = 1 - 160 * int (k * n mod 37)
     \<and> (37 \<le> k * n \<longrightarrow> arcBrush (hd arcs) = lcColors c ! ((k * n div 37 - 1) mod 3) \<and> arcSpan (hd arcs) = - 5760)"
proof -
  have new: "lcTimer lc_new = Some \<lparr>tmInterval = None, tmConnections = 0\<rparr>" "length (lcColors lc_new) = 3"
    "lcLength lc_new = 0" "lcIdx lc_new = 0" "lcFirst lc_new"
    by (simp_all add: lc_new_def lc_init_def SetDefaultColor_def AddGradientAuto_def)
  obtain c where c: "lc_starts k parents psize win lc_new = Inr c"
    "lcTimer c = Some \<lparr>tmInterval = Some (lcUpdateMsec lc_new), tmConnections = k\<rparr>" "lcColors c = lcColors lc_new"
    "lcLength c = 0" "lcIdx c = 0" "lcFirst c"
    using lc_starts_timer [OF assms(1) new(1), of k psize win] assms(2) new(3-5) by auto
  have ne: "lcColors c \<noteq> []" and len: "length (lcColors c) = 3" using c(3) new(2) by auto
  have "circle_at 0 c = c" using c(4-6) by (simp add: circle_at_def)
  with lc_tick_at [OF c(2) ne, of n 0] have tick: "(lc_tick ^^ n) c = circle_at (k * n) c" by (simp add: mult.commute)
  let ?t = "k * n"
  have idx: "color_at (lcColors c) (int (?t div 37 mod 3)) = Inr (lcColors c ! (?t div 37 mod 3))"
    using len by (simp add: color_at_def)
  have prev: "color_at (lcColors c) (if int (?t div 37 mod 3) - 1 < 0 then 2 else int (?t div 37 mod 3) - 1)
      = Inr (lcColors c ! ((?t div 37 - 1) mod 3))" if "37 \<le> ?t"
  proof -
    have "1 \<le> ?t div 37" using div_le_mono [OF that, of 37] by simp
    then obtain m where m: "?t div 37 = Suc m" by (cases "?t div 37") auto
    show ?thesis unfolding m using len by (auto simp: color_at_def mod_Suc nat_diff_distrib)
  qed
  obtain arcs where "lc_paint (circle_at ?t c) = Inr arcs" "length arcs = (if ?t < 37 then 1 else 2)"
    "arcBrush (last arcs) = lcColors c ! (?t div 37 mod 3)" "arcSpan (last arcs) = 1 - 160 * int (?t mod 37)"
    "37 \<le> ?t \<longrightarrow> arcBrush (hd arcs) = lcColors c ! ((?t div 37 - 1) mod 3) \<and> arcSpan (hd arcs) = - 5760"
  proof (cases "?t < 37")
    case True
    then show thesis using idx len by - (rule that, simp add: lc_paint_def circle_at_def, simp_all)
  next
    case False
    then show thesis using idx len prev by - (rule that, simp add: lc_paint_def circle_at_def Let_def cong: if_cong, simp_all)
  qed
  with c(1) tick len show ?thesis by (intro exI [of _ c] exI [of _ arcs]) simp
qed

lemma loading_circle_animation_witness:
  "\<exists>c arcs. lc_starts 2 [(5, 6), (7, 8)] (200, 100) (1, 2) lc_new = Inr c \<and> lc_paint ((lc_tick ^^ 20) c) = Inr arcs \<and> length arcs = 2
     \<and> arcSpan (last arcs) = -479"
  using loading_circle_animation [of "[(5, 6), (7, 8)]" 2 "(200, 100)" "(1, 2)" 20] by auto

text \<open>Two mistakes of callers it does not catch: a dialog without a parent, and no colour at all.\<close>

lemma Start_without_parent: "lc_Start [] psize win lc_new = Inl NullDeref"
  by (simp add: lc_Start_def lc_new_def lc_init_def)

lemma paint_without_colors: "lc_paint (ClearColor lc_new) = Inl OutOfBounds"
  by (simp add: lc_paint_def ClearColor_def lc_new_def lc_init_def color_at_def)

end
