(* ===== verification/Network_Threads.thy ===== *)
theory Network_Threads
  imports Network
begin

text \<open>
  Concurrent calls of cNetwork::SendAndWait, cNetwork::Send and the receive thread of the client
  (Network/EXNetwork.cpp), interleaved at their atomic actions: the increment of the atomic
  \<open>_msgIdSeq\<close>, each block under \<open>_lckPendingRequests\<close>, set_value, and what the wait of the future
  gives. Theory Network has the same code one call at a time; the lemmas
  \<open>begin_is_steps\<close> and \<open>dispatch_is_steps\<close> connect the two. Call number \<open>t\<close> is in the state
  \<open>thCalls s t\<close>, \<open>WEnter\<close> before it begins. What the socket does is open: a send succeeds or fails,
  any packet may arrive at any time. \<open>thDrawn\<close> counts the message ids given out and is not a
  variable of the code.
\<close>

datatype waiter =
    WEnter
  | WRefused
  | WDrawn MSGID
  | WSending MSGID nat
  | WWaiting MSGID nat
  | WErase MSGID
  | WReturned MSGID "tuPacketMsg option"
  | WThrown MSGID

datatype receiver = RcIdle | RcPacket tuPacketMsg | RcPromise tuPacketMsg nat | RcHandler tuPacketMsg

record 'w threads =
  thNet :: "'w network"
  thCalls :: "nat \<Rightarrow> waiter"
  thRecv :: receiver
  thDrawn :: nat
  thHandled :: "tuPacketMsg list"

definition th_start :: "'w network \<Rightarrow> 'w threads" where
  "th_start n = \<lparr>thNet = n, thCalls = (\<lambda>_. WEnter), thRecv = RcIdle, thDrawn = 0, thHandled = []\<rparr>"

subsection \<open>The atomic actions\<close>

definition packet_id :: "tuPacketMsg \<Rightarrow> MSGID" where
  "packet_id pkt = fst (snd pkt)"

definition can_send :: "'w network \<Rightarrow> bool" where
  "can_send n = (nwType (nwInfo n) = NETWORK_CLIENT \<and> nwClient n \<noteq> None)"

definition next_id :: "'w network \<Rightarrow> 'w network" where
  "next_id n = n\<lparr>nwMsgIdSeq := nwMsgIdSeq n + 1\<rparr>"

text \<open>SendAndWait takes its request out of the map, after a failed send or a time-out.\<close>

definition abandon :: "MSGID \<Rightarrow> 'w network \<Rightarrow> 'w network" where
  "abandon msgId n = n\<lparr>nwPending := smap_erase msgId (nwPending n)\<rparr>"

text \<open>What the wait gives when the future is ready.\<close>

fun future_result :: "MSGID \<Rightarrow> future \<Rightarrow> waiter option" where
  "future_result msgId FPending = None"
| "future_result msgId (FValue pkt) = Some (WReturned msgId (Some pkt))"
| "future_result msgId FBroken = Some (WThrown msgId)"

text \<open>The block of the receive thread under the lock, and set_value after it.\<close>

definition take_promise :: "tuPacketMsg \<Rightarrow> 'w network \<Rightarrow> receiver \<times> 'w network" where
  "take_promise tuPacket n =
     (let msgId = packet_id tuPacket in
      case map_of (nwPending n) msgId of
        Some p \<Rightarrow> (RcPromise tuPacket p, n\<lparr>nwPending := smap_erase msgId (nwPending n)\<rparr>)
      | None \<Rightarrow> (RcHandler tuPacket, n))"

definition set_value :: "tuPacketMsg \<Rightarrow> nat \<Rightarrow> 'w network \<Rightarrow> 'w network" where
  "set_value tuPacket p n = n\<lparr>nwFutures := (nwFutures n)(p := FValue tuPacket)\<rparr>"

inductive th_step :: "'w threads \<Rightarrow> 'w threads \<Rightarrow> bool" where
  refuse: "thCalls s t = WEnter \<Longrightarrow> \<not> can_send (thNet s) \<Longrightarrow>
    th_step s (s\<lparr>thCalls := (thCalls s)(t := WRefused)\<rparr>)"
| draw: "thCalls s t = WEnter \<Longrightarrow> can_send (thNet s) \<Longrightarrow>
    th_step s (s\<lparr>thNet := next_id (thNet s), thCalls := (thCalls s)(t := WDrawn (nwMsgIdSeq (thNet s))),
      thDrawn := Suc (thDrawn s)\<rparr>)"
| draw_Send: "can_send (thNet s) \<Longrightarrow> th_step s (s\<lparr>thNet := next_id (thNet s), thDrawn := Suc (thDrawn s)\<rparr>)"
| promise: "thCalls s t = WDrawn i \<Longrightarrow>
    th_step s (s\<lparr>thNet := new_promise i (thNet s), thCalls := (thCalls s)(t := WSending i (nwNextFuture (thNet s)))\<rparr>)"
| sent: "thCalls s t = WSending i p \<Longrightarrow> th_step s (s\<lparr>thCalls := (thCalls s)(t := WWaiting i p)\<rparr>)"
| not_sent: "thCalls s t = WSending i p \<Longrightarrow> th_step s (s\<lparr>thCalls := (thCalls s)(t := WErase i)\<rparr>)"
| ready: "thCalls s t = WWaiting i p \<Longrightarrow> future_result i (nwFutures (thNet s) p) = Some r \<Longrightarrow>
    th_step s (s\<lparr>thCalls := (thCalls s)(t := r)\<rparr>)"
| timeout: "thCalls s t = WWaiting i p \<Longrightarrow> future_result i (nwFutures (thNet s) p) = None \<Longrightarrow>
    th_step s (s\<lparr>thCalls := (thCalls s)(t := WErase i)\<rparr>)"
| erase: "thCalls s t = WErase i \<Longrightarrow>
    th_step s (s\<lparr>thNet := abandon i (thNet s), thCalls := (thCalls s)(t := WReturned i None)\<rparr>)"
| receive: "thRecv s = RcIdle \<Longrightarrow> \<not> nwIsStop (thNet s) \<Longrightarrow> th_step s (s\<lparr>thRecv := RcPacket pkt\<rparr>)"
| lookup: "thRecv s = RcPacket pkt \<Longrightarrow> take_promise pkt (thNet s) = (r, n) \<Longrightarrow>
    th_step s (s\<lparr>thNet := n, thRecv := r\<rparr>)"
| fulfil: "thRecv s = RcPromise pkt p \<Longrightarrow>
    th_step s (s\<lparr>thNet := set_value pkt p (thNet s), thRecv := RcIdle\<rparr>)"
| handle: "thRecv s = RcHandler pkt \<Longrightarrow>
    th_step s (s\<lparr>thRecv := RcIdle, thHandled := thHandled s @ (if nwClientHandler (thNet s) = None then [] else [pkt])\<rparr>)"

subsection \<open>One call at a time\<close>

text \<open>A request that gets to its wait does the actions of \<open>SendAndWait_begin\<close> in a row, and the
  receive thread those of \<open>client_dispatch\<close>.\<close>

lemma begin_is_steps:
  assumes "thCalls s t = WEnter" and "SendAndWait_begin os d (thNet s) w = Some (Inr (Inr (i, p), n, w'))"
  shows "th_step\<^sup>*\<^sup>* s (s\<lparr>thDrawn := Suc (thDrawn s), thNet := n, thCalls := (thCalls s)(t := WWaiting i p)\<rparr>)"
proof -
  have n: "can_send (thNet s)" "i = nwMsgIdSeq (thNet s)" "p = nwNextFuture (thNet s)" "n = new_promise i (next_id (thNet s))"
    using assms(2) by (auto simp: SendAndWait_begin_def can_send_def next_id_def Let_def split: if_splits option.splits)
  let ?s1 = "s\<lparr>thNet := next_id (thNet s), thCalls := (thCalls s)(t := WDrawn i), thDrawn := Suc (thDrawn s)\<rparr>"
  let ?s2 = "?s1\<lparr>thNet := n, thCalls := (thCalls s)(t := WSending i p)\<rparr>"
  have "th_step s ?s1" using th_step.draw [of s t] assms(1) n by simp
  moreover have "th_step ?s1 ?s2" using th_step.promise [of ?s1 t i] n by (simp add: next_id_def)
  moreover have "th_step ?s2 (?s2\<lparr>thCalls := (thCalls s)(t := WWaiting i p)\<rparr>)"
    using th_step.sent [of ?s2 t i p] by simp
  ultimately have "th_step\<^sup>*\<^sup>* s (?s2\<lparr>thCalls := (thCalls s)(t := WWaiting i p)\<rparr>)"
    by (meson converse_rtranclp_into_rtranclp rtranclp.rtrancl_refl)
  then show ?thesis by simp
qed

lemma dispatch_is_steps:
  assumes "thRecv s = RcPacket pkt" and "map_of (nwPending (thNet s)) (packet_id pkt) = Some p"
  shows "th_step\<^sup>*\<^sup>* s (s\<lparr>thNet := fst (client_dispatch pkt sock (thNet s) w), thRecv := RcIdle\<rparr>)"
proof -
  let ?n = "abandon (packet_id pkt) (thNet s)"
  let ?s1 = "s\<lparr>thNet := ?n, thRecv := RcPromise pkt p\<rparr>"
  have "th_step s ?s1"
    using th_step.lookup [of s pkt "RcPromise pkt p" ?n] assms by (simp add: take_promise_def abandon_def)
  moreover have "th_step ?s1 (s\<lparr>thNet := set_value pkt p ?n, thRecv := RcIdle\<rparr>)"
    using th_step.fulfil [of ?s1 pkt p] by simp
  moreover have "fst (client_dispatch pkt sock (thNet s) w) = set_value pkt p ?n"
    using assms(2) by (simp add: client_dispatch_def set_value_def abandon_def packet_id_def Let_def)
  ultimately show ?thesis by (simp add: converse_rtranclp_into_rtranclp [OF _ r_into_rtranclp])
qed

lemma end_is_abandon:
  "SendAndWait_end i p n = (case future_result i (nwFutures n p) of
     None \<Rightarrow> Inr (None, abandon i n)
   | Some (WReturned j r) \<Rightarrow> Inr (r, n)
   | Some _ \<Rightarrow> Inl BrokenPromise)"
  by (simp add: SendAndWait_end_def abandon_def split: future.split)

subsection \<open>The invariant\<close>

fun waiter_id :: "waiter \<Rightarrow> MSGID option" where
  "waiter_id WEnter = None"
| "waiter_id WRefused = None"
| "waiter_id (WDrawn i) = Some i"
| "waiter_id (WSending i p) = Some i"
| "waiter_id (WWaiting i p) = Some i"
| "waiter_id (WErase i) = Some i"
| "waiter_id (WReturned i r) = Some i"
| "waiter_id (WThrown i) = Some i"

text \<open>The call looks at the future of \<open>p\<close>; it answers for the entry \<open>i \<mapsto> p\<close> of the map.\<close>

fun watches :: "waiter \<Rightarrow> MSGID \<Rightarrow> nat \<Rightarrow> bool" where
  "watches (WSending i p) j q = (i = j \<and> p = q)"
| "watches (WWaiting i p) j q = (i = j \<and> p = q)"
| "watches _ j q = False"

definition answers_for :: "waiter \<Rightarrow> MSGID \<Rightarrow> nat \<Rightarrow> bool" where
  "answers_for c i p = (watches c i p \<or> c = WErase i)"

lemma watches_id: "watches c i p \<Longrightarrow> waiter_id c = Some i"
  by (cases c) auto

lemma answers_for_id: "answers_for c i p \<Longrightarrow> waiter_id c = Some i"
  by (auto simp: answers_for_def watches_id)

text \<open>The ids: the counter is one more than the number of ids drawn, and no two calls have one id.\<close>

definition ids_ok :: "u32 \<Rightarrow> nat \<Rightarrow> (nat \<Rightarrow> waiter) \<Rightarrow> bool" where
  "ids_ok nxt d c = (nxt = 1 + of_nat d
     \<and> (\<forall>t i. waiter_id (c t) = Some i \<longrightarrow> (\<exists>k < d. i = 1 + of_nat k))
     \<and> (\<forall>t u i. waiter_id (c t) = Some i \<longrightarrow> waiter_id (c u) = Some i \<longrightarrow> t = u))"

lemma ids_okD:
  assumes "ids_ok nxt d c"
  shows "nxt = 1 + of_nat d" and "waiter_id (c t) = Some i \<Longrightarrow> \<exists>k < d. i = 1 + of_nat k"
    and "waiter_id (c t) = Some i \<Longrightarrow> waiter_id (c u) = Some i \<Longrightarrow> t = u"
  using assms by (auto simp: ids_ok_def)

lemma ids_ok_fresh:
  assumes "ids_ok nxt d c" and "d < 2 ^ 32"
  shows "waiter_id (c t) \<noteq> Some nxt"
proof
  assume "waiter_id (c t) = Some nxt"
  then obtain k where k: "k < d" "nxt = 1 + of_nat k" using ids_okD(2) [OF assms(1)] by blast
  with ids_okD(1) [OF assms(1)] have "(of_nat d :: u32) = of_nat k" by simp
  with k(1) assms(2) show False by (simp add: word_of_nat_eq_iff take_bit_nat_eq_self)
qed

lemma ids_ok_draw:
  assumes "ids_ok nxt d c" and "d < 2 ^ 32" and "c t = WEnter"
  shows "ids_ok (nxt + 1) (Suc d) (c(t := WDrawn nxt))"
proof -
  have 1: "\<exists>k < Suc d. i = 1 + of_nat k" if "waiter_id ((c(t := WDrawn nxt)) u) = Some i" for u i
  proof (cases "u = t")
    case True
    then have "i = 1 + of_nat d" using that ids_okD(1) [OF assms(1)] by simp
    then show ?thesis by blast
  next
    case False
    then have "\<exists>k < d. i = 1 + of_nat k" using that ids_okD(2) [OF assms(1), of u i] by simp
    then show ?thesis using less_SucI by blast
  qed
  have 2: "u = v" if "waiter_id ((c(t := WDrawn nxt)) u) = Some i" "waiter_id ((c(t := WDrawn nxt)) v) = Some i" for u v i
    using that ids_okD(3) [OF assms(1)] ids_ok_fresh [OF assms(1,2)]
    by (metis fun_upd_apply option.inject waiter_id.simps(3))
  have "nxt + 1 = 1 + of_nat (Suc d)" using ids_okD(1) [OF assms(1)] by simp
  then show ?thesis unfolding ids_ok_def using 1 2 by blast
qed

lemma ids_ok_draw_Send: "ids_ok nxt d c \<Longrightarrow> ids_ok (nxt + 1) (Suc d) c"
  unfolding ids_ok_def by (auto simp: add_ac less_Suc_eq)

lemma ids_ok_update:
  assumes "ids_ok nxt d c" and "waiter_id r = waiter_id (c t) \<or> waiter_id r = None"
  shows "ids_ok nxt d (c(t := r))"
proof -
  have id: "waiter_id (c u) = Some i" if "waiter_id ((c(t := r)) u) = Some i" for u i
    using that assms(2) by (auto split: if_splits)
  show ?thesis unfolding ids_ok_def
    using ids_okD(1) [OF assms(1)] ids_okD(2,3) [OF assms(1)] id by blast
qed

text \<open>The map and the futures. A waiting call either has its entry in the map, or its promise is in
  the hands of the receive thread, or its future has a packet with its id.\<close>

definition map_ok :: "'w network \<Rightarrow> (nat \<Rightarrow> waiter) \<Rightarrow> bool" where
  "map_ok n c = (\<forall>i p. map_of (nwPending n) i = Some p \<longrightarrow> (\<exists>t. answers_for (c t) i p))"

fun reply_ok :: "MSGID \<Rightarrow> future \<Rightarrow> bool" where
  "reply_ok i FPending = True"
| "reply_ok i (FValue pkt) = (packet_id pkt = i)"
| "reply_ok i FBroken = False"

fun in_hand :: "receiver \<Rightarrow> (MSGID \<times> nat) option" where
  "in_hand (RcPromise pkt p) = Some (packet_id pkt, p)"
| "in_hand _ = None"

definition future_ok :: "'w network \<Rightarrow> receiver \<Rightarrow> MSGID \<Rightarrow> nat \<Rightarrow> bool" where
  "future_ok n r i p = (p < nwNextFuture n \<and> reply_ok i (nwFutures n p)
     \<and> (nwFutures n p = FPending \<longrightarrow> map_of (nwPending n) i = Some p \<or> in_hand r = Some (i, p)))"

definition receiver_ok :: "'w network \<Rightarrow> receiver \<Rightarrow> bool" where
  "receiver_ok n r = (\<forall>i p. in_hand r = Some (i, p) \<longrightarrow>
     p < nwNextFuture n \<and> nwFutures n p = FPending \<and> (\<forall>j. map_of (nwPending n) j \<noteq> Some p))"

definition result_ok :: "waiter \<Rightarrow> bool" where
  "result_ok c = (case c of WReturned i (Some pkt) \<Rightarrow> packet_id pkt = i | WThrown i \<Rightarrow> False | _ \<Rightarrow> True)"

definition th_inv :: "'w threads \<Rightarrow> bool" where
  "th_inv s = (pending_ok (thNet s) \<and> ids_ok (nwMsgIdSeq (thNet s)) (thDrawn s) (thCalls s)
     \<and> map_ok (thNet s) (thCalls s) \<and> receiver_ok (thNet s) (thRecv s)
     \<and> (\<forall>t i p. watches (thCalls s t) i p \<longrightarrow> future_ok (thNet s) (thRecv s) i p)
     \<and> (\<forall>t. result_ok (thCalls s t)))"

lemma th_invD:
  assumes "th_inv s"
  shows "pending_ok (thNet s)" and "ids_ok (nwMsgIdSeq (thNet s)) (thDrawn s) (thCalls s)"
    and "map_ok (thNet s) (thCalls s)" and "receiver_ok (thNet s) (thRecv s)"
    and "watches (thCalls s t) i p \<Longrightarrow> future_ok (thNet s) (thRecv s) i p" and "result_ok (thCalls s t)"
  using assms by (auto simp: th_inv_def)

lemma th_invI:
  assumes "pending_ok (thNet s)" and "ids_ok (nwMsgIdSeq (thNet s)) (thDrawn s) (thCalls s)"
    and "map_ok (thNet s) (thCalls s)" and "receiver_ok (thNet s) (thRecv s)"
    and "\<And>t i p. watches (thCalls s t) i p \<Longrightarrow> future_ok (thNet s) (thRecv s) i p"
    and "\<And>t. result_ok (thCalls s t)"
  shows "th_inv s"
  using assms by (auto simp: th_inv_def)

lemma th_inv_start: "nwPending n = [] \<Longrightarrow> nwMsgIdSeq n = 1 \<Longrightarrow> th_inv (th_start n)"
  by (rule th_invI) (simp_all add: th_start_def pending_ok_def ids_ok_def map_ok_def receiver_ok_def result_ok_def)

text \<open>Changes that leave the network as it is for the map and the futures.\<close>

lemma net_fields_id [simp]:
  "nwPending (next_id n) = nwPending n" "nwFutures (next_id n) = nwFutures n" "nwNextFuture (next_id n) = nwNextFuture n"
  "nwMsgIdSeq (next_id n) = nwMsgIdSeq n + 1"
  by (simp_all add: next_id_def)

lemma oks_next_id [simp]:
  "pending_ok (next_id n) = pending_ok n" "map_ok (next_id n) c = map_ok n c"
  "future_ok (next_id n) r i p = future_ok n r i p" "receiver_ok (next_id n) r = receiver_ok n r"
  by (simp_all add: pending_ok_def map_ok_def future_ok_def receiver_ok_def)

lemma map_ok_update:
  assumes "map_ok n c" and "\<And>i p. map_of (nwPending n) i = Some p \<Longrightarrow> answers_for (c t) i p \<Longrightarrow> answers_for r i p"
  shows "map_ok n (c(t := r))"
  unfolding map_ok_def
proof (intro allI impI)
  fix i p assume ip: "map_of (nwPending n) i = Some p"
  with assms(1) obtain u where "answers_for (c u) i p" unfolding map_ok_def by blast
  then have "answers_for ((c(t := r)) u) i p" using assms(2) [OF ip] by auto
  then show "\<exists>u. answers_for ((c(t := r)) u) i p" by blast
qed

text \<open>A step of one call that only changes its own state.\<close>

lemma th_inv_call:
  assumes "th_inv s" and "waiter_id r = waiter_id (thCalls s t) \<or> waiter_id r = None"
    and "\<And>i p. map_of (nwPending (thNet s)) i = Some p \<Longrightarrow> answers_for (thCalls s t) i p \<Longrightarrow> answers_for r i p"
    and "\<And>i p. watches r i p \<Longrightarrow> watches (thCalls s t) i p" and "result_ok r"
  shows "th_inv (s\<lparr>thCalls := (thCalls s)(t := r)\<rparr>)"
proof (rule th_invI)
  show "ids_ok (nwMsgIdSeq (thNet (s\<lparr>thCalls := (thCalls s)(t := r)\<rparr>))) (thDrawn (s\<lparr>thCalls := (thCalls s)(t := r)\<rparr>))
      (thCalls (s\<lparr>thCalls := (thCalls s)(t := r)\<rparr>))"
    using ids_ok_update [OF th_invD(2) [OF assms(1)] assms(2)] by simp
  show "map_ok (thNet (s\<lparr>thCalls := (thCalls s)(t := r)\<rparr>)) (thCalls (s\<lparr>thCalls := (thCalls s)(t := r)\<rparr>))"
    using map_ok_update [OF th_invD(3) [OF assms(1)] assms(3)] by simp
  show "future_ok (thNet (s\<lparr>thCalls := (thCalls s)(t := r)\<rparr>)) (thRecv (s\<lparr>thCalls := (thCalls s)(t := r)\<rparr>)) i p"
    if "watches (thCalls (s\<lparr>thCalls := (thCalls s)(t := r)\<rparr>) u) i p" for u i p
    using that th_invD(5) [OF assms(1)] assms(4) [of i p] by (cases "u = t") auto
qed (use th_invD(1,4,6) [OF assms(1)] assms(5) in auto)

text \<open>The actions that change the map or a future.\<close>

lemma future_ok_abandon: "future_ok n r i p \<Longrightarrow> j \<noteq> i \<Longrightarrow> future_ok (abandon j n) r i p"
  by (simp add: future_ok_def abandon_def smap.look_erase)

lemma th_inv_draw:
  assumes "th_inv s" and "thDrawn s < 2 ^ 32" and "thCalls s t = WEnter"
  shows "th_inv (s\<lparr>thNet := next_id (thNet s), thCalls := (thCalls s)(t := WDrawn (nwMsgIdSeq (thNet s))),
      thDrawn := Suc (thDrawn s)\<rparr>)"
proof (rule th_invI, goal_cases)
  case 2
  then show ?case using ids_ok_draw [of _ _ "thCalls s" t] th_invD(2) [OF assms(1)] assms(2,3) by simp
next
  case 3
  then show ?case using map_ok_update [OF th_invD(3) [OF assms(1)], of t] assms(3)
    by (simp add: answers_for_def)
qed (use th_invD(1,4-6) [OF assms(1)] in \<open>auto simp: result_ok_def split: if_splits\<close>)

lemma th_inv_draw_Send:
  assumes "th_inv s"
  shows "th_inv (s\<lparr>thNet := next_id (thNet s), thDrawn := Suc (thDrawn s)\<rparr>)"
  by (rule th_invI) (use th_invD [OF assms] ids_ok_draw_Send in auto)

lemma own_entry:
  assumes "th_inv s" and "waiter_id (thCalls s t) = Some i" and "map_of (nwPending (thNet s)) i = Some p"
  shows "answers_for (thCalls s t) i p"
proof -
  obtain u where u: "answers_for (thCalls s u) i p" using th_invD(3) [OF assms(1)] assms(3) by (auto simp: map_ok_def)
  then have "u = t" using ids_okD(3) [OF th_invD(2) [OF assms(1)]] answers_for_id assms(2) by blast
  with u show ?thesis by simp
qed

lemma own_id:
  assumes "th_inv s" and "waiter_id (thCalls s t) = Some i" and "waiter_id (thCalls s u) = Some i"
  shows "u = t"
  using ids_okD(3) [OF th_invD(2) [OF assms(1)]] assms(2,3) by blast

lemma th_inv_promise:
  assumes "th_inv s" and "thCalls s t = WDrawn i"
  shows "th_inv (s\<lparr>thNet := new_promise i (thNet s), thCalls := (thCalls s)(t := WSending i (nwNextFuture (thNet s)))\<rparr>)"
    (is "th_inv ?s")
proof -
  let ?n = "thNet s"
  have none: "map_of (nwPending ?n) i = None"
    using own_entry [OF assms(1), of t i] assms(2)
    by (cases "map_of (nwPending ?n) i") (simp_all add: answers_for_def)
  note np = new_promise_pending [of i ?n] new_promise_future [of i ?n]
  show ?thesis
  proof (rule th_invI)
    show "pending_ok (thNet ?s)" using pending_ok_promise th_invD(1) [OF assms(1)] by simp
    show "ids_ok (nwMsgIdSeq (thNet ?s)) (thDrawn ?s) (thCalls ?s)"
      using ids_ok_update [OF th_invD(2) [OF assms(1)], of _ t] assms(2) by (simp add: new_promise_def Let_def)
    show "map_ok (thNet ?s) (thCalls ?s)" unfolding map_ok_def
    proof (intro allI impI)
      fix j p assume j: "map_of (nwPending (thNet ?s)) j = Some p"
      show "\<exists>u. answers_for (thCalls ?s u) j p"
      proof (cases "j = i")
        case True
        then have "p = nwNextFuture ?n" using j none by (simp add: np)
        then show ?thesis using True by (intro exI [of _ t]) (simp add: answers_for_def)
      next
        case False
        then obtain u where u: "answers_for (thCalls s u) j p"
          using j th_invD(3) [OF assms(1)] by (auto simp: np map_ok_def)
        then have "u \<noteq> t" using assms(2) by (auto simp: answers_for_def)
        with u show ?thesis by (intro exI [of _ u]) simp
      qed
    qed
    show "receiver_ok (thNet ?s) (thRecv ?s)"
      using th_invD(4) [OF assms(1)] by (auto simp: receiver_ok_def np)
    show "future_ok (thNet ?s) (thRecv ?s) j p" if "watches (thCalls ?s u) j p" for u j p
    proof (cases "u = t")
      case True
      then show ?thesis using that none
        by (auto simp: future_ok_def new_promise_pending new_promise_future)
    next
      case False
      then have "waiter_id (thCalls s u) = Some j" and w: "watches (thCalls s u) j p" using that watches_id by auto
      then have "j \<noteq> i" using own_id [OF assms(1), of t i u] assms(2) False by auto
      then show ?thesis using th_invD(5) [OF assms(1) w] by (auto simp: future_ok_def np)
    qed
  qed (use th_invD(6) [OF assms(1)] in \<open>simp add: result_ok_def\<close>)
qed

lemma th_inv_erase:
  assumes "th_inv s" and "thCalls s t = WErase i"
  shows "th_inv (s\<lparr>thNet := abandon i (thNet s), thCalls := (thCalls s)(t := WReturned i None)\<rparr>)" (is "th_inv ?s")
proof (rule th_invI)
  show "pending_ok (thNet ?s)" using pending_ok_erase th_invD(1) [OF assms(1)] by (simp add: abandon_def)
  show "ids_ok (nwMsgIdSeq (thNet ?s)) (thDrawn ?s) (thCalls ?s)"
    using ids_ok_update [OF th_invD(2) [OF assms(1)], of _ t] assms(2) by (simp add: abandon_def)
  show "map_ok (thNet ?s) (thCalls ?s)" unfolding map_ok_def
  proof (intro allI impI)
    fix j p assume "map_of (nwPending (thNet ?s)) j = Some p"
    then have j: "j \<noteq> i" "map_of (nwPending (thNet s)) j = Some p"
      by (auto simp: abandon_def smap.look_erase split: if_splits)
    then obtain u where u: "answers_for (thCalls s u) j p" using th_invD(3) [OF assms(1)] by (auto simp: map_ok_def)
    then have "u \<noteq> t" using assms(2) j(1) by (auto simp: answers_for_def)
    with u show "\<exists>u. answers_for (thCalls ?s u) j p" by (intro exI [of _ u]) simp
  qed
  show "receiver_ok (thNet ?s) (thRecv ?s)"
    using th_invD(4) [OF assms(1)] by (auto simp: receiver_ok_def abandon_def smap.look_erase)
  show "future_ok (thNet ?s) (thRecv ?s) j p" if "watches (thCalls ?s u) j p" for u j p
  proof -
    from that have u: "u \<noteq> t" and w: "watches (thCalls s u) j p" by (auto split: if_splits)
    then have "i \<noteq> j" using own_id [OF assms(1), of t i u] watches_id [OF w] assms(2) by auto
    then show ?thesis using th_invD(5) [OF assms(1) w] by (simp add: future_ok_abandon)
  qed
qed (use th_invD(6) [OF assms(1)] in \<open>simp add: result_ok_def\<close>)

lemma th_inv_ready:
  assumes "th_inv s" and "thCalls s t = WWaiting i p" and "future_result i (nwFutures (thNet s) p) = Some r"
  shows "th_inv (s\<lparr>thCalls := (thCalls s)(t := r)\<rparr>)"
proof -
  have "future_ok (thNet s) (thRecv s) i p" using th_invD(5) [OF assms(1), of t] assms(2) by simp
  then obtain pkt where pkt: "nwFutures (thNet s) p = FValue pkt" "packet_id pkt = i" "r = WReturned i (Some pkt)"
    using assms(3) by (cases "nwFutures (thNet s) p") (auto simp: future_ok_def)
  show ?thesis
  proof (rule th_inv_call [OF assms(1)])
    fix j q assume jq: "map_of (nwPending (thNet s)) j = Some q" "answers_for (thCalls s t) j q"
    then have "nwFutures (thNet s) p = FPending"
      using pending_okD(2) [OF th_invD(1) [OF assms(1)]] assms(2) by (auto simp: answers_for_def)
    with pkt(1) show "answers_for r j q" by simp
  qed (use assms(2) pkt in \<open>simp_all add: result_ok_def\<close>)
qed

lemma th_inv_timeout:
  assumes "th_inv s" and "watches (thCalls s t) i p"
  shows "th_inv (s\<lparr>thCalls := (thCalls s)(t := WErase i)\<rparr>)"
  by (rule th_inv_call [OF assms(1)])
    (use assms(2) watches_id [OF assms(2)] in \<open>auto simp: result_ok_def answers_for_def dest: watches_id\<close>)

lemma th_inv_sent:
  assumes "th_inv s" and "thCalls s t = WSending i p"
  shows "th_inv (s\<lparr>thCalls := (thCalls s)(t := WWaiting i p)\<rparr>)"
  by (rule th_inv_call [OF assms(1)]) (use assms(2) in \<open>auto simp: result_ok_def answers_for_def\<close>)

text \<open>A step of the receive thread that does not touch the network; \<open>r\<close> is no promise.\<close>

lemma th_inv_recv:
  assumes "th_inv s" and "in_hand (thRecv s) = None" and "in_hand r = None"
  shows "th_inv (s\<lparr>thRecv := r, thHandled := h\<rparr>)"
  by (rule th_invI) (use th_invD [OF assms(1)] assms(2,3) in \<open>auto simp: receiver_ok_def future_ok_def\<close>)

lemma th_inv_lookup:
  assumes "th_inv s" and "thRecv s = RcPacket pkt" and "take_promise pkt (thNet s) = (r, n)"
  shows "th_inv (s\<lparr>thNet := n, thRecv := r\<rparr>)"
proof (cases "map_of (nwPending (thNet s)) (packet_id pkt)")
  case None
  then have "n = thNet s" "r = RcHandler pkt" using assms(3) by (auto simp: take_promise_def Let_def)
  then show ?thesis using th_inv_recv [OF assms(1), of r "thHandled s"] assms(2) by simp
next
  case (Some p)
  then have n: "n = abandon (packet_id pkt) (thNet s)" and r: "r = RcPromise pkt p"
    using assms(3) by (auto simp: take_promise_def abandon_def Let_def)
  note look = pending_okD [OF th_invD(1) [OF assms(1)] Some]
  show ?thesis
  proof (rule th_invI)
    show "pending_ok (thNet (s\<lparr>thNet := n, thRecv := r\<rparr>))"
      using pending_ok_erase th_invD(1) [OF assms(1)] by (simp add: n abandon_def)
    show "map_ok (thNet (s\<lparr>thNet := n, thRecv := r\<rparr>)) (thCalls (s\<lparr>thNet := n, thRecv := r\<rparr>))"
      using th_invD(3) [OF assms(1)] by (auto simp: map_ok_def n abandon_def smap.look_erase)
    show "receiver_ok (thNet (s\<lparr>thNet := n, thRecv := r\<rparr>)) (thRecv (s\<lparr>thNet := n, thRecv := r\<rparr>))"
      using look by (auto simp: receiver_ok_def n r abandon_def smap.look_erase)
    show "future_ok (thNet (s\<lparr>thNet := n, thRecv := r\<rparr>)) (thRecv (s\<lparr>thNet := n, thRecv := r\<rparr>)) j q"
      if "watches (thCalls (s\<lparr>thNet := n, thRecv := r\<rparr>) u) j q" for u j q
      using th_invD(5) [OF assms(1), of u j q] that assms(2) Some
      by (auto simp: future_ok_def n r abandon_def smap.look_erase)
  qed (use th_invD(2,6) [OF assms(1)] in \<open>simp_all add: n abandon_def\<close>)
qed

lemma th_inv_fulfil:
  assumes "th_inv s" and "thRecv s = RcPromise pkt p"
  shows "th_inv (s\<lparr>thNet := set_value pkt p (thNet s), thRecv := RcIdle\<rparr>)" (is "th_inv ?s")
proof -
  have p: "p < nwNextFuture (thNet s)" "nwFutures (thNet s) p = FPending" "map_of (nwPending (thNet s)) i \<noteq> Some p" for i
    using th_invD(4) [OF assms(1)] assms(2) by (auto simp: receiver_ok_def)
  show ?thesis
  proof (rule th_invI)
    show "pending_ok (thNet ?s)"
      using th_invD(1) [OF assms(1)] p(3) by (auto simp: pending_ok_def set_value_def)
    show "future_ok (thNet ?s) (thRecv ?s) j q" if "watches (thCalls ?s u) j q" for u j q
      using th_invD(5) [OF assms(1), of u j q] that assms(2) p
      by (cases "q = p") (auto simp: future_ok_def set_value_def)
  qed (use th_invD(2,3,6) [OF assms(1)] in \<open>auto simp: set_value_def map_ok_def receiver_ok_def\<close>)
qed

lemma th_inv_step:
  assumes "th_step s s'" and "th_inv s" and "thDrawn s' \<le> 2 ^ 32"
  shows "th_inv s'"
  using assms
proof (cases rule: th_step.cases)
  case (refuse t)
  then show ?thesis using th_inv_call [OF assms(2), of WRefused t] by (simp add: answers_for_def result_ok_def)
next
  case (draw t)
  then have "thDrawn s < 2 ^ 32" using assms(3) by simp
  with draw show ?thesis using th_inv_draw [OF assms(2), of t] by blast
next
  case draw_Send
  then show ?thesis using th_inv_draw_Send [OF assms(2)] by blast
next
  case (promise t i)
  then show ?thesis using th_inv_promise [OF assms(2)] by blast
next
  case (sent t i p)
  then show ?thesis using th_inv_sent [OF assms(2)] by blast
next
  case (not_sent t i p)
  then show ?thesis using th_inv_timeout [OF assms(2), of t i p] by simp
next
  case (ready t i p r)
  then show ?thesis using th_inv_ready [OF assms(2)] by blast
next
  case (timeout t i p)
  then show ?thesis using th_inv_timeout [OF assms(2), of t i p] by simp
next
  case (erase t i)
  then show ?thesis using th_inv_erase [OF assms(2)] by blast
next
  case (receive pkt)
  then show ?thesis using th_inv_recv [OF assms(2), of "RcPacket pkt" "thHandled s"] by simp
next
  case (lookup pkt r n)
  then show ?thesis using th_inv_lookup [OF assms(2)] by blast
next
  case (fulfil pkt p)
  then show ?thesis using th_inv_fulfil [OF assms(2)] by blast
next
  case (handle pkt)
  then have "in_hand (thRecv s) = None" "in_hand RcIdle = None" by (simp_all del: split_paired_All)
  then show ?thesis using th_inv_recv [OF assms(2), of RcIdle] handle(1) by blast
qed

lemma drawn_mono: "th_step\<^sup>*\<^sup>* s s' \<Longrightarrow> thDrawn s \<le> thDrawn s'"
  by (induction rule: rtranclp_induct) (auto elim!: th_step.cases)

lemma th_inv_reachable:
  assumes "th_step\<^sup>*\<^sup>* s s'" and "th_inv s" and "thDrawn s' \<le> 2 ^ 32"
  shows "th_inv s'"
  using assms
proof (induction rule: rtranclp_induct)
  case (step s1 s2)
  then have "thDrawn s1 \<le> 2 ^ 32" using drawn_mono [OF r_into_rtranclp [of th_step, OF step.hyps(2)]] by simp
  with step show ?case using th_inv_step by blast
qed simp

subsection \<open>Schedules\<close>

text \<open>The step relation run by a schedule: which thread acts, and what the socket does.\<close>

datatype action = ACall nat bool | ASend | AReceive tuPacketMsg

definition th_call :: "nat \<Rightarrow> bool \<Rightarrow> 'w threads \<Rightarrow> 'w threads option" where
  "th_call t ok s =
     (let n = thNet s; c = thCalls s in
      case c t of
        WEnter \<Rightarrow> Some (if can_send n
            then s\<lparr>thNet := next_id n, thCalls := c(t := WDrawn (nwMsgIdSeq n)), thDrawn := Suc (thDrawn s)\<rparr>
            else s\<lparr>thCalls := c(t := WRefused)\<rparr>)
      | WDrawn i \<Rightarrow> Some (s\<lparr>thNet := new_promise i n, thCalls := c(t := WSending i (nwNextFuture n))\<rparr>)
      | WSending i p \<Rightarrow> Some (s\<lparr>thCalls := c(t := if ok then WWaiting i p else WErase i)\<rparr>)
      | WWaiting i p \<Rightarrow> Some (s\<lparr>thCalls := c(t := case future_result i (nwFutures n p) of None \<Rightarrow> WErase i | Some r \<Rightarrow> r)\<rparr>)
      | WErase i \<Rightarrow> Some (s\<lparr>thNet := abandon i n, thCalls := c(t := WReturned i None)\<rparr>)
      | _ \<Rightarrow> None)"

definition th_receive :: "tuPacketMsg \<Rightarrow> 'w threads \<Rightarrow> 'w threads option" where
  "th_receive new s =
     (case thRecv s of
        RcIdle \<Rightarrow> if nwIsStop (thNet s) then None else Some (s\<lparr>thRecv := RcPacket new\<rparr>)
      | RcPacket pkt \<Rightarrow> (case take_promise pkt (thNet s) of (r, n) \<Rightarrow> Some (s\<lparr>thNet := n, thRecv := r\<rparr>))
      | RcPromise pkt p \<Rightarrow> Some (s\<lparr>thNet := set_value pkt p (thNet s), thRecv := RcIdle\<rparr>)
      | RcHandler pkt \<Rightarrow> Some (s\<lparr>thRecv := RcIdle,
          thHandled := thHandled s @ (if nwClientHandler (thNet s) = None then [] else [pkt])\<rparr>))"

fun th_do :: "action \<Rightarrow> 'w threads \<Rightarrow> 'w threads option" where
  "th_do (ACall t ok) s = th_call t ok s"
| "th_do ASend s = (if can_send (thNet s) then Some (s\<lparr>thNet := next_id (thNet s), thDrawn := Suc (thDrawn s)\<rparr>) else None)"
| "th_do (AReceive pkt) s = th_receive pkt s"

fun th_run :: "action list \<Rightarrow> 'w threads \<Rightarrow> 'w threads option" where
  "th_run [] s = Some s"
| "th_run (a # as) s = (case th_do a s of None \<Rightarrow> None | Some s' \<Rightarrow> th_run as s')"

lemma th_call_step: "th_call t ok s = Some s' \<Longrightarrow> th_step s s'"
  by (cases "thCalls s t")
    (auto simp: th_call_def Let_def intro: th_step.intros split: if_splits option.splits)

lemma th_receive_step:
  assumes "th_receive pkt s = Some s'"
  shows "th_step s s'"
proof (cases "thRecv s")
  case RcIdle
  then show ?thesis using assms th_step.receive [OF RcIdle, of pkt] by (simp add: th_receive_def split: if_splits)
next
  case (RcPacket q)
  obtain r n where "take_promise q (thNet s) = (r, n)" by fastforce
  then show ?thesis using assms th_step.lookup [OF RcPacket, of r n] RcPacket by (simp add: th_receive_def)
next
  case (RcPromise q p)
  then show ?thesis using assms th_step.fulfil [OF RcPromise] by (simp add: th_receive_def)
next
  case (RcHandler q)
  then have "s' = s\<lparr>thRecv := RcIdle,
      thHandled := thHandled s @ (if nwClientHandler (thNet s) = None then [] else [q])\<rparr>"
    using assms by (simp add: th_receive_def)
  then show ?thesis using th_step.handle [OF RcHandler] by blast
qed

lemma th_do_step: "th_do a s = Some s' \<Longrightarrow> th_step s s'"
  by (cases a) (auto simp: th_call_step th_receive_step th_step.draw_Send split: if_splits)

lemma step_th_do: "th_step s s' \<Longrightarrow> \<exists>a. th_do a s = Some s'"
proof (induction rule: th_step.induct)
  case (draw_Send s)
  then show ?case by (intro exI [of _ ASend]) simp
next
  case (not_sent s t i p)
  then show ?case by (intro exI [of _ "ACall t False"]) (simp add: th_call_def Let_def)
next
  case (receive s pkt)
  then show ?case by (intro exI [of _ "AReceive pkt"]) (simp add: th_receive_def)
next
  case (lookup s pkt r n)
  then show ?case by (intro exI [of _ "AReceive pkt"]) (simp add: th_receive_def)
next
  case (fulfil s pkt p)
  then show ?case by (intro exI [of _ "AReceive pkt"]) (simp add: th_receive_def)
next
  case (handle s pkt)
  then show ?case by (intro exI [of _ "AReceive pkt"]) (simp add: th_receive_def)
next
  case (refuse s t)
  then show ?case by (intro exI [of _ "ACall t True"]) (simp add: th_call_def Let_def)
next
  case (draw s t)
  then show ?case by (intro exI [of _ "ACall t True"]) (simp add: th_call_def Let_def)
next
  case (promise s t i)
  then show ?case by (intro exI [of _ "ACall t True"]) (simp add: th_call_def Let_def)
next
  case (sent s t i p)
  then show ?case by (intro exI [of _ "ACall t True"]) (simp add: th_call_def Let_def)
next
  case (ready s t i p r)
  then show ?case by (intro exI [of _ "ACall t True"]) (simp add: th_call_def Let_def)
next
  case (timeout s t i p)
  then show ?case by (intro exI [of _ "ACall t True"]) (simp add: th_call_def Let_def)
next
  case (erase s t i)
  then show ?case by (intro exI [of _ "ACall t True"]) (simp add: th_call_def Let_def)
qed

lemma th_run_steps: "th_run as s = Some s' \<Longrightarrow> th_step\<^sup>*\<^sup>* s s'"
  by (induction as arbitrary: s)
    (auto split: option.splits intro: converse_rtranclp_into_rtranclp th_do_step)

lemma th_step_iff: "th_step\<^sup>*\<^sup>* s s' \<longleftrightarrow> (\<exists>as. th_run as s = Some s')"
proof
  show "th_step\<^sup>*\<^sup>* s s' \<Longrightarrow> \<exists>as. th_run as s = Some s'"
  proof (induction rule: converse_rtranclp_induct)
    case base
    show ?case by (intro exI [of _ "[]"]) simp
  next
    case (step s1 s2)
    then obtain a as where "th_do a s1 = Some s2" "th_run as s2 = Some s'" using step_th_do by blast
    then show ?case by (intro exI [of _ "a # as"]) simp
  qed
qed (auto intro: th_run_steps)

subsection \<open>Properties\<close>

text \<open>What a call still has to do, at most, by its own actions: each of its actions makes it less,
  no other action changes it.\<close>

fun actions_left :: "waiter \<Rightarrow> nat" where
  "actions_left WEnter = 5"
| "actions_left (WDrawn i) = 4"
| "actions_left (WSending i p) = 3"
| "actions_left (WWaiting i p) = 2"
| "actions_left (WErase i) = 1"
| "actions_left _ = 0"

lemma future_result_left: "future_result i f = Some r \<Longrightarrow> actions_left r = 0"
  by (cases f) auto

lemma SendAndWait_actions:
  assumes "th_do a s = Some s'"
  shows "(if \<exists>ok. a = ACall t ok then actions_left (thCalls s' t) < actions_left (thCalls s t)
          else thCalls s' t = thCalls s t)"
proof (cases a)
  case (ACall u ok)
  then show ?thesis using assms
    by (cases "thCalls s u") (auto simp: th_call_def Let_def future_result_left split: if_splits option.split)
next
  case (AReceive pkt)
  then show ?thesis using assms
    by (cases "thRecv s") (auto simp: th_receive_def split: if_splits prod.splits)
qed (use assms in \<open>auto split: if_splits\<close>)

text \<open>C25: whatever the order of the threads, each entry of the map of pending requests belongs to
  exactly one call of SendAndWait that is still running, as long as the 32 bit message ids have not
  come round; when no call is running the map is empty, so no request stays behind in it.\<close>

theorem pending_map_belongs_to_calls:
  assumes "th_step\<^sup>*\<^sup>* (th_start n) s" and "nwPending n = []" and "nwMsgIdSeq n = 1" and "thDrawn s \<le> 2 ^ 32"
  shows "(\<forall>i p. map_of (nwPending (thNet s)) i = Some p \<longrightarrow> (\<exists>!t. answers_for (thCalls s t) i p))
    \<and> ((\<forall>t. actions_left (thCalls s t) = 0 \<or> thCalls s t = WEnter) \<longrightarrow> nwPending (thNet s) = [])"
proof -
  have inv: "th_inv s" by (rule th_inv_reachable [OF assms(1) th_inv_start [OF assms(2,3)] assms(4)])
  have ex: "\<exists>t. answers_for (thCalls s t) i p" if "map_of (nwPending (thNet s)) i = Some p" for i p
    using th_invD(3) [OF inv] that unfolding map_ok_def by blast
  moreover have "t = u" if "answers_for (thCalls s t) i p" "answers_for (thCalls s u) i p" for i p t u
    using own_id [OF inv] answers_for_id that by blast
  moreover have "\<not> answers_for c i p" if "actions_left c = 0 \<or> c = WEnter" for c i p
    using that by (cases c) (auto simp: answers_for_def)
  then have "nwPending (thNet s) = []" if "\<forall>t. actions_left (thCalls s t) = 0 \<or> thCalls s t = WEnter"
    using ex that by (metis map_of_eq_empty_iff not_None_eq)
  ultimately show ?thesis by blast
qed

text \<open>A run of two calls whose replies come in the other order, the second after its time-out.\<close>

definition demo_threads :: "byte list list threads" where
  "demo_threads = th_start (demo_client\<lparr>nwClientHandler := Some (\<lambda>sock pkt w. w)\<rparr>)"

definition demo_schedule :: "action list" where
  "demo_schedule = [ACall 0 True, ACall 1 True, ACall 1 True, ACall 0 True, ACall 1 True, ACall 0 True,
     AReceive (1, 2, [7]), AReceive (1, 2, [7]), AReceive (1, 2, [7]), ACall 1 True, ACall 0 True,
     AReceive (1, 1, [8]), AReceive (1, 1, [8]), ACall 0 True, AReceive (1, 1, [8])]"

lemma demo_run:
  "\<exists>s. th_run demo_schedule demo_threads = Some s \<and> thCalls s 0 = WReturned 1 None
     \<and> thCalls s 1 = WReturned 2 (Some (1, 2, [7])) \<and> (\<forall>t. t \<noteq> 0 \<longrightarrow> t \<noteq> 1 \<longrightarrow> thCalls s t = WEnter)
     \<and> thDrawn s = 2 \<and> nwFutures (thNet s) 1 = FValue (1, 1, [8]) \<and> thHandled s = []"
  by (simp add: demo_schedule_def demo_threads_def th_start_def demo_client_def nw_new_def th_call_def
      th_receive_def can_send_def next_id_def new_promise_def abandon_def take_promise_def set_value_def
      packet_id_def smap_emplace_def smap_erase_def smap_contains_def Let_def del: One_nat_def)

lemma demo_fresh_network:
  "nwPending (demo_client\<lparr>nwClientHandler := h\<rparr>) = []" "nwMsgIdSeq (demo_client\<lparr>nwClientHandler := h\<rparr>) = 1"
  by (simp_all add: demo_client_def nw_new_def)

theorem pending_map_belongs_to_calls_witness:
  "\<exists>s. th_run demo_schedule demo_threads = Some s \<and> nwPending (thNet s) = []"
proof -
  obtain s where s: "th_run demo_schedule demo_threads = Some s" "thCalls s 0 = WReturned 1 None"
    "thCalls s 1 = WReturned 2 (Some (1, 2, [7]))" "\<forall>t. t \<noteq> 0 \<longrightarrow> t \<noteq> 1 \<longrightarrow> thCalls s t = WEnter" "thDrawn s = 2"
    using demo_run by blast
  have "\<forall>t. actions_left (thCalls s t) = 0 \<or> thCalls s t = WEnter"
    using s(2-4) by (metis actions_left.simps(7))
  then show ?thesis
    using pending_map_belongs_to_calls [OF th_run_steps [OF s(1) [unfolded demo_threads_def]] demo_fresh_network] s(1,5)
    by auto
qed

text \<open>C8: whatever the order of the threads, and as long as the 32 bit message ids have not come
  round: a call of SendAndWait that returns true gives a packet with the id of its own request, no
  two calls have one id, no call ends with an exception of its future, and the receive thread sets
  only promises that have no value yet.\<close>

theorem SendAndWait_own_reply:
  assumes "th_step\<^sup>*\<^sup>* (th_start n) s" and "nwPending n = []" and "nwMsgIdSeq n = 1" and "thDrawn s \<le> 2 ^ 32"
  shows "(thCalls s t = WReturned i (Some pkt) \<longrightarrow> packet_id pkt = i)
    \<and> (waiter_id (thCalls s t) = Some i \<longrightarrow> waiter_id (thCalls s u) = Some i \<longrightarrow> t = u)
    \<and> thCalls s t \<noteq> WThrown i
    \<and> (thRecv s = RcPromise pkt p \<longrightarrow> nwFutures (thNet s) p = FPending)"
proof -
  have inv: "th_inv s" by (rule th_inv_reachable [OF assms(1) th_inv_start [OF assms(2,3)] assms(4)])
  show ?thesis
    using th_invD(4) [OF inv] th_invD(6) [OF inv, of t] own_id [OF inv] by (auto simp: receiver_ok_def result_ok_def)
qed

theorem SendAndWait_own_reply_witness:
  "\<exists>s. th_run demo_schedule demo_threads = Some s \<and> thCalls s 1 = WReturned 2 (Some (1, 2, [7]))
     \<and> packet_id (1, 2, [7]) = 2"
proof -
  obtain s where s: "th_run demo_schedule demo_threads = Some s" "thCalls s 1 = WReturned 2 (Some (1, 2, [7]))"
    "thDrawn s = 2"
    using demo_run by blast
  show ?thesis
    using SendAndWait_own_reply [OF th_run_steps [OF s(1) [unfolded demo_threads_def]] demo_fresh_network,
        where t = 1 and i = 2 and pkt = "(1, 2, [7])"] s by auto
qed

text \<open>A reply that the receive thread takes between the time-out of its request and the erase of the
  request is lost: SendAndWait returns false and the handler is not called.\<close>

lemma late_reply_lost:
  "\<exists>s. th_step\<^sup>*\<^sup>* demo_threads s \<and> thCalls s 0 = WReturned 1 None
     \<and> nwFutures (thNet s) 1 = FValue (1, 1, [8]) \<and> nwClientHandler (thNet demo_threads) \<noteq> None \<and> thHandled s = []"
proof -
  have "nwClientHandler (thNet demo_threads) \<noteq> None" by (simp add: demo_threads_def th_start_def)
  then show ?thesis using demo_run th_run_steps by blast
qed

end
