(* ===== verification/Queue_Threads.thy ===== *)
theory Queue_Threads
  imports Event_Queue
begin

text \<open>
  The threads of Ext::Queue::eventQueue (Util/ExDataStruct.hpp) with its mutex and its condition
  variable. DeQueue takes the lock, tests, and goes to sleep in wait, which gives the lock back;
  EnQueue pushes and notifies under the lock; Stop writes and notifies without it. A waiting thread
  may also wake up by itself, as condition variables allow. \<open>tqPut\<close> and \<open>tqGot\<close> are
  the values given to EnQueue and returned by DeQueue (before a Stop) so far; the code has no such
  variables.
\<close>

datatype 'a dq_pc = DOut | DLock | DTest | DBlock | DWait | DBack 'a

record 'a queue_threads =
  tqQ :: "'a equeue"
  tqPc :: "nat \<Rightarrow> 'a dq_pc"
  tqPut :: "'a list"
  tqGot :: "'a list"

definition tq_start :: "'a queue_threads" where
  "tq_start = \<lparr>tqQ = eq_new, tqPc = (\<lambda>_. DOut), tqPut = [], tqGot = []\<rparr>"

fun holds_lock :: "'a dq_pc \<Rightarrow> bool" where
  "holds_lock DTest = True"
| "holds_lock DBlock = True"
| "holds_lock _ = False"

text \<open>A thread that will test the condition by itself.\<close>

fun is_ready :: "'a dq_pc \<Rightarrow> bool" where
  "is_ready DLock = True"
| "is_ready DTest = True"
| "is_ready _ = False"

definition lock_free :: "'a queue_threads \<Rightarrow> bool" where
  "lock_free s = (\<forall>t. \<not> holds_lock (tqPc s t))"

inductive tq_notify :: "'a queue_threads \<Rightarrow> 'a queue_threads \<Rightarrow> bool" where
  nobody: "\<forall>t. tqPc s t \<noteq> DWait \<Longrightarrow> tq_notify s s"
| wake: "tqPc s t = DWait \<Longrightarrow> tq_notify s (s\<lparr>tqPc := (tqPc s)(t := DLock)\<rparr>)"

inductive tq_step :: "'a \<Rightarrow> 'a queue_threads \<Rightarrow> 'a queue_threads \<Rightarrow> bool" for T where
  call: "tqPc s t = DOut \<Longrightarrow> tq_step T s (s\<lparr>tqPc := (tqPc s)(t := DLock)\<rparr>)"
| lock: "tqPc s t = DLock \<Longrightarrow> lock_free s \<Longrightarrow> tq_step T s (s\<lparr>tqPc := (tqPc s)(t := DTest)\<rparr>)"
| empty: "tqPc s t = DTest \<Longrightarrow> eq_DeQueue T (tqQ s) = None \<Longrightarrow> tq_step T s (s\<lparr>tqPc := (tqPc s)(t := DBlock)\<rparr>)"
| wait: "tqPc s t = DBlock \<Longrightarrow> tq_step T s (s\<lparr>tqPc := (tqPc s)(t := DWait)\<rparr>)"
| take: "tqPc s t = DTest \<Longrightarrow> eq_DeQueue T (tqQ s) = Some (x, q) \<Longrightarrow>
    tq_step T s (s\<lparr>tqQ := q, tqPc := (tqPc s)(t := DBack x),
      tqGot := (if eqStop (tqQ s) then tqGot s else tqGot s @ [x])\<rparr>)"
| leave: "tqPc s t = DBack x \<Longrightarrow> tq_step T s (s\<lparr>tqPc := (tqPc s)(t := DOut)\<rparr>)"
| spurious: "tqPc s t = DWait \<Longrightarrow> tq_step T s (s\<lparr>tqPc := (tqPc s)(t := DLock)\<rparr>)"
| put: "lock_free s \<Longrightarrow> tq_notify (s\<lparr>tqQ := eq_EnQueue x (tqQ s), tqPut := tqPut s @ [x]\<rparr>) s' \<Longrightarrow> tq_step T s s'"
| stop: "tq_notify (s\<lparr>tqQ := eq_Stop (tqQ s)\<rparr>) s' \<Longrightarrow> tq_step T s s'"

inductive_cases tq_notifyE: "tq_notify s s'"

subsection \<open>The invariant\<close>

definition ready :: "(nat \<Rightarrow> 'a dq_pc) \<Rightarrow> nat set" where
  "ready pc = {t. is_ready (pc t)}"

definition enough_ready :: "nat \<Rightarrow> (nat \<Rightarrow> 'a dq_pc) \<Rightarrow> bool" where
  "enough_ready n pc = ((\<exists>t. pc t = DWait) \<longrightarrow> n \<le> card (ready pc))"

definition one_holder :: "(nat \<Rightarrow> 'a dq_pc) \<Rightarrow> bool" where
  "one_holder pc = (\<forall>t u. holds_lock (pc t) \<longrightarrow> holds_lock (pc u) \<longrightarrow> t = u)"

lemma one_holder_upd:
  assumes "one_holder pc" and "holds_lock c \<Longrightarrow> holds_lock (pc t) \<or> (\<forall>u. \<not> holds_lock (pc u))"
  shows "one_holder (pc(t := c))"
  unfolding one_holder_def
proof (intro allI impI)
  fix u v assume "holds_lock ((pc(t := c)) u)" "holds_lock ((pc(t := c)) v)"
  then show "u = v" using assms unfolding one_holder_def by (cases "u = t"; cases "v = t") fastforce+
qed

definition tq_inv :: "'a queue_threads \<Rightarrow> bool" where
  "tq_inv s = (finite (ready (tqPc s))
     \<and> one_holder (tqPc s)
     \<and> (\<not> eqStop (tqQ s) \<longrightarrow> tqGot s @ eqItems (tqQ s) = tqPut s
          \<and> (\<forall>t. tqPc s t = DBlock \<longrightarrow> eqItems (tqQ s) = [])
          \<and> enough_ready (length (eqItems (tqQ s))) (tqPc s)))"

lemma ready_upd:
  "ready (pc(t := c)) = (if is_ready c then insert t (ready pc) else ready pc - {t})"
  by (auto simp: ready_def)

lemma finite_ready_upd: "finite (ready pc) \<Longrightarrow> finite (ready (pc(t := c)))"
  by (simp add: ready_upd)

text \<open>How the number of ready threads changes when one thread moves.\<close>

lemma card_ready_upd:
  assumes "finite (ready pc)"
  shows "card (ready (pc(t := c))) + (if is_ready (pc t) then 1 else 0)
       = card (ready pc) + (if is_ready c then 1 else 0)"
proof (cases "is_ready (pc t)")
  case True
  then have "t \<in> ready pc" by (simp add: ready_def)
  then show ?thesis using assms True card_Suc_Diff1 [of "ready pc" t] by (simp add: ready_upd insert_absorb)
next
  case False
  then have "t \<notin> ready pc" by (simp add: ready_def)
  then show ?thesis using assms False by (simp add: ready_upd)
qed

lemma enough_ready_upd:
  assumes "enough_ready n pc" and "finite (ready pc)" and "is_ready (pc t) \<Longrightarrow> is_ready c"
    and "c = DWait \<Longrightarrow> n = 0"
  shows "enough_ready n (pc(t := c))"
  unfolding enough_ready_def
proof
  assume "\<exists>u. (pc(t := c)) u = DWait"
  then consider "c = DWait" | u where "pc u = DWait" by (auto split: if_splits)
  then show "n \<le> card (ready (pc(t := c)))"
  proof cases
    case 1
    then show ?thesis using assms(4) by simp
  next
    case 2
    then have "n \<le> card (ready pc)" using assms(1) by (auto simp: enough_ready_def)
    then show ?thesis using card_ready_upd [OF assms(2), of t c] assms(3) by (auto split: if_splits)
  qed
qed

text \<open>After a notification one more item may wait in the queue.\<close>

lemma enough_ready_wake:
  assumes "enough_ready n pc" and "finite (ready pc)" and "pc t = DWait"
  shows "enough_ready (Suc n) (pc(t := DLock))"
  using assms card_ready_upd [OF assms(2), of t DLock] by (auto simp: enough_ready_def split: if_splits)

lemma enough_ready_nobody: "\<forall>t. pc t \<noteq> DWait \<Longrightarrow> enough_ready n pc"
  by (simp add: enough_ready_def)

text \<open>A step of one thread that leaves the queue as it is.\<close>

lemma tq_inv_move:
  assumes "tq_inv s" and "holds_lock c \<Longrightarrow> holds_lock (tqPc s t) \<or> lock_free s"
    and "\<not> eqStop (tqQ s) \<Longrightarrow> c = DBlock \<or> c = DWait \<or> is_ready (tqPc s t) \<and> \<not> is_ready c \<Longrightarrow> eqItems (tqQ s) = []"
  shows "tq_inv (s\<lparr>tqPc := (tqPc s)(t := c)\<rparr>)"
proof -
  have "enough_ready (length (eqItems (tqQ s))) ((tqPc s)(t := c))" if n: "\<not> eqStop (tqQ s)"
  proof (cases "eqItems (tqQ s) = []")
    case True
    then show ?thesis by (simp add: enough_ready_def)
  next
    case False
    then show ?thesis using enough_ready_upd [of _ "tqPc s" t c] assms(1,3) n by (auto simp: tq_inv_def)
  qed
  moreover have "one_holder ((tqPc s)(t := c))"
    using assms(1,2) by (intro one_holder_upd) (auto simp: tq_inv_def lock_free_def)
  ultimately show ?thesis using assms(1,3) by (auto simp: tq_inv_def finite_ready_upd)
qed

lemma tq_inv_start: "tq_inv tq_start"
  by (simp add: tq_inv_def tq_start_def eq_new_def ready_def enough_ready_def one_holder_def)

lemma tq_inv_step: "tq_step T s s' \<Longrightarrow> tq_inv s \<Longrightarrow> tq_inv s'"
proof (induction rule: tq_step.induct)
  case (call s t)
  then show ?case by (intro tq_inv_move) auto
next
  case (lock s t)
  then show ?case by (intro tq_inv_move) auto
next
  case (empty s t)
  then show ?case by (intro tq_inv_move) (auto simp: eq_DeQueue_def split: if_splits)
next
  case (wait s t)
  then show ?case by (intro tq_inv_move) (auto simp: tq_inv_def)
next
  case (take s t x q)
  show ?case
  proof (cases "eqStop (tqQ s)")
    case True
    then have "q = tqQ s" using take.hyps(2) by (simp add: eq_DeQueue_def)
    then show ?thesis using True take.hyps(1) take.prems
      by (auto simp: tq_inv_def finite_ready_upd intro!: one_holder_upd)
  next
    case False
    then obtain xs where xs: "eqItems (tqQ s) = x # xs" "q = (tqQ s)\<lparr>eqItems := xs\<rparr>"
      using take.hyps(2) by (cases "eqItems (tqQ s)") (auto simp: eq_DeQueue_def)
    have none: "tqPc s u \<noteq> DBlock" for u using take.prems False xs(1) by (auto simp: tq_inv_def)
    have "enough_ready (length xs) ((tqPc s)(t := DBack x))"
      using take.prems False xs(1) card_ready_upd [of "tqPc s" t "DBack x"] take.hyps(1)
      by (auto simp: enough_ready_def tq_inv_def split: if_splits)
    then show ?thesis using False take.hyps(1) take.prems xs none
      by (auto simp: tq_inv_def finite_ready_upd intro!: one_holder_upd)
  qed
next
  case (leave s t x)
  then show ?case by (intro tq_inv_move) auto
next
  case (spurious s t)
  then show ?case by (intro tq_inv_move) auto
next
  case (put s x s')
  have free: "tqPc s t \<noteq> DBlock" for t using put.hyps(1) by (auto simp: lock_free_def dest: spec [of _ t])
  from put.hyps(2) show ?case
  proof (cases rule: tq_notify.cases)
    case nobody
    then show ?thesis using put.prems free by (auto simp: tq_inv_def eq_EnQueue_def enough_ready_nobody)
  next
    case (wake t)
    then show ?thesis using put.prems free
      by (auto simp: tq_inv_def eq_EnQueue_def finite_ready_upd intro!: one_holder_upd enough_ready_wake)
  qed
next
  case (stop s s')
  then show ?case
    by (auto simp: tq_inv_def eq_Stop_def finite_ready_upd elim!: tq_notifyE intro!: one_holder_upd)
qed

lemma tq_inv_reachable: "(tq_step T)\<^sup>*\<^sup>* tq_start s \<Longrightarrow> tq_inv s"
  by (induction rule: rtranclp_induct) (auto intro: tq_inv_start tq_inv_step)

subsection \<open>Properties\<close>


text \<open>Thread 0 goes to sleep and is notified of the item 7.\<close>

definition demo_asleep :: "nat queue_threads" where
  "demo_asleep = tq_start\<lparr>tqPc := (\<lambda>_. DOut)(0 := DBlock)\<rparr>"

lemma demo_asleep_reachable: "(tq_step T)\<^sup>*\<^sup>* tq_start demo_asleep"
proof -
  let ?s = "\<lambda>c. tq_start\<lparr>tqPc := (\<lambda>_. DOut)(0 := c)\<rparr> :: nat queue_threads"
  have 1: "tq_step T tq_start (?s DLock)" using tq_step.call [of tq_start 0] by (simp add: tq_start_def)
  have 2: "tq_step T (?s DLock) (?s DTest)"
    using tq_step.lock [of "?s DLock" 0] by (simp add: lock_free_def tq_start_def)
  have 3: "tq_step T (?s DTest) (?s DBlock)"
    using tq_step.empty [of "?s DTest" 0] by (simp add: eq_DeQueue_def eq_new_def tq_start_def)
  show ?thesis unfolding demo_asleep_def
    by (rule rtranclp.rtrancl_into_rtrancl [OF rtranclp.rtrancl_into_rtrancl [OF r_into_rtranclp [of "tq_step T", OF 1] 2] 3])
qed


text \<open>Stop does not take the lock: it can fall between the test of a thread and its wait, and the
  thread then sleeps in a stopped queue, though it is the only one.\<close>

lemma Stop_can_be_missed:
  "\<exists>s :: nat queue_threads. (tq_step T)\<^sup>*\<^sup>* tq_start s \<and> eqStop (tqQ s) \<and> tqPc s 0 = DWait \<and> (\<forall>t. t \<noteq> 0 \<longrightarrow> tqPc s t = DOut)"
proof -
  let ?p = "demo_asleep\<lparr>tqQ := eq_Stop (tqQ demo_asleep)\<rparr>"
  let ?s = "?p\<lparr>tqPc := (\<lambda>_. DOut)(0 := DWait)\<rparr>"
  have "tq_step T demo_asleep ?p"
    by (rule tq_step.stop, rule tq_notify.nobody) (simp add: demo_asleep_def)
  then have p: "(tq_step T)\<^sup>*\<^sup>* tq_start ?p"
    by (rule rtranclp.rtrancl_into_rtrancl [OF demo_asleep_reachable])
  have "tq_step T ?p ?s" using tq_step.wait [of ?p 0] by (simp add: demo_asleep_def)
  with p have "(tq_step T)\<^sup>*\<^sup>* tq_start ?s" by (rule rtranclp.rtrancl_into_rtrancl)
  then show ?thesis by (intro exI [of _ ?s]) (simp add: eq_Stop_def)
qed

end
