(* ===== verification/Manager_Refine.thy ===== *)
theory Manager_Refine
  imports Module_Manager
begin

text \<open>
  What a cModuleManager (Module/EXModuleManager.cpp) promises its clients: it is a map from names to
  modules that follow the life cycle automaton, and a queue of notifications. The calls of the
  clients and the rounds of the notification thread, in any order, are \<open>mgr_run\<close>; \<open>reg_run\<close> is the same
  on the abstract registry, and \<open>abs_reg\<close> reads the registry off a manager.
\<close>

datatype mgr_op =
    MRegister xstring xstring nat
  | MUnRegister xstring
  | MExist xstring
  | MCall xstring mb_op
  | MNotifyAll xstring
  | MNotifyGroup xstring xstring
  | MRound

subsection \<open>The manager\<close>

text \<open>A client calls a module by its name through GetModuleBase. Calls give a bool, or \<open>None\<close> for a
  null pointer and for what has no result; a round that waits for the queue changes nothing.\<close>

fun mgr_do :: "mgr_op \<Rightarrow> 'u cModuleManager \<Rightarrow> (bool option \<times> 'u cModuleManager) res" where
  "mgr_do (MRegister n g a) mm = map_sum id (apfst Some) (RegisterModule n g (Some a) mm)"
| "mgr_do (MUnRegister n) mm = map_sum id (apfst Some) (UnRegisterModule n mm)"
| "mgr_do (MExist n) mm = map_sum id (apfst Some) (IsExistModule n mm)"
| "mgr_do (MCall n op) mm =
     (case GetModuleBase n mm of
        Inl e \<Rightarrow> Inl e
      | Inr (None, mm') \<Rightarrow> Inr (None, mm')
      | Inr (Some a, mm') \<Rightarrow> map_sum id (\<lambda>(r, m). (Some r, mm'\<lparr>mmStore := (mmStore mm')(a := m)\<rparr>))
          (mb_do (mmVt mm' a) op (mmStore mm' a)))"
| "mgr_do (MNotifyAll jobs) mm = Inr (apfst Some (NotifyAllModule jobs mm))"
| "mgr_do (MNotifyGroup g jobs) mm = Inr (apfst Some (NotifyGroupModule g jobs mm))"
| "mgr_do MRound mm =
     (case notifyAllModule_round mm of None \<Rightarrow> Inr (None, mm) | Some r \<Rightarrow> map_sum id (Pair None) r)"

fun mgr_run :: "mgr_op list \<Rightarrow> 'u cModuleManager \<Rightarrow> (bool option list \<times> 'u cModuleManager) res" where
  "mgr_run [] mm = Inr ([], mm)"
| "mgr_run (op # ops) mm =
     (case mgr_do op mm of
        Inl e \<Rightarrow> Inl e
      | Inr (r, mm') \<Rightarrow> map_sum id (apfst (Cons r)) (mgr_run ops mm'))"

subsection \<open>The abstract registry\<close>

record 'u reg_module =
  rmGroup :: xstring
  rmState :: eModuleState
  rmUser :: 'u
  rmVt :: "'u vtable"

record 'u registry =
  rgModules :: "xstring \<rightharpoonup> 'u reg_module"
  rgQueue :: "xstring list"

definition reg_call :: "mb_op \<Rightarrow> 'u reg_module \<Rightarrow> bool \<times> 'u reg_module" where
  "reg_call op m =
     (if lc_ok op (rmState m)
      then (let (r, u) = the (hook (rmVt m) op) (rmUser m) in (r, m\<lparr>rmState := lc_target op, rmUser := u\<rparr>))
      else (False, m))"

definition reg_notify :: "xstring \<Rightarrow> 'u reg_module \<Rightarrow> 'u reg_module" where
  "reg_notify jobs m =
     (if rmState m = MODULE_STATE_START then m\<lparr>rmUser := snd (the (vNotify (rmVt m)) jobs (rmUser m))\<rparr> else m)"

text \<open>\<open>new\<close> gives the data and the class of the object at an address. A group notification goes to
  the modules of all groups, as NotifyGroupModule does not put the group into the queue.\<close>

fun reg_do :: "(nat \<Rightarrow> 'u \<times> 'u vtable) \<Rightarrow> mgr_op \<Rightarrow> 'u registry \<Rightarrow> (bool option \<times> 'u registry) res" where
  "reg_do new (MRegister n g a) R =
     (if n \<in> dom (rgModules R) then Inr (Some False, R)
      else let (r, m) = reg_call OpInit \<lparr>rmGroup = g, rmState = MODULE_STATE_NONE, rmUser = fst (new a), rmVt = snd (new a)\<rparr>
        in Inr (Some r, R\<lparr>rgModules := (rgModules R)(n \<mapsto> m)\<rparr>))"
| "reg_do new (MUnRegister n) R = (if n \<in> dom (rgModules R) then Inl SelfDeadlock else Inr (Some True, R))"
| "reg_do new (MExist n) R = Inr (Some (n \<in> dom (rgModules R)), R)"
| "reg_do new (MCall n op) R =
     (case rgModules R n of
        None \<Rightarrow> Inr (None, R)
      | Some m \<Rightarrow> (let (r, m') = reg_call op m in Inr (Some r, R\<lparr>rgModules := (rgModules R)(n \<mapsto> m')\<rparr>)))"
| "reg_do new (MNotifyAll jobs) R = Inr (Some True, R\<lparr>rgQueue := rgQueue R @ [jobs]\<rparr>)"
| "reg_do new (MNotifyGroup g jobs) R = Inr (Some True, R\<lparr>rgQueue := rgQueue R @ [jobs]\<rparr>)"
| "reg_do new MRound R =
     Inr (None, case rgQueue R of
        [] \<Rightarrow> R
      | [] # q \<Rightarrow> R\<lparr>rgQueue := q\<rparr>
      | jobs # q \<Rightarrow> \<lparr>rgModules = (\<lambda>n. map_option (reg_notify jobs) (rgModules R n)), rgQueue = q\<rparr>)"

fun reg_run :: "(nat \<Rightarrow> 'u \<times> 'u vtable) \<Rightarrow> mgr_op list \<Rightarrow> 'u registry \<Rightarrow> (bool option list \<times> 'u registry) res" where
  "reg_run new [] R = Inr ([], R)"
| "reg_run new (op # ops) R =
     (case reg_do new op R of
        Inl e \<Rightarrow> Inl e
      | Inr (r, R') \<Rightarrow> map_sum id (apfst (Cons r)) (reg_run new ops R'))"

subsection \<open>The simulation\<close>

definition abs_module :: "'u cModuleManager \<Rightarrow> nat \<Rightarrow> 'u reg_module" where
  "abs_module mm a = (let m = mmStore mm a in
     \<lparr>rmGroup = mbGroup m, rmState = mbState m, rmUser = mbUser m, rmVt = mmVt mm a\<rparr>)"

definition abs_reg :: "'u cModuleManager \<Rightarrow> 'u registry" where
  "abs_reg mm = \<lparr>rgModules = (\<lambda>n. case map_of (mmMap mm) n of Some (Some a) \<Rightarrow> Some (abs_module mm a) | _ \<Rightarrow> None),
     rgQueue = map niJobs (eqItems (mmQueue mm))\<rparr>"

text \<open>The addresses the clients will still register.\<close>

fun registers :: "mgr_op list \<Rightarrow> nat list" where
  "registers [] = []"
| "registers (MRegister n g a # ops) = a # registers ops"
| "registers (_ # ops) = registers ops"

definition mgr_inv :: "(nat \<Rightarrow> 'u \<times> 'u vtable) \<Rightarrow> nat set \<Rightarrow> 'u cModuleManager \<Rightarrow> bool" where
  "mgr_inv new F mm = (mm_ok mm \<and> \<not> mmIsStop mm \<and> \<not> eqStop (mmQueue mm)
     \<and> (\<forall>i \<in> set (eqItems (mmQueue mm)). niGroup i = [])
     \<and> distinct (addrs (mmMap mm)) \<and> F \<inter> set (addrs (mmMap mm)) = {}
     \<and> (\<forall>a. overridden (mmVt mm a) \<and> vNotify (mmVt mm a) \<noteq> None \<and> \<not> mbIsRunning (mmStore mm a))
     \<and> (\<forall>a \<in> F. mmStore mm a = mb_new (fst (new a)) \<and> mmVt mm a = snd (new a)))"

lemma mgr_invD:
  assumes "mgr_inv new F mm"
  shows "mm_ok mm" and "mmLock mm = LFree" and "\<not> mmIsStop mm" and "\<not> eqStop (mmQueue mm)"
    and "distinct (addrs (mmMap mm))" and "F \<inter> set (addrs (mmMap mm)) = {}"
    and "\<forall>i \<in> set (eqItems (mmQueue mm)). niGroup i = []"
    and "overridden (mmVt mm a)" and "vNotify (mmVt mm a) \<noteq> None" and "\<not> mbIsRunning (mmStore mm a)"
    and "a \<in> F \<Longrightarrow> mmStore mm a = mb_new (fst (new a)) \<and> mmVt mm a = snd (new a)"
  using assms by (auto simp: mgr_inv_def mm_ok_def)

lemma mgr_inv_mono: "mgr_inv new F mm \<Longrightarrow> G \<subseteq> F \<Longrightarrow> mgr_inv new G mm"
  unfolding mgr_inv_def by blast

lemma contains_abs:
  assumes "mm_ok mm"
  shows "smap_contains (mmMap mm) n \<longleftrightarrow> n \<in> dom (rgModules (abs_reg mm))"
  using mm_ok_lookup [OF assms, of n]
  by (auto simp: abs_reg_def smap_contains_def split: option.splits)

lemma addrs_assign:
  "k \<notin> fst ` set m \<Longrightarrow> set (addrs (smap_assign k (Some a) m)) = insert a (set (addrs m))
     \<and> (distinct (addrs (smap_assign k (Some a) m)) \<longleftrightarrow> a \<notin> set (addrs m) \<and> distinct (addrs m))"
proof (induction m)
  case (Cons e m)
  obtain k' v' where e: "e = (k', v')" by (cases e)
  then have IH: "set (addrs (smap_assign k (Some a) m)) = insert a (set (addrs m))"
    "distinct (addrs (smap_assign k (Some a) m)) \<longleftrightarrow> a \<notin> set (addrs m) \<and> distinct (addrs m)"
    using Cons by auto
  then show ?case using Cons.prems e by (cases v') auto
qed simp

lemma addrs_member: "map_of m n = Some (Some a) \<Longrightarrow> a \<in> set (addrs m)"
proof (induction m)
  case (Cons e m)
  then show ?case by (cases e; cases "snd e") (auto split: if_splits)
qed simp

text \<open>A module is registered under one name only.\<close>

lemma addrs_unique:
  "distinct (addrs m) \<Longrightarrow> map_of m n = Some (Some a) \<Longrightarrow> map_of m n' = Some (Some a) \<Longrightarrow> n = n'"
proof (induction m)
  case (Cons e m)
  obtain k v where e: "e = (k, v)" by (cases e)
  show ?case
  proof (cases v)
    case None
    then show ?thesis using Cons e by (auto split: if_splits)
  next
    case (Some b)
    then show ?thesis using Cons e addrs_member by (fastforce split: if_splits)
  qed
qed simp

lemma hook_Some: "overridden vt \<Longrightarrow> \<exists>f. hook vt op = Some f"
  by (auto simp: overridden_def)

lemma mb_do_abs:
  assumes "overridden (mmVt mm a)" and "\<not> mbIsRunning (mmStore mm a)"
  shows "\<exists>r m. mb_do (mmVt mm a) op (mmStore mm a) = Inr (r, m) \<and> \<not> mbIsRunning m
    \<and> reg_call op (abs_module mm a) = (r, abs_module (mm\<lparr>mmStore := (mmStore mm)(a := m)\<rparr>) a)"
proof (cases "lc_ok op (mbState (mmStore mm a))")
  case True
  obtain f where "hook (mmVt mm a) op = Some f" using hook_Some [OF assms(1)] by blast
  then show ?thesis using mb_do_done [OF assms(2) True] True assms(2)
    by (simp add: reg_call_def abs_module_def split_beta Let_def)
next
  case False
  then show ?thesis using mb_do_refused [OF False] assms(2)
    by (intro exI [of _ False] exI [of _ "mmStore mm a"]) (simp add: reg_call_def abs_module_def Let_def)
qed

text \<open>Changing one module, registered or about to be.\<close>

lemma abs_module_other: "b \<noteq> a \<Longrightarrow> abs_module (mm\<lparr>mmStore := (mmStore mm)(a := m)\<rparr>) b = abs_module mm b"
  by (simp add: abs_module_def)

lemma abs_reg_call:
  assumes "distinct (addrs (mmMap mm))" and "map_of (mmMap mm) n = Some (Some a)"
  shows "abs_reg (mm\<lparr>mmStore := (mmStore mm)(a := m)\<rparr>)
    = (abs_reg mm)\<lparr>rgModules := (rgModules (abs_reg mm))(n \<mapsto> abs_module (mm\<lparr>mmStore := (mmStore mm)(a := m)\<rparr>) a)\<rparr>"
proof -
  have "a' \<noteq> a" if "n' \<noteq> n" "map_of (mmMap mm) n' = Some (Some a')" for n' a'
    using addrs_unique [OF assms(1,2)] that by blast
  then show ?thesis using assms(2)
    by (auto simp: abs_reg_def fun_eq_iff abs_module_other split: option.splits)
qed

lemma mgr_inv_call:
  assumes "mgr_inv new F mm" and "a \<notin> F" and "\<not> mbIsRunning m"
  shows "mgr_inv new F (mm\<lparr>mmStore := (mmStore mm)(a := m)\<rparr>)"
  using assms by (auto simp: mgr_inv_def mm_ok_def)

text \<open>A call of the manager and of the registry with the same outcome; \<open>G\<close> are the addresses that
  may be registered afterwards.\<close>

definition sim :: "(nat \<Rightarrow> 'u \<times> 'u vtable) \<Rightarrow> mgr_op \<Rightarrow> nat set \<Rightarrow> 'u cModuleManager \<Rightarrow> bool" where
  "sim new op G mm = (case mgr_do op mm of
       Inl e \<Rightarrow> reg_do new op (abs_reg mm) = Inl e
     | Inr (r, mm') \<Rightarrow> reg_do new op (abs_reg mm) = Inr (r, abs_reg mm') \<and> mgr_inv new G mm')"

lemma sim_same:
  "mgr_do op mm = Inr (r, mm) \<Longrightarrow> reg_do new op (abs_reg mm) = Inr (r, abs_reg mm) \<Longrightarrow> mgr_inv new G mm \<Longrightarrow> sim new op G mm"
  by (simp add: sim_def)

lemma sim_lookup:
  assumes "mgr_inv new G mm"
  shows "sim new (MExist n) G mm" and "sim new (MUnRegister n) G mm"
proof -
  note c = contains_abs [OF mgr_invD(1) [OF assms], of n] and free = mgr_invD(2) [OF assms]
  show "sim new (MExist n) G mm" by (rule sim_same [OF _ _ assms]) (simp_all add: free c)
  show "sim new (MUnRegister n) G mm"
    using assms free by (auto simp: sim_def UnRegisterModule_def deleteModule_def c)
qed

lemma sim_call:
  assumes "mgr_inv new G mm"
  shows "sim new (MCall n op) G mm"
proof (cases "n \<in> dom (rgModules (abs_reg mm))")
  case False
  then show ?thesis using assms contains_abs [OF mgr_invD(1) [OF assms], of n]
    by (auto simp: sim_def mgr_invD(2) [OF assms] domIff)
next
  case True
  then have c: "smap_contains (mmMap mm) n" using contains_abs [OF mgr_invD(1) [OF assms]] by blast
  then obtain a where a: "map_of (mmMap mm) n = Some (Some a)" using mm_ok_lookup [OF mgr_invD(1) [OF assms]] by blast
  then have "a \<notin> G" using addrs_member [OF a] mgr_invD(6) [OF assms] by blast
  obtain r m where m: "mb_do (mmVt mm a) op (mmStore mm a) = Inr (r, m)" "\<not> mbIsRunning m"
    "reg_call op (abs_module mm a) = (r, abs_module (mm\<lparr>mmStore := (mmStore mm)(a := m)\<rparr>) a)"
    using mb_do_abs [OF mgr_invD(8,10) [OF assms]] by blast
  have "rgModules (abs_reg mm) n = Some (abs_module mm a)" using a by (simp add: abs_reg_def)
  then show ?thesis
    using m c a mgr_inv_call [OF assms \<open>a \<notin> G\<close> m(2)] abs_reg_call [OF mgr_invD(5) [OF assms] a, of m]
    by (simp add: sim_def mgr_invD(2) [OF assms])
qed

lemma sim_register:
  assumes "mgr_inv new (insert a G) mm" and "a \<notin> G"
  shows "sim new (MRegister n g a) G mm"
proof (cases "n \<in> dom (rgModules (abs_reg mm))")
  case True
  then show ?thesis using assms(1) contains_abs [OF mgr_invD(1) [OF assms(1)], of n] mgr_inv_mono [OF assms(1)]
    by (auto simp: sim_def RegisterModule_def mgr_invD(2) [OF assms(1)])
next
  case False
  then have c: "\<not> smap_contains (mmMap mm) n" using contains_abs [OF mgr_invD(1) [OF assms(1)]] by blast
  then have k: "n \<notin> fst ` set (mmMap mm)" by (simp add: smap_contains_def map_of_eq_None_iff)
  have new: "mmStore mm a = mb_new (fst (new a))" "mmVt mm a = snd (new a)" "a \<notin> set (addrs (mmMap mm))"
    using mgr_invD(11) [OF assms(1), of a] mgr_invD(6) [OF assms(1)] by auto
  let ?m0 = "(mb_new (fst (new a)))\<lparr>mbName := n, mbGroup := g\<rparr>"
  let ?mm0 = "mm\<lparr>mmStore := (mmStore mm)(a := ?m0)\<rparr>"
  have "overridden (mmVt ?mm0 a)" "\<not> mbIsRunning (mmStore ?mm0 a)"
    using mgr_invD(8) [OF assms(1)] by (simp_all add: mb_new_def)
  then obtain r m where m: "mb_do (mmVt ?mm0 a) OpInit ?m0 = Inr (r, m)" "\<not> mbIsRunning m"
    "reg_call OpInit (abs_module ?mm0 a) = (r, abs_module (mm\<lparr>mmStore := (mmStore mm)(a := m)\<rparr>) a)"
    using mb_do_abs [of ?mm0 a OpInit] by auto
  have id: "m\<lparr>mbName := n, mbGroup := g\<rparr> = m"
    using m(1) by (auto simp: mb_defs Let_def split: if_splits option.splits prod.splits)
  have reg: "RegisterModule n g (Some a) mm = Inr (r, registered n g a m mm)"
    using m(1) new by (intro RegisterModule_new [OF mgr_invD(2) [OF assms(1)] c]) simp
  have "abs_module ?mm0 a = \<lparr>rmGroup = g, rmState = MODULE_STATE_NONE, rmUser = fst (new a), rmVt = snd (new a)\<rparr>"
    using new by (simp add: abs_module_def mb_new_def)
  moreover have "abs_reg (registered n g a m mm)
      = (abs_reg mm)\<lparr>rgModules := (rgModules (abs_reg mm))(n \<mapsto> abs_module (mm\<lparr>mmStore := (mmStore mm)(a := m)\<rparr>) a)\<rparr>"
    using addrs_member [of "mmMap mm"] new(3) id
    by (auto simp: abs_reg_def registered_def fun_eq_iff map_of_smap_assign abs_module_def split: option.splits)
  moreover have "mgr_inv new G (registered n g a m mm)"
    using assms m(2) addrs_assign [OF k, of a] mm_ok_registered [OF mgr_invD(1) [OF assms(1)], of n g a m] id
    by (auto simp: mgr_inv_def registered_def)
  ultimately show ?thesis using reg m(3) False by (simp add: sim_def)
qed

lemma sim_enqueue:
  assumes "mgr_inv new G mm"
  shows "sim new (MNotifyAll jobs) G mm" and "sim new (MNotifyGroup g jobs) G mm"
  using assms by (auto simp: sim_def NotifyAllModule_def NotifyGroupModule_def abs_reg_def mgr_inv_def mm_ok_def
      eq_EnQueue_def notify_jobs_def abs_module_def fun_eq_iff Let_def split: option.splits)

text \<open>Delivering a notification for all groups notifies the modules of the registry.\<close>

lemma abs_module_deliver:
  assumes "niGroup info = []" and "a \<in> A"
  shows "abs_module (deliver info A mm) a = reg_notify (niJobs info) (abs_module mm a)"
  using assms by (simp add: abs_module_def deliver_def targeted_def notified_def reg_notify_def Let_def)

lemma abs_reg_deliver:
  assumes "niGroup info = []"
  shows "abs_reg (deliver info (set (addrs (mmMap mm))) mm)
    = (abs_reg mm)\<lparr>rgModules := (\<lambda>n. map_option (reg_notify (niJobs info)) (rgModules (abs_reg mm) n))\<rparr>"
proof -
  have eq: "mmMap (deliver info A mm) = mmMap mm" "mmQueue (deliver info A mm) = mmQueue mm" for A
    by (simp_all add: deliver_def)
  show ?thesis
    using addrs_member [of "mmMap mm"]
    by (auto simp: abs_reg_def eq abs_module_deliver [OF assms] fun_eq_iff split: option.splits)
qed

lemma mgr_inv_deliver:
  assumes "mgr_inv new G mm"
  shows "mgr_inv new G (deliver info (set (addrs (mmMap mm))) mm)"
  using assms by (auto simp: mgr_inv_def deliver_def notified_def mm_ok_def)

lemma sim_round:
  assumes "mgr_inv new G mm"
  shows "sim new MRound G mm"
proof (cases "eqItems (mmQueue mm)")
  case Nil
  then show ?thesis using assms
    by (simp add: sim_def notifyAllModule_round_def mgr_inv_def eq_DeQueue_def abs_reg_def)
next
  case (Cons info q)
  let ?mm = "mm\<lparr>mmQueue := (mmQueue mm)\<lparr>eqItems := q\<rparr>\<rparr>"
  have inv: "mgr_inv new G ?mm" using assms Cons by (auto simp: mgr_inv_def mm_ok_def)
  have same: "abs_module ?mm = abs_module mm" by (rule ext) (simp add: abs_module_def)
  have abs: "abs_reg ?mm = (abs_reg mm)\<lparr>rgQueue := map niJobs q\<rparr>" "rgQueue (abs_reg mm) = niJobs info # map niJobs q"
    using Cons same by (auto simp: abs_reg_def fun_eq_iff split: option.splits)
  have g: "niGroup info = []" using mgr_invD(7) [OF assms] Cons by simp
  have deq: "eq_DeQueue notify_none (mmQueue mm) = Some (info, (mmQueue mm)\<lparr>eqItems := q\<rparr>)"
    using Cons mgr_invD(4) [OF assms] by (simp add: eq_DeQueue_def)
  show ?thesis
  proof (cases "niJobs info")
    case Nil
    then show ?thesis using g deq inv abs mgr_invD(3) [OF assms]
      by (simp add: sim_def notifyAllModule_round_def isEmpty_def)
  next
    case jobs: (Cons j js)
    have "notify_entries info (mmMap ?mm) ?mm = Inr (deliver info (set (addrs (mmMap ?mm))) ?mm)"
      using mgr_invD(1,2,5,9) [OF inv] by (intro notify_entries_deliver) (auto simp: mm_ok_def)
    then have "mgr_do MRound mm = Inr (None, deliver info (set (addrs (mmMap ?mm))) ?mm)"
      using g jobs deq mgr_invD(3) [OF assms] by (simp add: notifyAllModule_round_def isEmpty_def)
    then show ?thesis using abs_reg_deliver [OF g, of ?mm] mgr_inv_deliver [OF inv, of info] jobs abs
      by (simp add: sim_def)
  qed
qed

lemma sim_op:
  assumes "mgr_inv new (set (registers (op # ops))) mm" and "distinct (registers (op # ops))"
  shows "sim new op (set (registers ops)) mm"
  using assms by (cases op) (simp_all add: sim_lookup sim_call sim_enqueue sim_round sim_register)

lemma sim_run:
  "mgr_inv new (set (registers ops)) mm \<Longrightarrow> distinct (registers ops) \<Longrightarrow>
     map_sum id (apsnd abs_reg) (mgr_run ops mm) = reg_run new ops (abs_reg mm)"
proof (induction ops arbitrary: mm)
  case (Cons op ops)
  note s = sim_op [OF Cons.prems]
  show ?case
  proof (cases "mgr_do op mm")
    case (Inl e)
    then show ?thesis using s by (simp add: sim_def)
  next
    case (Inr p)
    obtain r mm' where p: "p = (r, mm')" by (cases p)
    have "distinct (registers ops)" using Cons.prems(2) by (cases op) auto
    then have IH: "map_sum id (apsnd abs_reg) (mgr_run ops mm') = reg_run new ops (abs_reg mm')"
      using s Inr p by (intro Cons.IH) (simp_all add: sim_def)
    have "map_sum id (apsnd abs_reg) (map_sum id (apfst (Cons r)) (mgr_run ops mm'))
        = map_sum id (apfst (Cons r)) (reg_run new ops (abs_reg mm'))"
      unfolding IH [symmetric] by (cases "mgr_run ops mm'") (auto simp: apfst_def apsnd_def map_prod_def split_beta)
    moreover have "mgr_run (op # ops) mm = map_sum id (apfst (Cons r)) (mgr_run ops mm')" using Inr p by simp
    moreover have "reg_run new (op # ops) (abs_reg mm) = map_sum id (apfst (Cons r)) (reg_run new ops (abs_reg mm'))"
      using s Inr p by (simp add: sim_def)
    ultimately show ?thesis by (simp only:)
  qed
qed simp

subsection \<open>Properties\<close>



end
