(* ===== verification/Ipc_Calls.thy ===== *)
theory Ipc_Calls
  imports Ipc_Win
begin

text \<open>
  The Windows IPC (IPC/EXIPC.cpp) as a remote procedure call: a client process that calls SendIPC
  again and again, with uIPC counting its calls, and a server that takes its turns while the client sleeps and
  finishes with the client between the calls. The specification is the callback itself, run on the
  requests in order.
\<close>

subsection \<open>Client names\<close>

lemma dec_digits_inject: "dec_digits m = dec_digits n \<longleftrightarrow> m = n"
  using dec_digits_props [of m] dec_digits_props [of n] by metis

lemma dec_digits_length: "m \<le> n \<Longrightarrow> length (dec_digits m) \<le> length (dec_digits n)"
proof (induction n arbitrary: m rule: dec_digits.induct)
  case (1 n)
  show ?case
  proof (cases "m < 10")
    case True
    then show ?thesis using dec_digits_props [of n] by (cases "dec_digits n") (simp_all add: dec_digits.simps [of m])
  next
    case False
    then have "length (dec_digits (m div 10)) \<le> length (dec_digits (n div 10))"
      using 1 by (simp add: div_le_mono)
    then show ?thesis using False 1(2) by (simp add: dec_digits.simps [of m] dec_digits.simps [of n])
  qed
qed

lemma client_name_inject: "client_name s pid j = client_name s pid k \<longleftrightarrow> j = k"
  by (simp add: client_name_def to_wstring_def dec_digits_inject word_unat_eq_iff)

lemma client_name_length: "j \<le> k \<Longrightarrow> length (client_name s pid j) \<le> length (client_name s pid k)"
  by (simp add: client_name_def to_wstring_def dec_digits_length word_le_nat_alt)

lemma global_name_inject: "GetGlobalName a = GetGlobalName b \<longleftrightarrow> a = b"
  by (simp add: GetGlobalName_def)

subsection \<open>The calls\<close>

text \<open>A worker that has answered waits for the client; between two calls it sees that the client is done.\<close>

definition settle :: "'u ipc_server \<Rightarrow> 'u ipc_server" where
  "settle sv = (case worker_finish 0 sv of None \<Rightarrow> sv | Some sv' \<Rightarrow> sv')"

text \<open>The calls of one process, each with a buffer of \<open>bsz\<close> bytes: what SendIPC returns and the bytes
  it says were answered.\<close>

fun ipc_calls ::
    "nat \<Rightarrow> grant \<Rightarrow> grant \<Rightarrow> (u32 \<Rightarrow> u32 option option) \<Rightarrow> u32 \<Rightarrow> 'u ipc_callback \<Rightarrow> int \<Rightarrow> u32 \<Rightarrow> xstring \<Rightarrow> nat \<Rightarrow> int
     \<Rightarrow> u32 \<Rightarrow> byte list list \<Rightarrow> 'u ipc_server \<Rightarrow> ((bool \<times> byte list) list \<times> 'u ipc_server) res" where
  "ipc_calls page grant sgrant proc spid f now pid sIPCName bsz t k [] sv = Inr ([], sv)"
| "ipc_calls page grant sgrant proc spid f now pid sIPCName bsz t k (req # reqs) sv =
     (case SendIPC page (\<lambda>_. grant) (\<lambda>_. server_turn page sgrant proc spid f) now pid k sIPCName req (length req)
             (replicate bsz 0) bsz t False sv of
        Inl e \<Rightarrow> Inl e
      | Inr (ok, buf, rsz, sv1) \<Rightarrow>
          map_sum id (apfst (Cons (ok, take rsz buf)))
            (ipc_calls page grant sgrant proc spid f now pid sIPCName bsz t (k + 1) reqs (settle sv1)))"

text \<open>The specification: \<open>F\<close> is the callback as a function of its state and the bytes of the request.\<close>

fun rpc :: "('u \<Rightarrow> byte list \<Rightarrow> byte list \<times> 'u) \<Rightarrow> 'u \<Rightarrow> byte list list \<Rightarrow> (bool \<times> byte list) list \<times> 'u" where
  "rpc F u [] = ([], u)"
| "rpc F u (req # reqs) = (let (ans, u') = F u req; (rs, u'') = rpc F u' reqs in ((True, ans) # rs, u''))"

text \<open>A callback that is such a function: it reads the bytes of the request only and answers with its
  answer and its length.\<close>

definition callback_of :: "('u \<Rightarrow> byte list \<Rightarrow> byte list \<times> 'u) \<Rightarrow> 'u ipc_callback" where
  "callback_of F nm req n rsz u =
     (let (ans, u') = F u (take n (the req)) in (Some ans, length ans, u'))"

subsection \<open>One call\<close>

text \<open>A server that is ready for the next client name of length \<open>len\<close> or more, and has not seen the names
  from \<open>k\<close> on.\<close>

definition calls_ready :: "xstring \<Rightarrow> u32 \<Rightarrow> u32 \<Rightarrow> 'u ipc_server \<Rightarrow> bool" where
  "calls_ready sIPCName pid k sv =
     (svWaiting sv = [] \<and> (\<forall>j \<ge> k. syStruct sv (GetGlobalName (client_name sIPCName pid j)) = None)
      \<and> (\<exists>d. ipc_ready sIPCName d sv
           \<and> (\<forall>i. length (client_name sIPCName pid k) \<le> i \<longrightarrow> i < 256 \<longrightarrow> sSenderIPCName d ! i = 0)))"

lemma length_client_name_le: "length (client_name s pid k) \<le> length s + 27"
proof -
  have "(10 :: nat) = length (dec_digits 4294967295)" by (simp add: dec_digits.simps)
  then have digits: "length (dec_digits n) \<le> 10" if "n \<le> 4294967295" for n
    using dec_digits_length [OF that] by simp
  have "nat (sint pid) \<le> 4294967295" "nat (- sint pid) \<le> 4294967295"
    using sint_less [of pid] sint_greater_eq [of pid] by simp_all
  moreover have "unat k < 2 ^ LENGTH(32)" by (rule unsigned_less)
  then have "unat k \<le> 4294967295" by simp
  ultimately show ?thesis
    using digits [of "nat (sint pid)"] digits [of "nat (- sint pid)"] digits [of "unat k"]
    by (simp add: client_name_def to_wstring_def)
qed

lemma settle_done:
  assumes "svWaiting sv = [(c, t, False)]" and "syStruct sv (GetGlobalName c) = Some (d, n)" and "isDone d"
  shows "settle sv = sv\<lparr>svWaiting := [], svIdle := svIdle sv + 1\<rparr>"
  using assms by (simp add: settle_def worker_finish_def wait_over_def)

lemma one_call:
  assumes ready: "calls_ready sIPCName pid k sv" and "length sIPCName \<le> 228" and "0 \<notin> set sIPCName" and "k < k + 1"
    and gr: "\<And>x t. grant x t" "\<And>x t. sgrant x t" and "IsRunningProcess proc pid"
    and "length req \<le> 512" and "0 < timeOutSec" and F: "F (svCtx sv) req = (ans, u)" and "length ans \<le> 512" "length ans \<le> bsz"
  shows "\<exists>buf sv1. SendIPC page (\<lambda>_. grant) (\<lambda>_. server_turn page sgrant proc spid (callback_of F)) now pid k sIPCName req (length req)
        (replicate bsz 0) bsz timeOutSec False sv = Inr (True, buf, length ans, sv1)
      \<and> take (length ans) buf = ans \<and> calls_ready sIPCName pid (k + 1) (settle sv1) \<and> svCtx (settle sv1) = u"
proof -
  define c where "c = client_name sIPCName pid k"
  obtain d where d: "ipc_ready sIPCName d sv" "\<And>i. length c \<le> i \<Longrightarrow> i < 256 \<Longrightarrow> sSenderIPCName d ! i = 0"
    and fresh: "\<And>j. k \<le> j \<Longrightarrow> syStruct sv (GetGlobalName (client_name sIPCName pid j)) = None" and w: "svWaiting sv = []"
    using ready by (auto simp: calls_ready_def c_def)
  have len: "length c < 256" using length_client_name_le [of sIPCName pid k] assms(2) by (simp add: c_def)
  let ?d = "ip_clear (placed c pid (length req) req (now + timeOutSec) d)"
  let ?a = "(answered sIPCName spid (length ans) ans ip_zero)\<lparr>isDone := True\<rparr>"
  have cb: "callback_of F sIPCName (Some (req @ drop (length req) (reqData d))) (length req) (responseSize d) (svCtx sv)
      = (Some ans, length ans, u)" using F by (simp add: callback_of_def)
  have small: "\<exists>sv'. SendIPC page (\<lambda>_. grant) (\<lambda>_. server_turn page sgrant proc spid (callback_of F)) now pid k sIPCName req (length req)
        (replicate bsz 0) bsz timeOutSec False sv = Inr (True, ans @ drop (length ans) (replicate bsz 0), length ans, sv')
      \<and> svCtx sv' = u \<and> svWaiting sv' = svWaiting sv @ [(c, now + timeOutSec, False)]
      \<and> svIdle sv' = svIdle sv - 1 \<and> svName sv' = sIPCName \<and> \<not> svHMap sv' \<and> svQueue sv' = eq_new \<and> \<not> svStop sv'
      \<and> syMutex sv \<subseteq> syMutex sv'
      \<and> (\<exists>ks \<ge> 1. syStruct sv' = (syStruct sv)(GetGlobalName sIPCName \<mapsto> (?d, ks), GetGlobalName c \<mapsto> (?a, 1)))"
    unfolding c_def using d(2) [of "length c"] len fresh [of k] assms(3,7-9,11,12)
    by (intro SendIPC_small [where sgrant = sgrant and proc = proc] d(1) gr cb) (simp_all add: c_def)
  obtain sv1 where sv1: "SendIPC page (\<lambda>_. grant) (\<lambda>_. server_turn page sgrant proc spid (callback_of F)) now pid k sIPCName req (length req)
        (replicate bsz 0) bsz timeOutSec False sv = Inr (True, ans @ drop (length ans) (replicate bsz 0), length ans, sv1)"
      "svCtx sv1 = u" "svWaiting sv1 = [(c, now + timeOutSec, False)]" "svIdle sv1 = svIdle sv - 1" "svName sv1 = sIPCName"
      "\<not> svHMap sv1" "svQueue sv1 = eq_new" "\<not> svStop sv1" "syMutex sv \<subseteq> syMutex sv1"
    and struct: "\<exists>ks \<ge> 1. syStruct sv1 = (syStruct sv)(GetGlobalName sIPCName \<mapsto> (?d, ks), GetGlobalName c \<mapsto> (?a, 1))"
    using small w by (auto simp: c_def)
  obtain ks where ks: "1 \<le> ks" "syStruct sv1 = (syStruct sv)(GetGlobalName sIPCName \<mapsto> (?d, ks), GetGlobalName c \<mapsto> (?a, 1))"
    using struct by blast
  have st: "settle sv1 = sv1\<lparr>svWaiting := [], svIdle := svIdle sv1 + 1\<rparr>"
    using settle_done [OF sv1(3)] ks(2) by simp
  have arr: "sSenderIPCName ?d = c @ drop (length c) (sSenderIPCName d)" "length (sSenderIPCName d) = 256"
    using d(1) by (simp_all add: ip_clear_def placed_def ipc_ready_def)
  have "ipc_ready sIPCName ?d (settle sv1)"
    using d(1) sv1 ks arr len assms(8) by (auto simp: ipc_ready_def st ip_clear_def placed_def c_def)
  moreover have "length c \<le> length (client_name sIPCName pid (k + 1))"
    using client_name_length [of k "k + 1"] assms(4) by (simp add: c_def)
  then have "sSenderIPCName ?d ! i = 0" if "length (client_name sIPCName pid (k + 1)) \<le> i" "i < 256" for i
    using that d(2) [of i] len by (simp add: arr nth_append)
  moreover have "syStruct (settle sv1) (GetGlobalName (client_name sIPCName pid j)) = None" if "k + 1 \<le> j" for j
  proof -
    have "k < j" using that assms(4) by (rule less_le_trans [rotated])
    then have "GetGlobalName (client_name sIPCName pid j) \<noteq> GetGlobalName c" by (simp add: c_def global_name_inject client_name_inject)
    then show ?thesis using fresh [of j] ks(2) \<open>k < j\<close> by (simp add: st)
  qed
  ultimately have "calls_ready sIPCName pid (k + 1) (settle sv1)" by (auto simp: calls_ready_def st)
  then show ?thesis using sv1(1,2) by (auto simp: st)
qed

subsection \<open>Properties\<close>

lemma ipc_calls_rpc:
  assumes "calls_ready sIPCName pid k sv" and "uint k + int (length reqs) < 2 ^ 32"
    and "length sIPCName \<le> 228" and "0 \<notin> set sIPCName"
    and gr: "\<And>x t. grant x t" "\<And>x t. sgrant x t" and "IsRunningProcess proc pid" and "0 < timeOutSec"
    and "\<forall>req \<in> set reqs. length req \<le> 512" and "\<forall>u req. length (fst (F u req)) \<le> min 512 bsz"
  shows "\<exists>sv'. ipc_calls page grant sgrant proc spid (callback_of F) now pid sIPCName bsz timeOutSec k reqs sv
      = Inr (fst (rpc F (svCtx sv) reqs), sv') \<and> svCtx sv' = snd (rpc F (svCtx sv) reqs)"
  using assms(1,2,9)
proof (induction reqs arbitrary: k sv)
  case (Cons req reqs)
  obtain ans u where F: "F (svCtx sv) req = (ans, u)" by (cases "F (svCtx sv) req")
  have "length (fst (F (svCtx sv) req)) \<le> min 512 bsz" using assms(10) by blast
  then have ans: "length ans \<le> 512" "length ans \<le> bsz" using F by simp_all
  have k1: "uint (k + 1) = uint k + 1" using Cons.prems(2) by (intro uint_plus_simple_iff [THEN iffD1, THEN trans]) (simp_all add: word_le_def uint_word_ariths)
  then have "k < k + 1" by (simp add: word_less_def)
  then have "\<exists>buf sv1. SendIPC page (\<lambda>_. grant) (\<lambda>_. server_turn page sgrant proc spid (callback_of F)) now pid k sIPCName
      req (length req) (replicate bsz 0) bsz timeOutSec False sv = Inr (True, buf, length ans, sv1)
    \<and> take (length ans) buf = ans \<and> calls_ready sIPCName pid (k + 1) (settle sv1) \<and> svCtx (settle sv1) = u"
    using Cons.prems(3) by (intro one_call Cons.prems(1) gr assms(3,4,7,8) F ans) simp_all
  then obtain buf sv1 where c: "SendIPC page (\<lambda>_. grant) (\<lambda>_. server_turn page sgrant proc spid (callback_of F)) now pid k sIPCName
      req (length req) (replicate bsz 0) bsz timeOutSec False sv = Inr (True, buf, length ans, sv1)" "take (length ans) buf = ans"
    "calls_ready sIPCName pid (k + 1) (settle sv1)" "svCtx (settle sv1) = u" by blast
  obtain sv' where "ipc_calls page grant sgrant proc spid (callback_of F) now pid sIPCName bsz timeOutSec (k + 1) reqs (settle sv1)
      = Inr (fst (rpc F u reqs), sv')" "svCtx sv' = snd (rpc F u reqs)"
    using Cons.IH [OF c(3)] Cons.prems(2,3) k1 c(4) by auto
  then show ?case using c F by (simp add: split_beta)
qed simp


text \<open>A callback that answers with the number of the call and the first byte.\<close>

definition demo_count :: "nat \<Rightarrow> byte list \<Rightarrow> byte list \<times> nat" where
  "demo_count u req = (word_of_nat u # take 1 req, Suc u)"

lemma demo_count_length: "\<forall>u req. length (fst (demo_count u req)) \<le> min 512 16"
  by (simp add: demo_count_def min_def)


end
