(* ===== verification/Network_Server.thy ===== *)
theory Network_Server
  imports Network
begin

text \<open>
  A cNetwork that is a server (Network/EXNetwork.cpp) over all its operations and thread rounds in any
  order: the listen thread, the receive and handler threads of the connected clients, and the
  calls of the program that sends to clients and disconnects them. The invariant relates the map of
  clients to the receivers and handlers the clients got. Each operation is one step.
\<close>

datatype server_op =
    SListen "xstring list"
  | SReceive xstring
  | SHandle xstring
  | SDisconnect xstring
  | SDisconnectAll
  | SSend xstring PacketData
  | SSendAll PacketData
  | SSendSocket int MSGID PacketData

subsection \<open>The threads of a client\<close>

text \<open>A round of the receive thread of client \<open>u\<close>: when the connection is closed it stops its receiver and
  disconnects the client. The members of a client that is in the map are changed in place.\<close>

definition put_receiver :: "xstring \<Rightarrow> 'w server_receive \<Rightarrow> 'w network \<Rightarrow> 'w network" where
  "put_receiver u r n = n\<lparr>nwMap := (case map_of (nwMap n) u of None \<Rightarrow> nwMap n
     | Some ci \<Rightarrow> smap_assign u (ci\<lparr>ciRecv := r\<rparr>) (nwMap n))\<rparr>"

definition receive_of :: "'w os \<Rightarrow> bool \<Rightarrow> xstring \<Rightarrow> 'w network \<Rightarrow> 'w \<Rightarrow> ('w network \<times> 'w) res option" where
  "receive_of os win u n w =
     (case map_of (nwMap n) u of
        None \<Rightarrow> Some (Inr (n, w))
      | Some ci \<Rightarrow>
          (case server_receive_round os win (ciRecv ci) w of
             None \<Rightarrow> None
           | Some (Inl e) \<Rightarrow> Some (Inl e)
           | Some (Inr (closed, r, w')) \<Rightarrow>
               (let n' = put_receiver u r n in
                if closed then Some (map_sum id snd (nw_DisConnectClient os win (srUUID r) n' w'))
                else Some (Inr (n', w')))))"

text \<open>A round of the handler thread of client \<open>u\<close>; it waits when its queue is empty.\<close>

definition handle_of :: "xstring \<Rightarrow> 'w network \<Rightarrow> 'w \<Rightarrow> ('w network \<times> 'w) res option" where
  "handle_of u n w =
     (case map_of (nwMap n) u of
        None \<Rightarrow> Some (Inr (n, w))
      | Some ci \<Rightarrow>
          (case srHandlerObj (ciRecv ci) of
             None \<Rightarrow> Some (Inl NullDeref)
           | Some h \<Rightarrow>
               (case handler_round h w of
                  None \<Rightarrow> Some (Inr (n, w))
                | Some (h', w') \<Rightarrow> Some (Inr (put_receiver u ((ciRecv ci)\<lparr>srHandlerObj := Some h'\<rparr>) n, w')))))"

fun server_do :: "'w os \<Rightarrow> bool \<Rightarrow> server_op \<Rightarrow> 'w network \<times> 'w \<Rightarrow> ('w network \<times> 'w) res option" where
  "server_do os win (SListen guids) (n, w) = listen_round os win guids n w"
| "server_do os win (SReceive u) (n, w) = receive_of os win u n w"
| "server_do os win (SHandle u) (n, w) = handle_of u n w"
| "server_do os win (SDisconnect u) (n, w) = Some (map_sum id snd (nw_DisConnectClient os win u n w))"
| "server_do os win SDisconnectAll (n, w) = Some (map_sum id snd (nw_DisConnectAll os win n w))"
| "server_do os win (SSend u d) (n, w) = map_option (map_sum id snd) (SendToClient os win u d n w)"
| "server_do os win (SSendAll d) (n, w) = map_option (map_sum id snd) (SendToAll os win d n w)"
| "server_do os win (SSendSocket s i d) (n, w) =
     map_option (map_sum id (\<lambda>(ok, w'). (n, w'))) (SendToClientSocket os win s i d n w)"

text \<open>A run of the server; a call that never returns ends it as an error does.\<close>

inductive server_run :: "'w os \<Rightarrow> bool \<Rightarrow> 'w network \<times> 'w \<Rightarrow> 'w network \<times> 'w \<Rightarrow> bool" for os win where
  start: "server_run os win s s"
| step: "server_run os win s s' \<Longrightarrow> server_do os win op s' = Some (Inr s'') \<Longrightarrow> server_run os win s s''"

subsection \<open>The invariant\<close>

text \<open>A client in the map: its receiver runs, and it and its handler know the client's id and socket.\<close>

definition handler_ok :: "xstring \<Rightarrow> 'w client_info \<Rightarrow> 'w receive_handler \<Rightarrow> bool" where
  "handler_ok u ci h = (\<not> rhIsStop h \<and> rhUUID h = u \<and> rhConnection h = ciConn ci \<and> rhHandler h = ciFn ci
     \<and> \<not> eqStop (rhQueue h))"

definition client_ok :: "xstring \<Rightarrow> 'w client_info \<Rightarrow> bool" where
  "client_ok u ci = (ciUUID ci = u \<and> srUUID (ciRecv ci) = u \<and> srConn (ciRecv ci) = ciConn ci \<and> srFn (ciRecv ci) = ciFn ci
     \<and> \<not> srIsStop (ciRecv ci) \<and> srThread (ciRecv ci)
     \<and> (\<exists>h. srHandlerObj (ciRecv ci) = Some h \<and> handler_ok u ci h))"

definition server_ok :: "'w network \<Rightarrow> bool" where
  "server_ok n = (nwType (nwInfo n) = NETWORK_SERVER \<and> nwServer n \<noteq> None \<and> smap_ok (nwMap n)
     \<and> (\<forall>u ci. map_of (nwMap n) u = Some ci \<longrightarrow> client_ok u ci))"

lemma server_okD:
  assumes "server_ok n"
  shows "nwType (nwInfo n) = NETWORK_SERVER" and "nwServer n \<noteq> None" and "smap_ok (nwMap n)"
    and "map_of (nwMap n) u = Some ci \<Longrightarrow> client_ok u ci"
  using assms by (auto simp: server_ok_def)

lemma server_ok_assign:
  assumes "server_ok n" and "client_ok u ci"
  shows "server_ok (n\<lparr>nwMap := smap_assign u ci (nwMap n)\<rparr>)"
  using assms by (auto simp: server_ok_def smap_ok_assign map_of_smap_assign)

lemma server_ok_erase: "server_ok n \<Longrightarrow> server_ok (n\<lparr>nwMap := smap_erase u (nwMap n)\<rparr>)"
  by (auto simp: server_ok_def smap_ok_erase map_of_smap_erase split: if_splits)

lemma server_ok_fields:
  "server_ok n \<Longrightarrow> server_ok (n\<lparr>nwMsgIdSeq := i\<rparr>)" "server_ok n \<Longrightarrow> server_ok (n\<lparr>nwServer := Some sv\<rparr>)"
  by (simp_all add: server_ok_def)

lemma server_ok_put:
  assumes "server_ok n" and "\<And>ci. map_of (nwMap n) u = Some ci \<Longrightarrow> client_ok u (ci\<lparr>ciRecv := r\<rparr>)"
  shows "server_ok (put_receiver u r n)"
  using assms server_ok_assign [OF assms(1)] by (auto simp: put_receiver_def split: option.split)

text \<open>A new client: its receiver is started in the map.\<close>

lemma server_ok_insert:
  assumes "server_ok n" and "map_of (nwMap n) u = None"
  shows "server_ok (insert_client u sock n)"
proof -
  define r :: "'a server_receive" where "r = sr_SetClientInfo u sock (nwServerHandler n) sr_new"
  define ci :: "'a client_info" where "ci = \<lparr>ciUUID = u, ciConn = sock, ciRecv = r, ciFn = nwServerHandler n\<rparr>"
  have ins: "insert_client u sock n
      = n\<lparr>nwMap := smap_assign u (ci\<lparr>ciRecv := sr_Start r\<rparr>) (smap_assign u ci (nwMap n))\<rparr>"
    using assms(2) by (simp add: insert_client_def r_def ci_def smap_emplace_def map_of_smap_assign Let_def)
  have "client_ok u (ci\<lparr>ciRecv := sr_Start r\<rparr>)"
    by (auto simp: client_ok_def handler_ok_def ci_def r_def sr_Start_def sr_Stop_def sr_SetClientInfo_def sr_new_def
        rh_new_def eq_new_def Let_def split: option.split)
  then show ?thesis using assms(1)
    by (auto simp: ins server_ok_def smap_ok_assign map_of_smap_assign)
qed

lemma fresh_guid_None: "fresh_guid m gs = Some g \<Longrightarrow> map_of m g = None"
  by (induction gs) (auto simp: smap_contains_def split: if_splits)

subsection \<open>What Receive leaves of its buffer\<close>

lemma write_at_length: "write_at buf pos d = Inr buf' \<Longrightarrow> length buf' = length buf"
  by (auto simp: write_at_def split: if_splits)

lemma recv_into_result:
  "recv_into os sock buf tot len w = Inr (k, nb, buf', w') \<Longrightarrow> length buf' = length buf"
  "recv_into os sock buf tot len w = Inl e \<Longrightarrow> e = OutOfBounds"
  unfolding recv_into_def
  by (auto simp: write_at_def split: recv_res.splits prod.splits if_splits)

lemma recv_loop_result:
  assumes "recv_loop os win sock rf m tries tot buf w = Some x"
  shows "case x of Inl e \<Rightarrow> e = OutOfBounds | Inr (t, buf', w') \<Rightarrow> length buf' = length buf"
proof (rule recv_loop.raw_induct [where P = "\<lambda>os win sock rf m tries tot buf w x.
    case x of Inl e \<Rightarrow> e = OutOfBounds | Inr (t, buf', w') \<Rightarrow> length buf' = length buf", OF _ assms], goal_cases)
  case (1 f os win sock rf m tries tot buf w x)
  show ?case
  proof (cases "recv_into os sock buf tot (recv_len win (size_sub m (to_size tot))) w")
    case (Inl e)
    then show ?thesis using 1(2) recv_into_result(2) [OF Inl] by auto
  next
    case (Inr p)
    obtain k nb buf1 w1 where p: "p = (k, nb, buf1, w1)" by (cases p)
    have len: "length buf1 = length buf" by (rule recv_into_result(1) [OF Inr [unfolded p]])
    from 1(2) Inr p have "x = Inr (tot, buf1, w1) \<or> x = Inr (to_int32 (tot + k), buf1, w1)
        \<or> (\<exists>tries' tot'. f os win sock rf m tries' tot' buf1 w1 = Some x)"
      by (auto simp: Let_def split: if_splits)
    then show ?thesis using 1(1) len by (fastforce split: sum.splits)
  qed
qed

lemma recv_packet_result:
  assumes "recv_packet os win sock buf rf w = Some x"
  shows "case x of Inl e \<Rightarrow> e = OutOfBounds | Inr (t, buf', w') \<Rightarrow> length buf' = length buf"
proof (cases "recv_into os sock buf 0 4 w")
  case (Inl e)
  then show ?thesis using assms recv_into_result(2) [OF Inl] by (auto simp: recv_packet_def)
next
  case (Inr p)
  obtain k nb buf1 w1 where p: "p = (k, nb, buf1, w1)" by (cases p)
  have len: "length buf1 = length buf" by (rule recv_into_result(1) [OF Inr [unfolded p]])
  show ?thesis
  proof (cases "recv_into os sock buf1 k 4 w1")
    case (Inl e)
    then show ?thesis using assms Inr p len recv_into_result(2) [OF Inl]
      by (auto simp: recv_packet_def Let_def split: if_splits)
  next
    case (Inr q)
    obtain k' nb' buf2 w2 where q: "q = (k', nb', buf2, w2)" by (cases q)
    have len2: "length buf2 = length buf" using recv_into_result(1) [OF Inr [unfolded q]] len by simp
    from assms \<open>recv_into os sock buf 0 4 w = Inr p\<close> p Inr q have
      "x = Inr (0, buf1, w1) \<or> x = Inl OutOfBounds \<or> x = Inr (0, buf2, w2)
       \<or> (\<exists>m. recv_loop os win sock rf m 0 (k + k') buf2 w2 = Some x)"
      by (auto simp: recv_packet_def Let_def split: if_splits)
    then show ?thesis using len len2 recv_loop_result by (fastforce split: sum.splits)
  qed
qed

subsection \<open>The steps keep the invariant\<close>

lemma take_drop_8: "take 4 v @ take 4 (drop 4 v) @ drop 8 v = v"
  by (metis append_assoc append_take_drop_id drop_drop numeral_Bit0 add_One)

lemma convertReceiveMsg_returns: "8 \<le> length v \<Longrightarrow> \<exists>p. convertReceiveMsg v = Inr p"
  using convertReceiveMsg_split [of "take 4 v" "take 4 (drop 4 v)" "drop 8 v"]
  by (simp add: take_drop_8)

lemma receive_round_result:
  assumes "client_ok u ci" and "server_receive_round os win (ciRecv ci) w = Some x"
  shows "case x of Inl e \<Rightarrow> e = OutOfBounds
    | Inr (closed, r, w') \<Rightarrow> srUUID r = u \<and> (\<not> closed \<longrightarrow> client_ok u (ci\<lparr>ciRecv := r\<rparr>))"
proof -
  obtain h where h: "srHandlerObj (ciRecv ci) = Some h" "handler_ok u ci h" "\<not> srIsStop (ciRecv ci)" "srUUID (ciRecv ci) = u"
    using assms(1) by (auto simp: client_ok_def)
  have ins: "client_ok u (ci\<lparr>ciRecv := (ciRecv ci)\<lparr>srHandlerObj := Some (InsertPacket p h)\<rparr>\<rparr>)" for p
    using assms(1) h by (auto simp: client_ok_def handler_ok_def InsertPacket_def eq_EnQueue_def)
  let ?B = "replicate EXT_PACKET_SIZE (0 :: byte)"
  obtain y where y: "sv_Receive os win (srConn (ciRecv ci)) ?B True w = Some y"
    using assms(2) h(3) by (auto simp: server_receive_round_def split: option.splits)
  have res: "case y of Inl e \<Rightarrow> e = OutOfBounds | Inr (t, buf', w') \<Rightarrow> length buf' = EXT_PACKET_SIZE"
    using y recv_packet_result [of os win _ ?B True w y] by (auto simp: sv_Receive_def split: if_splits sum.splits)
  show ?thesis
  proof (cases y)
    case (Inl e)
    then show ?thesis using y res assms(2) h(3) by (auto simp: server_receive_round_def)
  next
    case (Inr z)
    obtain t buf' w' where z: "z = (t, buf', w')" by (cases z)
    have "8 \<le> length buf'" using res Inr z by (simp add: EXT_PACKET_SIZE_def)
    then obtain p where p: "convertReceiveMsg buf' = Inr p" using convertReceiveMsg_returns by blast
    have id: "ci\<lparr>ciRecv := ciRecv ci\<rparr> = ci" by simp
    show ?thesis using y Inr z p assms h ins [of p]
      by (auto simp: server_receive_round_def sr_Stop_def id split: if_splits)
  qed
qed

lemma handler_round_ok:
  assumes "handler_ok u ci h" and "handler_round h w = Some (h', w')"
  shows "handler_ok u ci h'"
  using assms by (auto simp: handler_round_def handler_ok_def eq_DeQueue_def Let_def split: if_splits option.splits)

lemma disconnect_ok:
  assumes "server_ok n"
  shows "\<exists>ok n' w'. nw_DisConnectClient os win u n w = Inr (ok, n', w') \<and> server_ok n'"
  using assms server_ok_erase [OF assms, of u] server_okD(1,2) [OF assms]
  by (auto simp: nw_DisConnectClient_def split_beta Let_def split: option.splits)

lemma receive_of_ok:
  assumes "server_ok n" and "receive_of os win u n w = Some x"
  shows "case x of Inl e \<Rightarrow> e = OutOfBounds | Inr (n', w') \<Rightarrow> server_ok n'"
proof (cases "map_of (nwMap n) u")
  case None
  then show ?thesis using assms by (auto simp: receive_of_def)
next
  case (Some ci)
  note ci = server_okD(4) [OF assms(1) Some]
  obtain y where y: "server_receive_round os win (ciRecv ci) w = Some y"
    using assms(2) Some by (auto simp: receive_of_def split: option.splits)
  note res = receive_round_result [OF ci y]
  show ?thesis
  proof (cases y)
    case (Inl e)
    then show ?thesis using res y assms(2) Some by (auto simp: receive_of_def)
  next
    case (Inr z)
    obtain closed r w1 where z: "z = (closed, r, w1)" by (cases z)
    let ?n = "put_receiver u r n"
    show ?thesis
    proof (cases closed)
      case False
      then have "server_ok ?n" using res Inr z Some by (intro server_ok_put [OF assms(1)]) auto
      then show ?thesis using False assms(2) Some y Inr z by (auto simp: receive_of_def Let_def)
    next
      case True
      have m: "nwMap ?n = smap_assign u (ci\<lparr>ciRecv := r\<rparr>) (nwMap n)" "nwServer ?n = nwServer n" "nwInfo ?n = nwInfo n"
        using Some by (simp_all add: put_receiver_def)
      have u: "srUUID r = u" using res Inr z by simp
      obtain ok w2 where d: "nw_DisConnectClient os win u ?n w1 = Inr (ok, ?n\<lparr>nwMap := smap_erase u (nwMap ?n)\<rparr>, w2)"
        using server_okD(1,2) [OF assms(1)]
        by (auto simp: nw_DisConnectClient_def m map_of_smap_assign split_beta Let_def)
      moreover have "server_ok (?n\<lparr>nwMap := smap_erase u (nwMap ?n)\<rparr>)"
        using assms(1) by (auto simp: server_ok_def m smap_ok_erase smap_ok_assign map_of_smap_erase map_of_smap_assign
            split: if_splits)
      ultimately show ?thesis using True assms(2) Some y Inr z u by (auto simp: receive_of_def Let_def)
    qed
  qed
qed

lemma handle_of_ok:
  assumes "server_ok n" and "handle_of u n w = Some x"
  shows "case x of Inl e \<Rightarrow> e = OutOfBounds | Inr (n', w') \<Rightarrow> server_ok n'"
proof (cases "map_of (nwMap n) u")
  case None
  then show ?thesis using assms by (auto simp: handle_of_def)
next
  case (Some ci)
  note ci = server_okD(4) [OF assms(1) Some]
  then obtain h where h: "srHandlerObj (ciRecv ci) = Some h" "handler_ok u ci h" by (auto simp: client_ok_def)
  show ?thesis
  proof (cases "handler_round h w")
    case None
    then show ?thesis using assms Some h by (auto simp: handle_of_def)
  next
    case r: (Some p)
    obtain h' w' where p: "p = (h', w')" by (cases p)
    have "handler_ok u ci h'" using handler_round_ok [OF h(2)] r p by blast
    then have "client_ok u (ci\<lparr>ciRecv := (ciRecv ci)\<lparr>srHandlerObj := Some h'\<rparr>\<rparr>)"
      using ci by (auto simp: client_ok_def handler_ok_def)
    then have "server_ok (put_receiver u ((ciRecv ci)\<lparr>srHandlerObj := Some h'\<rparr>) n)"
      using Some by (intro server_ok_put [OF assms(1)]) auto
    then show ?thesis using assms(2) Some h r p by (auto simp: handle_of_def)
  qed
qed

lemma listen_ok:
  assumes "server_ok n" and "listen_round os win guids n w = Some (Inr (n', w'))"
  shows "server_ok n'"
proof -
  have ins: "server_ok (insert_client g c (n\<lparr>nwServer := Some sv\<rparr>))"
    if "fresh_guid (nwMap n) guids = Some g" for g c sv
    using fresh_guid_None [OF that] server_ok_fields(2) [OF assms(1)] by (intro server_ok_insert) auto
  show ?thesis
    using assms server_ok_fields(2) [OF assms(1)] ins
    by (auto simp: listen_round_def Let_def split: if_splits option.splits sum.splits)
qed

text \<open>Every operation keeps the invariant, and none but Listen ends in an error other than a message
  that is longer than the buffer.\<close>

lemma server_do_ok:
  assumes "server_ok n" and "server_do os win op (n, w) = Some x"
  shows "case x of Inl e \<Rightarrow> e = OutOfBounds \<or> (\<exists>guids. op = SListen guids) | Inr (n', w') \<Rightarrow> server_ok n'"
proof (cases op)
  case (SListen guids)
  then show ?thesis using assms listen_ok [OF assms(1)] by (auto split: sum.split)
next
  case (SReceive u)
  then show ?thesis using assms receive_of_ok [OF assms(1), of os win u w x] by (auto split: sum.splits)
next
  case (SHandle u)
  then show ?thesis using assms handle_of_ok [OF assms(1), of u w x] by (auto split: sum.splits)
next
  case (SDisconnect u)
  then show ?thesis using assms disconnect_ok [OF assms(1), of os win u w] by auto
next
  case SDisconnectAll
  have "server_ok (n\<lparr>nwMap := []\<rparr>)" using assms(1) by (simp add: server_ok_def smap_ok_def)
  then show ?thesis using SDisconnectAll assms(2) server_okD(1,2) [OF assms(1)]
    by (auto simp: nw_DisConnectAll_def split_beta Let_def)
next
  case (SSend u d)
  then show ?thesis using assms(1) assms(2) server_okD(1,2) [OF assms(1)] server_ok_fields(1) [OF assms(1)]
    by (auto simp: SendToClient_def split_beta Let_def split: option.splits)
next
  case (SSendAll d)
  then show ?thesis using assms(1) assms(2) server_okD(1,2) [OF assms(1)] server_ok_fields(1) [OF assms(1)]
    by (auto simp: SendToAll_def split_beta Let_def split: option.splits)
next
  case (SSendSocket s i d)
  then show ?thesis using assms(1) assms(2) server_okD(1,2) [OF assms(1)]
    by (auto simp: SendToClientSocket_def split_beta split: option.splits)
qed

subsection \<open>Properties\<close>


text \<open>A server with an open listening socket, and an operating system on which one client connects.\<close>

definition demo_server :: "byte list list network" where
  "demo_server = (nw_new \<lparr>nwIP = wlit ''h'', nwName = wlit ''n'', nwPort = 80, nwType = NETWORK_SERVER\<rparr>)
     \<lparr>nwServer := Some \<lparr>svListen = 3, svAddr = None, svPort = 80\<rparr>\<rparr>"

definition accept_os :: "byte list list os" where
  "accept_os = stream_os\<lparr>os_listen := (\<lambda>s w. (0, w)), os_select := (\<lambda>ss t w. ((1, ss), w)), os_accept := (\<lambda>s w. (7, w))\<rparr>"

lemma demo_accepts:
  "server_do accept_os True (SListen [[65]]) (demo_server, []) = Some (Inr (insert_client [65] 7 demo_server, []))"
  by (simp add: demo_server_def accept_os_def stream_os_def nw_new_def listen_round_def sv_Listen_def sv_listen_def sv_wait_def
      SelectSocket_def NETWORK_ACCEPT_POLL_MSEC_def npos_def smap_contains_def Let_def)


end
