(* ===== verification/Network_Sockets.thy ===== *)
theory Network_Sockets
  imports Network_Server
begin

text \<open>
  The descriptors of the sockets on systems other than Windows (TCPClient.cpp, TCPServer.cpp and
  cNetwork of EXNetwork.cpp): every socket a client or a server opens or accepts is closed once, on every
  way out. \<open>v\<close> reads the set of open descriptors off the world; what the socket calls do to it is the
  hypothesis \<open>sock_ledger\<close>.
\<close>

definition opened :: "('w \<Rightarrow> int set) \<Rightarrow> 'w \<Rightarrow> int \<times> 'w \<Rightarrow> bool" where
  "opened v w r = (if fst r < 0 then v (snd r) = v w else fst r \<notin> v w \<and> v (snd r) = insert (fst r) (v w))"

definition sock_ledger :: "'w os \<Rightarrow> ('w \<Rightarrow> int set) \<Rightarrow> bool" where
  "sock_ledger os v =
     ((\<forall>f t p w. opened v w (os_socket os f t p w)) \<and> (\<forall>l w. opened v w (os_accept os l w))
      \<and> (\<forall>s w. v (os_close os s w) = v w - {s})
      \<and> (\<forall>h p w. v (snd (os_getaddrinfo os h p w)) = v w) \<and> (\<forall>s opt w. v (snd (os_setsockopt os s opt w)) = v w)
      \<and> (\<forall>s a w. v (snd (os_connect os s a w)) = v w) \<and> (\<forall>s a w. v (snd (os_bind os s a w)) = v w)
      \<and> (\<forall>s w. v (snd (os_listen os s w)) = v w) \<and> (\<forall>ss t w. v (snd (os_select os ss t w)) = v w)
      \<and> (\<forall>s d w. v (snd (os_send os s d w)) = v w) \<and> (\<forall>s l w. v (snd (os_recv os s l w)) = v w)
      \<and> (\<forall>s w. v (snd (os_shutdown os s w)) = v w))"

lemma sock_ledger_open:
  assumes "sock_ledger os v"
  shows "opened v w (os_socket os f t p w)" and "opened v w (os_accept os l w)" and "v (os_close os s w) = v w - {s}"
  using assms unfolding sock_ledger_def by metis+

lemma sock_ledger_same:
  assumes "sock_ledger os v"
  shows "os_getaddrinfo os h p w = (r, w') \<Longrightarrow> v w' = v w" and "os_setsockopt os s opt w = (r1, w') \<Longrightarrow> v w' = v w"
    and "os_connect os s a w = (r1, w') \<Longrightarrow> v w' = v w" and "os_bind os s a w = (r1, w') \<Longrightarrow> v w' = v w"
    and "os_listen os s w = (r1, w') \<Longrightarrow> v w' = v w" and "os_select os ss t w = (r2, w') \<Longrightarrow> v w' = v w"
    and "os_send os s d w = (r1, w') \<Longrightarrow> v w' = v w" and "os_recv os s l w = (r3, w') \<Longrightarrow> v w' = v w"
    and "os_shutdown os s w = (r1, w') \<Longrightarrow> v w' = v w"
  using assms unfolding sock_ledger_def by (metis snd_conv)+

subsection \<open>Sending and receiving\<close>

lemma send_loop_sockets:
  assumes l: "sock_ledger os v" and "send_loop os sock d tot w = Some r"
  shows "v (snd r) = v w"
proof -
  have "sock_ledger os v \<longrightarrow> v (snd r) = v w"
  proof (rule send_loop.raw_induct [where P = "\<lambda>os sock d tot w r. sock_ledger os v \<longrightarrow> v (snd r) = v w", OF _ assms(2)],
      goal_cases)
    case (1 f os sock d tot w r)
    show ?case
    proof
      assume l: "sock_ledger os v"
      obtain k w1 where s: "os_send os sock (drop (nat tot) d) w = (k, w1)" by fastforce
      have w1: "v w1 = v w" by (rule sock_ledger_same(7) [OF l s])
      from 1(2) s have "r = (False, w1) \<or> r = (True, w1) \<or> f os sock d (to_int32 (tot + k)) w1 = Some r"
        by (auto simp: Let_def split: if_splits)
      with w1 1(1) l show "v (snd r) = v w" by fastforce
    qed
  qed
  with l show ?thesis by simp
qed

lemma recv_into_sockets:
  assumes "sock_ledger os v" and "recv_into os sock buf tot len w = Inr (k, nb, buf', w')"
  shows "v w' = v w"
  using assms(2) sock_ledger_same(8) [OF assms(1), of sock len w]
  by (auto simp: recv_into_def write_at_def split: recv_res.splits prod.splits if_splits)

lemma recv_loop_sockets:
  assumes l: "sock_ledger os v" and "recv_loop os win sock rf m tries tot buf w = Some x"
  shows "case x of Inl e \<Rightarrow> True | Inr (t, buf', w') \<Rightarrow> v w' = v w"
proof -
  have "sock_ledger os v \<longrightarrow> (case x of Inl e \<Rightarrow> True | Inr (t, buf', w') \<Rightarrow> v w' = v w)"
  proof (rule recv_loop.raw_induct [where P = "\<lambda>os win sock rf m tries tot buf w x.
      sock_ledger os v \<longrightarrow> (case x of Inl e \<Rightarrow> True | Inr (t, buf', w') \<Rightarrow> v w' = v w)", OF _ assms(2)], goal_cases)
    case (1 f os win sock rf m tries tot buf w x)
    show ?case
    proof
      assume l: "sock_ledger os v"
      show "case x of Inl e \<Rightarrow> True | Inr (t, buf', w') \<Rightarrow> v w' = v w"
      proof (cases "recv_into os sock buf tot (recv_len win (size_sub m (to_size tot))) w")
        case (Inl e)
        then show ?thesis using 1(2) by auto
      next
        case (Inr p)
        obtain k nb buf1 w1 where p: "p = (k, nb, buf1, w1)" by (cases p)
        have w1: "v w1 = v w" by (rule recv_into_sockets [OF l Inr [unfolded p]])
        from 1(2) Inr p have "x = Inr (tot, buf1, w1) \<or> x = Inr (to_int32 (tot + k), buf1, w1)
            \<or> (\<exists>tries' tot'. f os win sock rf m tries' tot' buf1 w1 = Some x)"
          by (auto simp: Let_def split: if_splits)
        then show ?thesis using 1(1) w1 l by (fastforce split: sum.splits)
      qed
    qed
  qed
  with l show ?thesis by simp
qed

lemma recv_packet_sockets:
  assumes l: "sock_ledger os v" and "recv_packet os win sock buf rf w = Some x"
  shows "case x of Inl e \<Rightarrow> True | Inr (t, buf', w') \<Rightarrow> v w' = v w"
proof (cases "recv_into os sock buf 0 4 w")
  case (Inl e)
  then show ?thesis using assms by (auto simp: recv_packet_def)
next
  case (Inr p)
  obtain k nb buf1 w1 where p: "p = (k, nb, buf1, w1)" by (cases p)
  have w1: "v w1 = v w" by (rule recv_into_sockets [OF l Inr [unfolded p]])
  show ?thesis
  proof (cases "recv_into os sock buf1 k 4 w1")
    case (Inl e)
    then show ?thesis using assms Inr p w1 by (auto simp: recv_packet_def Let_def split: if_splits)
  next
    case (Inr q)
    obtain k' nb' buf2 w2 where q: "q = (k', nb', buf2, w2)" by (cases q)
    have w2: "v w2 = v w" using recv_into_sockets [OF l Inr [unfolded q]] w1 by simp
    from assms(2) \<open>recv_into os sock buf 0 4 w = Inr p\<close> p Inr q have
      "x = Inr (0, buf1, w1) \<or> x = Inl OutOfBounds \<or> x = Inr (0, buf2, w2)
       \<or> (\<exists>m. recv_loop os win sock rf m 0 (k + k') buf2 w2 = Some x)"
      by (auto simp: recv_packet_def Let_def split: if_splits)
    then show ?thesis using w1 w2 recv_loop_sockets [OF l] by (fastforce split: sum.splits)
  qed
qed

subsection \<open>A client\<close>

datatype client_op = CConnect "byte list" "byte list" | CDisconnect | CSend "byte list" | CReceive "byte list" bool

definition client_do :: "'w os \<Rightarrow> client_op \<Rightarrow> tcp_client \<times> 'w \<Rightarrow> (tcp_client \<times> 'w) res option" where
  "client_do os op = (\<lambda>(c, w). case op of
       CConnect host port \<Rightarrow> Some (map_sum id snd (tc_Connect os False host port c w))
     | CDisconnect \<Rightarrow> Some (Inr (snd (tc_Disconnect os False c w)))
     | CSend d \<Rightarrow> map_option (\<lambda>r. Inr (c, snd r)) (tc_Send os d c w)
     | CReceive buf fully \<Rightarrow> map_option (map_sum id (\<lambda>r. (c, snd (snd r)))) (tc_Receive os False buf fully c w))"

fun client_run :: "'w os \<Rightarrow> client_op list \<Rightarrow> tcp_client \<times> 'w \<Rightarrow> (tcp_client \<times> 'w) res option" where
  "client_run os [] s = Some (Inr s)"
| "client_run os (op # ops) s =
     (case client_do os op s of Some (Inr s') \<Rightarrow> client_run os ops s' | r \<Rightarrow> r)"

text \<open>The socket of a connected client is open, and nothing else the client has opened.\<close>

definition client_sock :: "tcp_client \<Rightarrow> int set" where
  "client_sock c = (if tcStatus c = CONNECTED then {tcSocket c} else {})"

definition client_owns :: "('w \<Rightarrow> int set) \<Rightarrow> int set \<Rightarrow> tcp_client \<Rightarrow> 'w \<Rightarrow> bool" where
  "client_owns v B c w = (v w = B \<union> client_sock c \<and> B \<inter> client_sock c = {})"

lemma tc_Disconnect_sockets:
  assumes "sock_ledger os v" and "client_owns v B c w" and "tc_Disconnect os False c w = (ok, c', w')"
  shows "v w' = B \<and> tcStatus c' = DISCONNECTED"
  using assms sock_ledger_open(3) [OF assms(1)]
  by (cases "tcStatus c") (auto simp: tc_Disconnect_def client_owns_def client_sock_def Let_def)

lemma tc_connect_unix_sockets:
  assumes "sock_ledger os v" and "tcStatus c = DISCONNECTED" and "tc_connect_unix os as c w = (ok, c', w')"
  shows "client_owns v (v w) c' w'"
  using assms(2,3)
proof (induction as arbitrary: c w)
  case Nil
  then show ?case by (simp add: client_owns_def client_sock_def)
next
  case (Cons a as)
  obtain s w1 where s: "os_socket os (ai_family a) (ai_socktype a) (ai_protocol a) w = (s, w1)" by fastforce
  obtain r w2 where r: "os_connect os s (ai_addr a) w1 = (r, w2)" by fastforce
  have o: "opened v w (s, w1)" using sock_ledger_open(1) [OF assms(1), of w] s by metis
  have e: "v w2 = v w1" by (rule sock_ledger_same(3) [OF assms(1) r])
  have cl: "v (os_close os s w2) = v w1 - {s}" using sock_ledger_open(3) [OF assms(1)] e by simp
  show ?case
  proof (cases "s < 0 \<or> r < 0")
    case True
    then obtain w3 where "tc_connect_unix os as (c\<lparr>tcSocket := s\<rparr>) w3 = (ok, c', w')" "v w3 = v w"
      using Cons.prems(2) s r o e cl by (auto simp: opened_def Let_def split: if_splits)
    then show ?thesis using Cons.IH [of "c\<lparr>tcSocket := s\<rparr>" w3] Cons.prems(1) by simp
  next
    case False
    then have "c' = c\<lparr>tcSocket := s, tcStatus := CONNECTED\<rparr>" "w' = w2" using Cons.prems(2) s r by (simp_all add: Let_def)
    moreover have "s \<notin> v w" "v w2 = insert s (v w)" using False o e by (simp_all add: opened_def)
    ultimately show ?thesis by (simp add: client_owns_def client_sock_def)
  qed
qed

lemma client_do_sockets:
  assumes l: "sock_ledger os v" and o: "client_owns v B (fst s) (snd s)" and "client_do os op s = Some (Inr s')"
  shows "client_owns v B (fst s') (snd s')"
proof -
  obtain c w where s: "s = (c, w)" by (cases s)
  obtain c' w' where s': "s' = (c', w')" by (cases s')
  obtain okd cd wd where d: "tc_Disconnect os False c w = (okd, cd, wd)" by (cases "tc_Disconnect os False c w")
  have dd: "v wd = B" "tcStatus cd = DISCONNECTED" using tc_Disconnect_sockets [OF l _ d, of B] o s by simp_all
  show ?thesis
  proof (cases op)
    case (CConnect host port)
    obtain c1 w1 where cw: "(c1, w1) = (if tcStatus c = CONNECTED then (cd, wd) else (c, w))" by (metis prod.exhaust)
    have c1: "v w1 = B" "tcStatus c1 = DISCONNECTED"
      using cw dd o s by (cases "tcStatus c"; simp add: client_owns_def client_sock_def)+
    obtain i as w2 where g: "os_getaddrinfo os (Some host) port w1 = ((i, as), w2)" by (metis prod.exhaust)
    have w2: "v w2 = B" using sock_ledger_same(1) [OF l g] c1 by simp
    have "tc_Connect os False host port c w = Inr (if i \<noteq> 0 then (False, c1, w2) else tc_connect_unix os as c1 w2)"
      using cw d g by (auto simp: tc_Connect_def Let_def split: if_splits)
    then show ?thesis using assms(3) s s' CConnect c1 w2 tc_connect_unix_sockets [OF l c1(2), of as w2]
      by (cases "tc_connect_unix os as c1 w2") (auto simp: client_do_def client_owns_def client_sock_def split: if_splits)
  next
    case CDisconnect
    then show ?thesis using assms(3) s d dd by (auto simp: client_do_def client_owns_def client_sock_def)
  next
    case (CSend d)
    then show ?thesis using assms(2,3) s send_loop_sockets [OF l, of _ d 0 w]
      by (auto simp: client_do_def tc_Send_def client_owns_def split: if_splits)
  next
    case (CReceive buf fully)
    then show ?thesis using assms(2,3) s recv_packet_sockets [OF l, of False "tcSocket c" buf fully w]
      by (auto simp: client_do_def tc_Receive_def client_owns_def split: if_splits sum.splits) blast+
  qed
qed

lemma client_run_sockets:
  assumes "sock_ledger os v"
  shows "client_owns v B (fst s) (snd s) \<Longrightarrow> client_run os ops s = Some (Inr s') \<Longrightarrow> client_owns v B (fst s') (snd s')"
proof (induction ops arbitrary: s)
  case (Cons op ops)
  then obtain s1 where "client_do os op s = Some (Inr s1)" "client_run os ops s1 = Some (Inr s')"
    by (auto split: option.splits sum.splits)
  then show ?case using Cons.IH client_do_sockets [OF assms Cons.prems(1)] by blast
qed simp

subsection \<open>A server\<close>

text \<open>The socket and the handler of each client in the map, and the listening socket.\<close>

definition conn_of :: "'w network \<Rightarrow> xstring \<Rightarrow> int option" where
  "conn_of n u = map_option ciConn (map_of (nwMap n) u)"

definition fn_of :: "'w network \<Rightarrow> xstring \<Rightarrow> 'w fnHandler option option" where
  "fn_of n u = map_option ciFn (map_of (nwMap n) u)"

definition listen_sock :: "'w network \<Rightarrow> int set" where
  "listen_sock n = (case nwServer n of None \<Rightarrow> {} | Some sv \<Rightarrow> if svListen sv < 0 then {} else {svListen sv})"

definition server_owns :: "('w \<Rightarrow> int set) \<Rightarrow> int set \<Rightarrow> 'w fnHandler option \<Rightarrow> 'w network \<Rightarrow> 'w \<Rightarrow> bool" where
  "server_owns v B H n w =
     (v w = B \<union> listen_sock n \<union> ran (conn_of n) \<and> B \<inter> listen_sock n = {} \<and> B \<inter> ran (conn_of n) = {}
      \<and> listen_sock n \<inter> ran (conn_of n) = {} \<and> inj_on (conn_of n) (dom (conn_of n)) \<and> (\<forall>s \<in> ran (conn_of n). 0 \<le> s)
      \<and> nwServerHandler n = H \<and> ran (fn_of n) \<subseteq> {H} \<and> smap_ok (nwMap n)
      \<and> (\<forall>sv. nwServer n = Some sv \<longrightarrow> svListen sv < 0 \<longrightarrow> svListen sv = INVALID_SOCKET))"

lemma server_owns_cong:
  assumes "server_owns v B H n w" and "v w' = v w" and "conn_of n' = conn_of n" and "fn_of n' = fn_of n"
    and "nwServer n' = nwServer n" and "nwServerHandler n' = nwServerHandler n" and "smap_ok (nwMap n')"
  shows "server_owns v B H n' w'"
  using assms by (simp add: server_owns_def listen_sock_def)

lemma put_receiver_socks:
  "conn_of (put_receiver u r n) = conn_of n" "fn_of (put_receiver u r n) = fn_of n"
  "nwServer (put_receiver u r n) = nwServer n" "nwServerHandler (put_receiver u r n) = nwServerHandler n"
  by (auto simp: put_receiver_def conn_of_def fn_of_def fun_eq_iff map_of_smap_assign split: option.split)

lemma server_owns_put:
  assumes "server_owns v B H n w" and "v w' = v w"
  shows "server_owns v B H (put_receiver u r n) w'"
proof (rule server_owns_cong [OF assms put_receiver_socks])
  have "smap_ok (nwMap n)" using assms(1) by (simp add: server_owns_def)
  then show "smap_ok (nwMap (put_receiver u r n))" by (auto simp: put_receiver_def smap_ok_assign split: option.split)
qed

lemma ran_erase:
  assumes "inj_on f (dom f)" and "f u = Some s"
  shows "ran (f(u := None)) = ran f - {s}"
proof (intro set_eqI iffI)
  fix t
  assume "t \<in> ran (f(u := None))"
  then obtain u' where u': "u' \<noteq> u" "f u' = Some t" by (auto simp: ran_def split: if_splits)
  then have "t \<noteq> s" using inj_onD [OF assms(1), of u' u] assms(2) by auto
  then show "t \<in> ran f - {s}" using u' by (auto simp: ran_def)
next
  fix t
  assume "t \<in> ran f - {s}"
  then obtain u' where "f u' = Some t" "t \<noteq> s" by (auto simp: ran_def)
  then have "(f(u := None)) u' = Some t" using assms(2) by auto
  then show "t \<in> ran (f(u := None))" by (rule ranI)
qed

text \<open>Closing the socket of a client that leaves the map.\<close>

lemma server_owns_erase:
  assumes "sock_ledger os v" and "server_owns v B H n w" and "map_of (nwMap n) u = Some ci"
  shows "server_owns v B H (n\<lparr>nwMap := smap_erase u (nwMap n)\<rparr>) (os_close os (ciConn ci) w)"
proof -
  let ?n = "n\<lparr>nwMap := smap_erase u (nwMap n)\<rparr>"
  have c: "conn_of ?n = (conn_of n)(u := None)" and f: "fn_of ?n = (fn_of n)(u := None)"
    by (auto simp: conn_of_def fn_of_def fun_eq_iff map_of_smap_erase)
  have u: "conn_of n u = Some (ciConn ci)" using assms(3) by (simp add: conn_of_def)
  have inj: "inj_on (conn_of n) (dom (conn_of n))" using assms(2) by (simp add: server_owns_def)
  have r: "ran ((conn_of n)(u := None)) = ran (conn_of n) - {ciConn ci}" by (rule ran_erase [OF inj u])
  have i: "inj_on ((conn_of n)(u := None)) (dom ((conn_of n)(u := None)))"
    using inj by (auto simp: inj_on_def)
  have m: "ciConn ci \<in> ran (conn_of n)" using u by (auto simp: ran_def)
  have fr: "ran ((fn_of n)(u := None)) \<subseteq> ran (fn_of n)" by (auto simp: ran_def split: if_splits)
  show ?thesis
    using assms(2) sock_ledger_open(3) [OF assms(1), of "ciConn ci" w] c f r i m fr
    by (auto simp: server_owns_def listen_sock_def smap_ok_erase)
qed

lemma server_owns_DisConnect:
  assumes "sock_ledger os v" and "server_owns v B H n w" and "nw_DisConnectClient os False u n w = Inr (ok, n', w')"
  shows "server_owns v B H n' w'"
  using assms server_owns_erase [OF assms(1,2)]
  by (auto simp: nw_DisConnectClient_def sv_Disconnect_def Let_def split: option.splits if_splits)

lemma disconnect_each_sockets:
  assumes "sock_ledger os v"
  shows "v (snd (disconnect_each os False es b w)) = v w - (ciConn ` snd ` set es)"
proof (induction es arbitrary: b w)
  case (Cons e es)
  then show ?case by (cases e) (simp add: sv_Disconnect_def sock_ledger_open(3) [OF assms] Diff_insert2 [symmetric])
qed simp

lemma server_owns_DisConnectAll:
  assumes "sock_ledger os v" and "server_owns v B H n w" and "nw_DisConnectAll os False n w = Inr (ok, n', w')"
  shows "server_owns v B H n' w' \<and> nwMap n' = [] \<and> nwServer n' = nwServer n"
proof -
  have n': "n' = n\<lparr>nwMap := []\<rparr>" and w': "w' = snd (disconnect_each os False (nwMap n) True w)"
    using assms(3) by (auto simp: nw_DisConnectAll_def split_beta Let_def split: if_splits)
  have "distinct (map fst (nwMap n))" using assms(2) by (auto simp: server_owns_def smap_ok_def strict_sorted_iff)
  then have "ran (map_of (nwMap n)) = snd ` set (nwMap n)" by (rule ran_distinct)
  moreover have "ran (conn_of n) = ciConn ` ran (map_of (nwMap n))" by (auto simp: conn_of_def ran_def)
  ultimately have "v w' = v w - ran (conn_of n)" using w' disconnect_each_sockets [OF assms(1)] by simp
  moreover have "conn_of n' = Map.empty" "fn_of n' = Map.empty" by (auto simp: conn_of_def fn_of_def n')
  ultimately show ?thesis using assms(2) by (auto simp: server_owns_def listen_sock_def n' smap_ok_def)
qed

lemma send_each_sockets:
  assumes "sock_ledger os v"
  shows "send_each os win d es b w = Some r \<Longrightarrow> v (snd r) = v w"
proof (induction es arbitrary: b w)
  case (Cons e es)
  then obtain ok w1 where s: "sv_Send os win (ciConn (snd e)) d w = Some (ok, w1)" "send_each os win d es (b \<and> ok) w1 = Some r"
    by (cases e) (auto split: option.splits)
  have "v w1 = v w" using s(1) send_loop_sockets [OF assms] by (fastforce simp: sv_Send_def split: if_splits)
  then show ?case using Cons.IH [OF s(2)] by simp
qed auto

text \<open>What Listen opens: the listening socket when there is none, then a client's.\<close>

lemma sv_open_unix_sockets:
  assumes l: "sock_ledger os v" and "sv_open_unix os sv w = Inr (ok, sv1, w1)"
  shows "opened v w (svListen sv1, w1) \<and> (svListen sv1 < 0 \<longrightarrow> svListen sv1 = INVALID_SOCKET)"
proof -
  obtain s w2 where s: "os_socket os 2 1 0 w = (s, w2)" by fastforce
  obtain e w3 where e: "os_setsockopt os s SO_REUSEADDR w2 = (e, w3)" by fastforce
  obtain b w4 where b: "os_bind os s (svPort sv) w3 = (b, w4)" by fastforce
  have o: "opened v w (s, w2)" using sock_ledger_open(1) [OF l, of w] s by metis
  have same: "v w3 = v w2" "v w4 = v w2" using sock_ledger_same(2) [OF l e] sock_ledger_same(4) [OF l b] by simp_all
  consider "s < 0" "sv1 = sv\<lparr>svListen := INVALID_SOCKET\<rparr>" "w1 = w2"
    | "0 \<le> s" "sv1 = sv\<lparr>svListen := INVALID_SOCKET\<rparr>" "w1 = os_close os s w3"
    | "0 \<le> s" "sv1 = sv\<lparr>svListen := s\<rparr>" "w1 = w4"
    using assms(2) s e b by (auto simp: sv_open_unix_def Let_def split: if_splits)
  then show ?thesis
    by cases (use o same sock_ledger_open(3) [OF l, of s w3] in \<open>auto simp: opened_def\<close>)
qed

lemma sv_listen_sockets:
  assumes l: "sock_ledger os v" and "sv_listen os False msec sv w = ((c, new), sv', w')"
  shows "sv' = sv \<and> (if new then 0 \<le> c \<and> opened v w (c, w') else v w' = v w)"
proof -
  obtain i w1 where i: "os_listen os (svListen sv) w = (i, w1)" by fastforce
  obtain r w2 where r: "(if msec \<noteq> npos then SelectSocket os False (svListen sv) msec w1 else (1, w1)) = (r, w2)" by fastforce
  obtain c2 w3 where c: "os_accept os (svListen sv) w2 = (c2, w3)" by fastforce
  have "v w1 = v w" by (rule sock_ledger_same(5) [OF l i])
  moreover have "v w2 = v w1"
    using r sock_ledger_same(6) [OF l] by (auto simp: SelectSocket_def Let_def split: if_splits prod.splits)
  moreover have "opened v w2 (c2, w3)" using sock_ledger_open(2) [OF l, of w2] c by metis
  ultimately show ?thesis using assms(2) i r c
    by (auto simp: sv_listen_def sv_wait_def opened_def Let_def split: if_splits)
qed

lemma sv_Listen_sockets:
  assumes l: "sock_ledger os v" and "sv_Listen os False msec sv w = Inr ((c, new), sv', w')"
  shows "\<exists>w1. (if svListen sv = INVALID_SOCKET
      then opened v w (svListen sv', w1) \<and> (svListen sv' < 0 \<longrightarrow> svListen sv' = INVALID_SOCKET) else sv' = sv \<and> w1 = w)
    \<and> (if new then 0 \<le> c \<and> opened v w1 (c, w') else v w' = v w1)"
proof (cases "svListen sv = INVALID_SOCKET")
  case False
  then show ?thesis using assms sv_listen_sockets [OF l, of msec sv w c new sv' w'] by (auto simp: sv_Listen_def)
next
  case True
  obtain ok sv1 w1 where o: "sv_open_unix os sv w = Inr (ok, sv1, w1)"
    using assms(2) True by (auto simp: sv_Listen_def split: sum.splits)
  note op = sv_open_unix_sockets [OF l o]
  show ?thesis
  proof (cases ok)
    case False
    then have "sv' = sv1" "w' = w1" "\<not> new" using assms(2) True o by (auto simp: sv_Listen_def)
    then show ?thesis using op True by auto
  next
    case ok: True
    then have "sv_listen os False msec sv1 w1 = ((c, new), sv', w')" using assms(2) True o by (simp add: sv_Listen_def)
    from sv_listen_sockets [OF l this] show ?thesis using op True by auto
  qed
qed

lemma insert_client_socks:
  assumes "map_of (nwMap n) u = None"
  shows "conn_of (insert_client u c n) = (conn_of n)(u \<mapsto> c)"
    and "fn_of (insert_client u c n) = (fn_of n)(u \<mapsto> nwServerHandler n)"
    and "nwServer (insert_client u c n) = nwServer n" and "nwServerHandler (insert_client u c n) = nwServerHandler n"
    and "smap_ok (nwMap n) \<Longrightarrow> smap_ok (nwMap (insert_client u c n))"
  using assms
  by (auto simp: insert_client_def smap_emplace_def conn_of_def fn_of_def fun_eq_iff map_of_smap_assign smap_ok_assign Let_def)

text \<open>A new client under a key that is not in the map, with a socket that was not open.\<close>

lemma server_owns_insert:
  assumes "server_owns v B H n w" and "map_of (nwMap n) u = None" and "0 \<le> c" and "opened v w (c, w')"
  shows "server_owns v B H (insert_client u c n) w'"
proof -
  have u: "conn_of n u = None" "fn_of n u = None" using assms(2) by (simp_all add: conn_of_def fn_of_def)
  have c: "c \<notin> v w" "v w' = insert c (v w)" using assms(3,4) by (simp_all add: opened_def)
  have r: "ran ((conn_of n)(u \<mapsto> c)) = insert c (ran (conn_of n))" "ran ((fn_of n)(u \<mapsto> H)) = insert H (ran (fn_of n))"
    using u by simp_all
  have "c \<notin> ran (conn_of n)" using c assms(1) by (simp add: server_owns_def)
  moreover have "inj_on (conn_of n) (dom (conn_of n))" using assms(1) by (simp add: server_owns_def)
  ultimately have i: "inj_on ((conn_of n)(u \<mapsto> c)) (dom ((conn_of n)(u \<mapsto> c)))"
    using u by (auto simp: inj_on_def ran_def)
  have h: "nwServerHandler n = H" using assms(1) by (simp add: server_owns_def)
  show ?thesis
    using assms(1,3) c i insert_client_socks [OF assms(2), of c]
    by (simp add: server_owns_def listen_sock_def h r)
qed

text \<open>Listen has made the listening socket when there was none.\<close>

lemma server_owns_listening:
  assumes "server_owns v B H n w" and "nwServer n = Some sv"
    and "if svListen sv = INVALID_SOCKET
      then opened v w (svListen sv', w1) \<and> (svListen sv' < 0 \<longrightarrow> svListen sv' = INVALID_SOCKET) else sv' = sv \<and> w1 = w"
  shows "server_owns v B H (n\<lparr>nwServer := Some sv'\<rparr>) w1"
proof -
  have same: "conn_of (n\<lparr>nwServer := Some sv'\<rparr>) = conn_of n" "fn_of (n\<lparr>nwServer := Some sv'\<rparr>) = fn_of n"
    by (auto simp: conn_of_def fn_of_def)
  show ?thesis
  proof (cases "svListen sv = INVALID_SOCKET \<and> 0 \<le> svListen sv'")
    case True
    then have "svListen sv' \<notin> v w" "v w1 = insert (svListen sv') (v w)" using assms(3) by (simp_all add: opened_def)
    then show ?thesis using assms(1,2) True same by (simp add: server_owns_def listen_sock_def)
  next
    case False
    then have "v w1 = v w" "svListen sv = svListen sv'" using assms(3) by (auto simp: opened_def split: if_splits)
    then show ?thesis using assms(1,2) same by (auto simp: server_owns_def listen_sock_def split: if_splits)
  qed
qed

lemma listen_round_sockets:
  assumes l: "sock_ledger os v" and o: "server_owns v B H n w"
    and "listen_round os False guids n w = Some (Inr (n', w'))"
  shows "server_owns v B H n' w'"
proof (cases "nwIsStop n")
  case True
  then show ?thesis using assms by (simp add: listen_round_def)
next
  case False
  then obtain sv where sv: "nwServer n = Some sv" using assms(3) by (auto simp: listen_round_def split: option.splits)
  obtain c new sv' w2 where L: "sv_Listen os False NETWORK_ACCEPT_POLL_MSEC sv w = Inr ((c, new), sv', w2)"
    using assms(3) False sv by (auto simp: listen_round_def split: sum.splits)
  let ?n = "n\<lparr>nwServer := Some sv'\<rparr>"
  from sv_Listen_sockets [OF l L] obtain w1 where w1: "server_owns v B H ?n w1"
    and c: "if new then 0 \<le> c \<and> opened v w1 (c, w2) else v w2 = v w1"
    using server_owns_listening [OF o sv] by blast
  show ?thesis
  proof (cases new)
    case True
    then obtain g where g: "fresh_guid (nwMap ?n) guids = Some g" "n' = insert_client g c ?n" "w' = w2"
      using assms(3) False sv L by (auto simp: listen_round_def Let_def split: option.splits)
    then show ?thesis using server_owns_insert [OF w1 fresh_guid_None [OF g(1)]] c True by simp
  next
    case False': False
    then have "n' = ?n" "w' = w2" using assms(3) False sv L by (auto simp: listen_round_def Let_def)
    then show ?thesis using w1 c False' by (simp add: server_owns_def)
  qed
qed

text \<open>The rounds of the client threads; \<open>H\<close> is the handler of the program.\<close>

lemma server_receive_sockets:
  assumes "sock_ledger os v" and "server_receive_round os win r w = Some (Inr (closed, r', w'))"
  shows "v w' = v w"
proof (cases "srIsStop r")
  case True
  then show ?thesis using assms(2) by (simp add: server_receive_round_def)
next
  case False
  obtain t buf w1 where R: "sv_Receive os win (srConn r) (replicate EXT_PACKET_SIZE 0) True w = Some (Inr (t, buf, w1))"
    using assms(2) False by (auto simp: server_receive_round_def split: option.splits sum.splits)
  have "v w1 = v w" using R recv_packet_sockets [OF assms(1)] by (fastforce simp: sv_Receive_def split: if_splits)
  moreover have "w' = w1"
    using assms(2) False R by (auto simp: server_receive_round_def split: if_splits sum.splits option.splits)
  ultimately show ?thesis by simp
qed

lemma map_sum_snd_Inr: "map_sum id snd x = Inr y \<Longrightarrow> \<exists>ok. x = Inr (ok, y)"
  by (cases x) auto

lemma receive_of_sockets:
  assumes l: "sock_ledger os v" and o: "server_owns v B H n w" and "receive_of os False u n w = Some (Inr (n', w'))"
  shows "server_owns v B H n' w'"
proof (cases "map_of (nwMap n) u")
  case None
  then show ?thesis using assms by (simp add: receive_of_def)
next
  case (Some ci)
  obtain closed r w1 where R: "server_receive_round os False (ciRecv ci) w = Some (Inr (closed, r, w1))"
    using assms(3) Some by (auto simp: receive_of_def split: option.splits sum.splits)
  have p: "server_owns v B H (put_receiver u r n) w1" by (rule server_owns_put [OF o server_receive_sockets [OF l R]])
  show ?thesis
  proof (cases closed)
    case True
    then obtain ok where "nw_DisConnectClient os False (srUUID r) (put_receiver u r n) w1 = Inr (ok, n', w')"
      using assms(3) Some R map_sum_snd_Inr by (fastforce simp: receive_of_def Let_def)
    then show ?thesis by (rule server_owns_DisConnect [OF l p])
  next
    case False
    then show ?thesis using assms(3) Some R p by (simp add: receive_of_def Let_def)
  qed
qed

lemma handle_of_sockets:
  assumes ok: "server_ok n" and o: "server_owns v B H n w" and h: "\<forall>fn s p w. H = Some fn \<longrightarrow> v (fn s p w) = v w"
    and "handle_of u n w = Some (Inr (n', w'))"
  shows "server_owns v B H n' w'"
proof (cases "map_of (nwMap n) u")
  case None
  then show ?thesis using assms by (simp add: handle_of_def)
next
  case (Some ci)
  obtain g where g: "srHandlerObj (ciRecv ci) = Some g" "handler_ok u ci g"
    using server_okD(4) [OF ok Some] by (auto simp: client_ok_def)
  have "ciFn ci \<in> ran (fn_of n)" using Some by (auto simp: fn_of_def ran_def)
  then have H: "rhHandler g = H" using o g(2) by (auto simp: server_owns_def handler_ok_def)
  show ?thesis
  proof (cases "handler_round g w")
    case None
    then show ?thesis using assms(4) o Some g by (simp add: handle_of_def)
  next
    case r: (Some p)
    obtain g' w1 where p: "p = (g', w1)" by (cases p)
    have "w1 = w \<or> (\<exists>fn. rhHandler g = Some fn \<and> w1 = fn (rhConnection g) (hd (eqItems (rhQueue g))) w)"
      using r p by (auto simp: handler_round_def eq_DeQueue_def Let_def split: if_splits option.splits)
    then have "v w1 = v w" using H h by metis
    then show ?thesis using assms(4) Some g r p server_owns_put [OF o] by (auto simp: handle_of_def)
  qed
qed

lemma server_do_sockets:
  assumes l: "sock_ledger os v" and ok: "server_ok n" and o: "server_owns v B H n w"
    and h: "\<forall>fn s p w. H = Some fn \<longrightarrow> v (fn s p w) = v w"
    and "server_do os False op (n, w) = Some (Inr (n', w'))"
  shows "server_owns v B H n' w'"
proof (cases op)
  case (SListen guids)
  then show ?thesis using assms(5) listen_round_sockets [OF l o] by simp
next
  case (SReceive u)
  then show ?thesis using assms(5) receive_of_sockets [OF l o] by simp
next
  case (SHandle u)
  then show ?thesis using assms(5) handle_of_sockets [OF ok o h] by simp
next
  case (SDisconnect u)
  then show ?thesis using assms(5) server_owns_DisConnect [OF l o] by (auto dest!: map_sum_snd_Inr)
next
  case SDisconnectAll
  then show ?thesis using assms(5) server_owns_DisConnectAll [OF l o] by (auto dest!: map_sum_snd_Inr)
next
  case (SSend u d)
  then have s: "v w' = v w \<and> nwMap n' = nwMap n \<and> nwServer n' = nwServer n \<and> nwServerHandler n' = nwServerHandler n"
    using assms(5) send_loop_sockets [OF l]
    by (fastforce simp: SendToClient_def sv_Send_def Let_def split: if_splits option.splits)
  then have "conn_of n' = conn_of n" "fn_of n' = fn_of n" by (auto simp: conn_of_def fn_of_def)
  then show ?thesis using s o by (intro server_owns_cong [OF o]) (auto simp: server_owns_def)
next
  case (SSendAll d)
  then have s: "v w' = v w \<and> nwMap n' = nwMap n \<and> nwServer n' = nwServer n \<and> nwServerHandler n' = nwServerHandler n"
    using assms(5) send_each_sockets [OF l]
    by (fastforce simp: SendToAll_def Let_def split: if_splits option.splits)
  then have "conn_of n' = conn_of n" "fn_of n' = fn_of n" by (auto simp: conn_of_def fn_of_def)
  then show ?thesis using s o by (intro server_owns_cong [OF o]) (auto simp: server_owns_def)
next
  case (SSendSocket s i d)
  then have "v w' = v w \<and> n' = n"
    using assms(5) send_loop_sockets [OF l]
    by (fastforce simp: SendToClientSocket_def sv_Send_def split: if_splits option.splits)
  then show ?thesis using o by (simp add: server_owns_def)
qed

lemma server_run_sockets:
  assumes "server_run os False s s'" and "sock_ledger os v" and "\<forall>fn s p w. H = Some fn \<longrightarrow> v (fn s p w) = v w"
  shows "server_ok (fst s) \<Longrightarrow> server_owns v B H (fst s) (snd s) \<Longrightarrow> server_ok (fst s') \<and> server_owns v B H (fst s') (snd s')"
  using assms(1)
proof (induction rule: server_run.induct)
  case (step s s' op s'')
  then show ?case
    using server_do_sockets [OF assms(2) _ _ assms(3), of "fst s'" B "snd s'" op "fst s''" "snd s''"]
      server_do_ok [of "fst s'" os False op "snd s'" "Inr s''"] by (auto split: prod.splits)
qed simp

lemma listen_sock_conn:
  "nwServer n = Some sv \<Longrightarrow> listen_sock n = (if svListen sv < 0 then {} else {svListen sv})"
  "nwMap n = [] \<Longrightarrow> conn_of n = Map.empty" "nwMap n = [] \<Longrightarrow> fn_of n = Map.empty"
  by (simp_all add: listen_sock_def conn_of_def fn_of_def fun_eq_iff)

subsection \<open>Properties\<close>


text \<open>C26: the descriptor of a client on systems other than Windows: after any sequence of Connect,
  Disconnect, Send and Receive calls, whatever they answer, the open descriptors are those that were
  open before and, while the client is connected, its socket; the destructor closes it.\<close>

theorem client_closes_every_socket:
  assumes "sock_ledger os v" and "client_run os ops (tc_new, w0) = Some (Inr (c, w))"
  shows "v w = v w0 \<union> client_sock c \<and> v w0 \<inter> client_sock c = {} \<and> v (tc_destroy os False c w) = v w0"
proof -
  have "client_owns v (v w0) tc_new w0" by (simp add: client_owns_def client_sock_def tc_new_def)
  then have c: "client_owns v (v w0) c w" using client_run_sockets [OF assms(1) _ assms(2), of "v w0"] by simp
  moreover have "v (tc_destroy os False c w) = v w0"
  proof (cases "tcStatus c")
    case CONNECTED
    then show ?thesis using tc_Disconnect_sockets [OF assms(1) c]
      by (cases "tc_Disconnect os False c w") (simp add: tc_destroy_def)
  next
    case DISCONNECTED
    then show ?thesis using c by (simp add: tc_destroy_def client_owns_def client_sock_def)
  qed
  ultimately show ?thesis by (simp add: client_owns_def)
qed

text \<open>An operating system whose world is the list of its open descriptors; connections of a client
  are refused at address 0, and a client of the server connects whenever it is asked.\<close>

definition new_fd :: "int list \<Rightarrow> int" where
  "new_fd fds = 1 + fold max fds 2"

definition fd_os :: "int list os" where
  "fd_os = \<lparr>os_getaddrinfo = (\<lambda>h p w. ((0, [\<lparr>ai_family = 2, ai_socktype = 1, ai_protocol = 6, ai_addr = 0\<rparr>,
       \<lparr>ai_family = 2, ai_socktype = 1, ai_protocol = 6, ai_addr = 1\<rparr>]), w)),
     os_socket = (\<lambda>f t p w. (new_fd w, new_fd w # w)), os_setsockopt = (\<lambda>s opt w. (0, w)),
     os_connect = (\<lambda>s a w. (if a = 0 then -1 else 0, w)), os_bind = (\<lambda>s a w. (0, w)), os_listen = (\<lambda>s w. (0, w)),
     os_select = (\<lambda>ss t w. ((1, ss), w)), os_accept = (\<lambda>l w. (new_fd w, new_fd w # w)),
     os_send = (\<lambda>s d w. (int (length d), w)), os_recv = (\<lambda>s l w. (RClosed, w)), os_shutdown = (\<lambda>s w. (0, w)),
     os_close = (\<lambda>s w. removeAll s w)\<rparr>"

lemma new_fd_fresh: "new_fd w \<notin> set w" "0 \<le> new_fd w"
proof -
  have "m \<le> fold max w m \<and> (\<forall>x \<in> set w. x \<le> fold max w m)" for m :: int
  proof (induction w arbitrary: m)
    case (Cons a w)
    show ?case using Cons.IH [of "max a m"] by auto
  qed simp
  from this [of 2] show "new_fd w \<notin> set w" "0 \<le> new_fd w" by (auto simp: new_fd_def)
qed

lemma sock_ledger_fd_os: "sock_ledger fd_os set"
proof -
  have "\<not> new_fd w < 0" for w using new_fd_fresh(2) [of w] by simp
  then show ?thesis using new_fd_fresh(1) by (auto simp: sock_ledger_def fd_os_def opened_def)
qed

theorem client_closes_every_socket_witness:
  "\<exists>c w. client_run fd_os [CConnect [104] [56], CSend [1], CConnect [104] [57]] (tc_new, [1]) = Some (Inr (c, w))
    \<and> set w = {1} \<union> client_sock c \<and> client_sock c = {3} \<and> set (tc_destroy fd_os False c w) = {1}"
proof -
  have send: "tc_Send fd_os [1] \<lparr>tcStatus = CONNECTED, tcSocket = 3\<rparr> [3, 1] = Some (True, [3, 1])"
    by (simp add: tc_Send_def, subst send_loop.simps) (simp add: fd_os_def to_int32_id to_size_nonneg)
  have connect: "tc_Connect fd_os False [104] p c w = Inr (True, \<lparr>tcStatus = CONNECTED, tcSocket = 3\<rparr>, [3, 1])"
    if "c = tc_new \<and> w = [1] \<or> c = \<lparr>tcStatus = CONNECTED, tcSocket = 3\<rparr> \<and> w = [3, 1]" for p c w
    using that by (auto simp: tc_Connect_def tc_Disconnect_def tc_new_def fd_os_def new_fd_def)
  have "client_run fd_os [CConnect [104] [56], CSend [1], CConnect [104] [57]] (tc_new, [1])
      = Some (Inr (\<lparr>tcStatus = CONNECTED, tcSocket = 3\<rparr>, [3, 1]))"
    by (simp add: client_do_def connect send)
  then show ?thesis using client_closes_every_socket [OF sock_ledger_fd_os] by (fastforce simp: client_sock_def)
qed

definition fd_server :: "int list network" where
  "fd_server = (nw_new \<lparr>nwIP = wlit ''h'', nwName = wlit ''n'', nwPort = 80, nwType = NETWORK_SERVER\<rparr>)
     \<lparr>nwServer := Some \<lparr>svListen = INVALID_SOCKET, svAddr = None, svPort = 80\<rparr>\<rparr>"


text \<open>On Windows a Connect that the peer refuses keeps its socket open: the client is not connected, so
  neither Disconnect nor the destructor closes it.\<close>

lemma windows_refused_Connect_leaks:
  assumes "sock_ledger os v" and "tcStatus c = DISCONNECTED"
    and "os_getaddrinfo os (Some host) port w = ((0, a # as), w1)"
    and "os_socket os (ai_family a) (ai_socktype a) (ai_protocol a) w1 = (s, w2)" and "0 \<le> s"
    and "os_setsockopt os s TCP_NODELAY w2 = (0, w3)" and "os_connect os s (ai_addr a) w3 = (-1, w4)"
  shows "\<exists>c'. tc_Connect os True host port c w = Inr (False, c', w4) \<and> v (tc_destroy os True c' w4) = insert s (v w) \<and> s \<notin> v w"
proof -
  have "v w4 = v w2" using sock_ledger_same(2) [OF assms(1,6)] sock_ledger_same(3) [OF assms(1,7)] by simp
  moreover have "v w1 = v w" by (rule sock_ledger_same(1) [OF assms(1,3)])
  moreover have "opened v w1 (s, w2)" using sock_ledger_open(1) [OF assms(1), of w1] assms(4) by metis
  ultimately have "v w4 = insert s (v w)" "s \<notin> v w" using assms(5) by (simp_all add: opened_def)
  moreover have "tc_Connect os True host port c w = Inr (False, c\<lparr>tcSocket := s\<rparr>, w4)"
    using assms(2-) by (simp add: tc_Connect_def tc_connect_win_def)
  ultimately show ?thesis using assms(2) by (simp add: tc_destroy_def)
qed

end
