(* ===== verification/Ipc_Stop.thy ===== *)
theory Ipc_Stop
  imports Ipc_Win Event_Queue
begin

text \<open>
  The destructor of Ext::IPC::CIPCServer (IPC/EXIPC.cpp) and the threads it joins. CreateIPC runs it
  when it puts a server under a name that is taken, and it runs at the end of the program. After \<open>_isStop = true\<close> and
  \<open>_queue.Stop()\<close> the main thread finishes its pass, which may still put a request into the queue, and
  ends; a worker ends at its next test of \<open>_isStop\<close>, but one that waits in DeQueue needs a notification first.
\<close>

datatype ipc_main = MLoop | MPass | MEnd

record 'a ipc_stop =
  isSys :: "'a qsys"
  isMain :: ipc_main
  isEnded :: "nat set"

definition ipc_stop_start :: "'a qsys \<Rightarrow> ipc_main \<Rightarrow> 'a ipc_stop \<Rightarrow> bool" where
  "ipc_stop_start q m s = (m \<noteq> MEnd \<and> eq_Stop_sys q (isSys s) \<and> isMain s = m \<and> isEnded s = {})"

text \<open>A worker with a value from DeQueue tests \<open>_isStop\<close> at once or after it has served a request.\<close>

inductive ipc_stop_step :: "'a \<Rightarrow> 'a ipc_stop \<Rightarrow> 'a ipc_stop \<Rightarrow> bool" for T where
  inside: "q_inner (eq_DeQueue T) (isSys s) q \<Longrightarrow> ipc_stop_step T s (s\<lparr>isSys := q\<rparr>)"
| finish: "sysPc (isSys s) t = QRet x \<or> sysPc (isSys s) t = QOut \<Longrightarrow> ipc_stop_step T s (s\<lparr>isEnded := insert t (isEnded s)\<rparr>)"
| place: "isMain s = MPass \<Longrightarrow> eq_EnQueue_sys x (isSys s) q \<Longrightarrow> ipc_stop_step T s (s\<lparr>isSys := q, isMain := MLoop\<rparr>)"
| skip: "isMain s = MPass \<Longrightarrow> ipc_stop_step T s (s\<lparr>isMain := MLoop\<rparr>)"
| main_end: "isMain s = MLoop \<Longrightarrow> ipc_stop_step T s (s\<lparr>isMain := MEnd\<rparr>)"

text \<open>The joins of the destructor are over.\<close>

definition ipc_joined :: "nat set \<Rightarrow> 'a ipc_stop \<Rightarrow> bool" where
  "ipc_joined W s = (isMain s = MEnd \<and> W \<subseteq> isEnded s)"

subsection \<open>Waiting workers\<close>

definition asleep :: "nat set \<Rightarrow> 'a qsys \<Rightarrow> nat set" where
  "asleep W q = {t \<in> W. sysPc q t = QWait}"

lemma asleep_notify:
  assumes "finite W" and "notify_one q q'"
  shows "card (asleep W q) \<le> Suc (card (asleep W q')) \<and> sysQ q' = sysQ q"
  using assms(2)
proof cases
  case nobody
  then show ?thesis by simp
next
  case (wake t)
  have "asleep W q \<subseteq> insert t (asleep W q')" using wake by (auto simp: asleep_def)
  moreover have "finite (asleep W q')" using assms(1) by (simp add: asleep_def)
  ultimately have "card (asleep W q) \<le> card (insert t (asleep W q'))" by (intro card_mono) simp_all
  also have "\<dots> \<le> Suc (card (asleep W q'))" by (simp add: card_insert_if \<open>finite (asleep W q')\<close>)
  finally show ?thesis using wake by simp
qed

text \<open>On a stopped queue no thread goes to sleep, and only a notification wakes one.\<close>

lemma asleep_inner:
  assumes "q_inner (eq_DeQueue T) q q'" and "eqStop (sysQ q)"
  shows "asleep W q' = asleep W q" and "sysQ q' = sysQ q"
  using assms by (induction rule: q_inner.induct) (auto simp: asleep_def eq_DeQueue_def)

definition stuck_inv :: "nat set \<Rightarrow> 'a ipc_stop \<Rightarrow> bool" where
  "stuck_inv W s = (eqStop (sysQ (isSys s)) \<and> isEnded s \<inter> asleep W (isSys s) = {}
     \<and> (if isMain s = MPass then 2 else 1) \<le> card (asleep W (isSys s)))"

lemma stuck_inv_step:
  assumes "finite W" and "ipc_stop_step T s s'" and "stuck_inv W s"
  shows "stuck_inv W s'"
  using assms(2,3)
proof (induction rule: ipc_stop_step.induct)
  case (inside s q)
  then show ?case using asleep_inner [OF inside(1)] by (simp add: stuck_inv_def)
next
  case (finish s t x)
  then have "t \<notin> asleep W (isSys s)" by (auto simp: asleep_def)
  then show ?case using finish by (simp add: stuck_inv_def)
next
  case (place s x q)
  let ?q = "isSys s\<lparr>sysQ := eq_EnQueue x (sysQ (isSys s))\<rparr>"
  have n: "notify_one ?q q" using place(2) by (simp add: eq_EnQueue_sys_def)
  have a: "asleep W ?q = asleep W (isSys s)" by (simp add: asleep_def)
  have "asleep W q \<subseteq> asleep W (isSys s)" using n by cases (auto simp: asleep_def split: if_splits)
  then show ?case using place(1,3) asleep_notify [OF assms(1) n] a by (auto simp: stuck_inv_def eq_EnQueue_def)
qed (auto simp: stuck_inv_def split: if_splits)

text \<open>The destructor of a server hangs when three of its workers or more wait for requests (the default
  is nine workers): Stop wakes one of them and a request that the main thread puts into the queue in its last
  pass another one; the rest sleep on, so the joins never end. \<open>W\<close> are the workers.\<close>

lemma ipc_destructor_hangs:
  assumes "finite W" and "3 \<le> card {t \<in> W. sysPc q t = QWait}" and "ipc_stop_start q m s"
    and "(ipc_stop_step T)\<^sup>*\<^sup>* s s'"
  shows "\<not> ipc_joined W s'"
proof -
  let ?q = "q\<lparr>sysQ := eq_Stop (sysQ q)\<rparr>"
  have n: "notify_one ?q (isSys s)" using assms(3) by (simp add: ipc_stop_start_def eq_Stop_sys_def)
  have "asleep W ?q = {t \<in> W. sysPc q t = QWait}" by (simp add: asleep_def)
  then have "stuck_inv W s"
    using asleep_notify [OF assms(1) n] assms(2,3) by (auto simp: stuck_inv_def ipc_stop_start_def eq_Stop_def)
  with assms(4) have "stuck_inv W s'" by (induction rule: rtranclp_induct) (auto intro: stuck_inv_step [OF assms(1)])
  then have "asleep W (isSys s') \<noteq> {}" "isEnded s' \<inter> asleep W (isSys s') = {}"
    by (auto simp: stuck_inv_def split: if_splits)
  then show ?thesis by (auto simp: ipc_joined_def asleep_def)
qed

text \<open>When no worker sleeps any more the joins can end from every state the threads get into.\<close>

lemma ended_progress:
  assumes "finite U" and "isMain s = MEnd" and "eqStop (sysQ (isSys s))" and "\<And>t. sysPc (isSys s) t \<noteq> QWait"
  shows "\<exists>s'. (ipc_stop_step T)\<^sup>*\<^sup>* s s' \<and> isMain s' = MEnd \<and> U \<union> isEnded s \<subseteq> isEnded s'"
  using assms
proof (induction U arbitrary: s)
  case empty
  then show ?case by blast
next
  case (insert t U)
  obtain s1 where s1: "(ipc_stop_step T)\<^sup>*\<^sup>* s s1" "isMain s1 = MEnd" "eqStop (sysQ (isSys s1))"
    "\<And>u. sysPc (isSys s1) u \<noteq> QWait" "insert t (isEnded s) \<subseteq> isEnded s1"
  proof (cases "\<exists>x. sysPc (isSys s) t = QRet x \<or> sysPc (isSys s) t = QOut")
    case True
    then have "ipc_stop_step T s (s\<lparr>isEnded := insert t (isEnded s)\<rparr>)" by (auto intro: ipc_stop_step.finish)
    then show ?thesis using insert.prems by (intro that [of "s\<lparr>isEnded := insert t (isEnded s)\<rparr>"]) auto
  next
    case False
    then have r: "sysPc (isSys s) t = QReady" using insert.prems(3) [of t] by (cases "sysPc (isSys s) t") auto
    have d: "eq_DeQueue T (sysQ (isSys s)) = Some (T, sysQ (isSys s))" using insert.prems(2) by (simp add: eq_DeQueue_def)
    let ?q = "(isSys s)\<lparr>sysQ := sysQ (isSys s), sysPc := (sysPc (isSys s))(t := QRet T)\<rparr>"
    let ?s = "s\<lparr>isSys := ?q\<rparr>"
    have 1: "ipc_stop_step T s ?s" by (rule ipc_stop_step.inside, rule q_inner.comeback [where deq = "eq_DeQueue T", OF r]) (rule d)
    have 2: "ipc_stop_step T ?s (?s\<lparr>isEnded := insert t (isEnded ?s)\<rparr>)" by (rule ipc_stop_step.finish) simp
    have "(ipc_stop_step T)\<^sup>*\<^sup>* s (?s\<lparr>isEnded := insert t (isEnded ?s)\<rparr>)"
      by (rule rtranclp.rtrancl_into_rtrancl [of "ipc_stop_step T", OF r_into_rtranclp [of "ipc_stop_step T", OF 1] 2])
    then show ?thesis using insert.prems by (intro that [of "?s\<lparr>isEnded := insert t (isEnded ?s)\<rparr>"]) auto
  qed
  from insert.IH [OF s1(2-4)] obtain s' where "(ipc_stop_step T)\<^sup>*\<^sup>* s1 s'" "isMain s' = MEnd" "U \<union> isEnded s1 \<subseteq> isEnded s'"
    by blast
  then show ?case using s1(1,5) by (intro exI [of _ s']) auto
qed

lemma ipc_destructor_can_end:
  assumes "finite W" and "eqStop (sysQ (isSys s))" and "\<And>t. sysPc (isSys s) t \<noteq> QWait"
  shows "\<exists>s'. (ipc_stop_step T)\<^sup>*\<^sup>* s s' \<and> ipc_joined W s'"
proof -
  have "(ipc_stop_step T)\<^sup>*\<^sup>* s (s\<lparr>isMain := MEnd\<rparr>)"
  proof (cases "isMain s")
    case MLoop
    then show ?thesis by (intro r_into_rtranclp ipc_stop_step.main_end)
  next
    case MPass
    have "ipc_stop_step T s (s\<lparr>isMain := MLoop\<rparr>)" using MPass by (rule ipc_stop_step.skip)
    moreover have "ipc_stop_step T (s\<lparr>isMain := MLoop\<rparr>) (s\<lparr>isMain := MEnd\<rparr>)"
      using ipc_stop_step.main_end [of "s\<lparr>isMain := MLoop\<rparr>" T] by simp
    ultimately show ?thesis by (rule rtranclp.rtrancl_into_rtrancl [OF r_into_rtranclp])
  next
    case MEnd
    then have "s\<lparr>isMain := MEnd\<rparr> = s" by simp
    then show ?thesis by simp
  qed
  moreover obtain s' where "(ipc_stop_step T)\<^sup>*\<^sup>* (s\<lparr>isMain := MEnd\<rparr>) s'" "ipc_joined W s'"
    using ended_progress [OF assms(1), of "s\<lparr>isMain := MEnd\<rparr>" T] assms(2,3) by (auto simp: ipc_joined_def)
  ultimately show ?thesis by (meson rtranclp_trans)
qed

text \<open>A server with the default number of workers, all waiting, whose main thread sleeps.\<close>

lemma ipc_destructor_hangs_default:
  assumes "ipc_stop_start \<lparr>sysQ = q, sysPc = \<lambda>_. QWait\<rparr> MLoop s" and "(ipc_stop_step T)\<^sup>*\<^sup>* s s'"
  shows "\<not> ipc_joined {0..<start_workers 10} s'"
  by (rule ipc_destructor_hangs [OF _ _ assms]) (simp_all add: start_workers_def)

end
