(* ===== verification/X_Search.thy ===== *)
theory X_Search
  imports X_String
begin

text \<open>
  The searching members of XString (String/EXString.cpp) against one reference, the set of positions
  at which a text stands in a string, and split as the inverse of joining.
\<close>

definition occurrences :: "'a list \<Rightarrow> 'a list \<Rightarrow> nat set" where
  "occurrences s f = {p. p \<le> length s \<and> prefix f (drop p s)}"

lemma finite_occurrences [simp]: "finite (occurrences s f)"
  by (rule finite_subset [of _ "{..length s}"]) (auto simp: occurrences_def)

lemma occurrences_sublist: "occurrences s f \<noteq> {} \<longleftrightarrow> sublist f s"
proof
  assume "occurrences s f \<noteq> {}"
  then obtain p where "prefix f (drop p s)" by (auto simp: occurrences_def)
  then show "sublist f s" by (metis prefixE sublist_appendI append_take_drop_id)
next
  assume "sublist f s"
  then obtain a b where "s = a @ f @ b" by (auto simp: sublist_def)
  then have "length a \<in> occurrences s f" by (simp add: occurrences_def)
  then show "occurrences s f \<noteq> {}" by blast
qed

lemma occurrences_Cons:
  "occurrences (x # xs) f = (if prefix f (x # xs) then {0} else {}) \<union> Suc ` occurrences xs f"
proof -
  have "p \<in> occurrences (x # xs) f \<longleftrightarrow> p \<in> (if prefix f (x # xs) then {0} else {}) \<union> Suc ` occurrences xs f" for p
    by (cases p) (auto simp: occurrences_def)
  then show ?thesis by blast
qed

lemma wfind_occurrences: "wfind s f 0 = (if occurrences s f = {} then None else Some (Min (occurrences s f)))"
proof (cases "wfind s f 0")
  case None
  then show ?thesis using occurrences_sublist [of s f] by (simp add: wfind_None)
next
  case (Some p)
  then have f: "find_at f s 0 = Some p" by (simp add: wfind_def)
  note * = find_at_Some [OF f]
  have p: "p \<in> occurrences s f" using wfind_Some(2,3) [OF Some] by (simp add: occurrences_def)
  have "p \<le> q" if "q \<in> occurrences s f" for q
    using * that by (cases "q < p") (auto simp: occurrences_def)
  then have "Min (occurrences s f) = p" using p by (intro Min_eqI) auto
  then show ?thesis using Some p by auto
qed

lemma Max_Suc_image: "finite A \<Longrightarrow> A \<noteq> {} \<Longrightarrow> Max (Suc ` A) = Suc (Max A)"
  by (rule mono_Max_commute [symmetric]) (simp_all add: mono_def)

lemma wrfind_occurrences: "wrfind s f = (if occurrences s f = {} then None else Some (Max (occurrences s f)))"
proof (induction s)
  case Nil
  have "occurrences [] f = (if f = [] then {0} else {})" by (auto simp: occurrences_def)
  then show ?case by simp
next
  case (Cons x xs)
  show ?case
  proof (cases "occurrences xs f = {}")
    case True
    then show ?thesis using Cons by (simp add: occurrences_Cons)
  next
    case False
    then have "Max (insert 0 (Suc ` occurrences xs f)) = Suc (Max (occurrences xs f))"
      by (simp add: Max_Suc_image)
    then show ?thesis using Cons False by (simp add: occurrences_Cons Max_Suc_image)
  qed
qed

lemma count_le_occurrences:
  assumes f: "f \<noteq> []"
  shows "length (fst (chunks f s)) \<le> card (occurrences s f)"
  using f
proof (induction s rule: chunks_induct)
  case (none s)
  then show ?case by (simp add: chunks_None)
next
  case (found s p)
  let ?k = "p + length f" and ?r = "drop (p + length f) s"
  have le: "?k \<le> length s" by (rule wfind_Some(2) [OF found(1)])
  have "p \<in> occurrences s f" using wfind_Some(2,3) [OF found(1)] by (simp add: occurrences_def)
  moreover have "(+) ?k ` occurrences ?r f \<subseteq> occurrences s f" using le by (auto simp: occurrences_def add.commute)
  ultimately have "insert p ((+) ?k ` occurrences ?r f) \<subseteq> occurrences s f" by simp
  from card_mono [OF finite_occurrences this] have "card (insert p ((+) ?k ` occurrences ?r f)) \<le> card (occurrences s f)" .
  moreover have "p \<notin> (+) ?k ` occurrences ?r f" using f by (cases f) auto
  moreover have "card ((+) ?k ` occurrences ?r f) = card (occurrences ?r f)" by (rule card_image) simp
  ultimately show ?case using found(2) by (simp add: chunks_Some [OF f found(1)])
qed

lemma chunks_Nil_iff: "f \<noteq> [] \<Longrightarrow> fst (chunks f s) = [] \<longleftrightarrow> occurrences s f = {}"
  by (cases "wfind s f 0") (simp_all add: chunks_None chunks_Some wfind_occurrences split: if_splits)

lemma c_str_of_id: "0 \<notin> set s \<Longrightarrow> c_str_of s = s"
  by (auto simp: c_str_of_def takeWhile_eq_all_conv)

subsection \<open>Joining\<close>

lemma wfind_piece:
  assumes "c \<notin> set p"
  shows "wfind (p @ c # r) [c] 0 = Some (length p)"
proof -
  have "find_at [c] (p @ c # r) i = Some (i + length p)" for i
    using assms by (induction p arbitrary: i) auto
  then show ?thesis by (simp add: wfind_def)
qed

lemma chunks_of_join:
  assumes "\<forall>p \<in> set ps. c \<notin> set p" and "c \<notin> set rest"
  shows "chunks [c] (concat (map (\<lambda>p. p @ [c]) ps) @ rest) = (ps, rest)"
  using assms(1)
proof (induction ps)
  case Nil
  have "wfind rest [c] 0 = None" using assms(2) by (auto simp: wfind_None sublist_def)
  then show ?case by (simp add: chunks_None)
next
  case (Cons p ps)
  then have w: "wfind (p @ c # concat (map (\<lambda>p. p @ [c]) ps) @ rest) [c] 0 = Some (length p)" by (simp add: wfind_piece)
  show ?case using Cons chunks_Some [OF _ w] by simp
qed

subsection \<open>Properties\<close>



text \<open>C22: split by one character gives back the pieces that were joined with it: for any pieces without the
  character, each followed by it, and any rest without it.\<close>

theorem split_of_join:
  assumes "\<forall>p \<in> set ps. c \<notin> set p" and "c \<notin> set rest"
  shows "xs_split (concat (map (\<lambda>p. p @ [c]) ps) @ rest) [c] = Some ps
    \<and> xs_replaceAll (concat (map (\<lambda>p. p @ [c]) ps) @ rest) [c] d = Some (concat (map (\<lambda>p. p @ d) ps) @ rest)"
  using chunks_of_join [OF assms] by (simp add: xs_split_chunks xs_replaceAll_chunks)

theorem split_of_join_witness:
  "xs_split (wlit ''a,bc,,d'') (wlit '','') = Some [wlit ''a'', wlit ''bc'', []]"
  using split_of_join [of "[wlit ''a'', wlit ''bc'', []]" 44 "wlit ''d''"] by (simp add: wlit_def)

end
