(* ===== verification/X_Text.thy ===== *)
theory X_Text
  imports X_String
begin

text \<open>
  The rest of XString and of the converter (String/EXString.hpp, String/EXConverter.cpp): the C strings that the converter
  allocates, the overloads for floating-point numbers and string streams, and the order of XString. A new[] array
  is the list of its elements, \<open>None\<close> while an element has no value. Parameters are mbstowcs (the wide characters up to the first
  invalid sequence, and whether there is none), the code pages (\<open>acp\<close> and \<open>utf8\<close>), and std::to_wstring of a double.
\<close>

subsection \<open>C strings\<close>

text \<open>mbstowcs writes at most \<open>cSize\<close> elements; it leaves what is behind its output alone.\<close>

definition c2wc :: "(byte list \<Rightarrow> xstring \<times> bool) \<Rightarrow> byte list \<Rightarrow> wchar option list" where
  "c2wc mbs c =
     (let s = takeWhile (\<lambda>b. b \<noteq> 0) c; cSize = length s + 1; (ws, ok) = mbs s;
          out = take cSize (map Some ws @ (if ok then [Some 0] else []))
      in out @ replicate (cSize - length out) None)"

text \<open>WideCharToMultiByte with -1 converts the terminator too. When the buffer is too small it fails, and what is in the
  buffer has no defined value.\<close>

definition wc2c :: "(xstring \<Rightarrow> byte list) \<Rightarrow> (xstring \<Rightarrow> byte list) \<Rightarrow> xstring \<Rightarrow> byte option list" where
  "wc2c acp utf8 wc =
     (let s = c_str_of wc; size_needed = length (acp s) + 1; out = utf8 s @ [0]
      in if length out \<le> size_needed then map Some out @ replicate (size_needed - length out) None
         else replicate size_needed None)"

text \<open>Reading a C string from such an array: \<open>None\<close> when it runs into an element without a value or past the end.\<close>

fun c_read :: "'a::zero option list \<Rightarrow> 'a list option" where
  "c_read [] = None"
| "c_read (None # xs) = None"
| "c_read (Some c # xs) = (if c = 0 then Some [] else map_option (Cons c) (c_read xs))"

lemma c_read_text: "0 \<notin> set s \<Longrightarrow> c_read (map Some s @ Some 0 # xs) = Some s"
  by (induction s) auto

text \<open>A wide character comes from at least one byte, so the array of \<open>c2wc\<close> has room for the terminator.\<close>

lemma c2wc_read:
  assumes "0 \<notin> set s" and "mbs s = (ws, True)" and "length ws \<le> length s" and "0 \<notin> set ws"
  shows "c_read (c2wc mbs (s @ 0 # rest)) = Some ws"
proof -
  have "takeWhile (\<lambda>b. b \<noteq> 0) (s @ 0 # rest) = s" using assms(1) by (induction s) auto
  then have "c2wc mbs (s @ 0 # rest) = map Some ws @ Some 0 # replicate (length s - length ws) None"
    using assms(2,3) by (simp add: c2wc_def Let_def)
  then show ?thesis using assms(4) by (simp add: c_read_text)
qed

text \<open>An invalid sequence leaves the array without a terminator.\<close>

lemma c2wc_invalid:
  assumes "0 \<notin> set s" and "mbs s = (ws, False)" and "length ws \<le> length s" and "0 \<notin> set ws"
  shows "c_read (c2wc mbs (s @ 0 # rest)) = None"
proof -
  have "takeWhile (\<lambda>b. b \<noteq> 0) (s @ 0 # rest) = s" using assms(1) by (induction s) auto
  then have "c2wc mbs (s @ 0 # rest) = map Some ws @ None # replicate (length s - length ws) None"
    using assms(2,3) by (simp add: c2wc_def Let_def Suc_diff_le)
  moreover have "c_read (map Some ws @ None # xs) = None" for xs using assms(4) by (induction ws) auto
  ultimately show ?thesis by simp
qed

text \<open>The array of \<open>wc2c\<close> has the size of the text in the code page of the system but gets its UTF-8: it holds the
  text exactly when the UTF-8 is not longer, and no string at all otherwise.\<close>

lemma wc2c_read:
  assumes "0 \<notin> set (utf8 (c_str_of wc))"
  shows "c_read (wc2c acp utf8 wc)
    = (if length (utf8 (c_str_of wc)) \<le> length (acp (c_str_of wc)) then Some (utf8 (c_str_of wc)) else None)"
  using assms by (simp add: wc2c_def Let_def c_read_text)

text \<open>A letter with an accent: one byte in a western code page, two in UTF-8.\<close>

lemma wc2c_accent: "c_read (wc2c (map ucast) (\<lambda>s. concat (map (\<lambda>c. [195, ucast (c - 64)]) s)) [233]) = None"
  by (simp add: wc2c_read c_str_of_def)

subsection \<open>Overloads\<close>

definition xs_of_double :: "('d \<Rightarrow> xstring) \<Rightarrow> 'd \<Rightarrow> xstring" where
  "xs_of_double dbl d = dbl d"

definition xs_append_double :: "('d \<Rightarrow> xstring) \<Rightarrow> xstring \<Rightarrow> 'd \<Rightarrow> xstring" where
  "xs_append_double dbl s d = s @ dbl d"

text \<open>A string stream is its text.\<close>

definition xs_of_stream :: "xstring \<Rightarrow> xstring" where
  "xs_of_stream ws = ws"

definition xs_assign_stream :: "xstring \<Rightarrow> xstring \<Rightarrow> xstring" where
  "xs_assign_stream old ws = ws"

subsection \<open>The order\<close>

text \<open>The defaulted operator of \<open>XString\<close> compares the member.\<close>

definition xs_spaceship :: "xstring \<Rightarrow> xstring \<Rightarrow> int" where
  "xs_spaceship a b = wcompare a b"

lemma wcompare_signs: "wcompare a b < 0 \<longleftrightarrow> a < b" "wcompare a b = 0 \<longleftrightarrow> a = b" "wcompare a b > 0 \<longleftrightarrow> b < a"
  by (auto simp: wcompare_def)

text \<open>compare and the operators are one total order, without regard to case a preorder on the texts up to their first NUL.\<close>

lemma xs_compare_order:
  "xs_compare a b ci = - xs_compare b a ci"
  "xs_compare a b ci \<le> 0 \<Longrightarrow> xs_compare b c ci \<le> 0 \<Longrightarrow> xs_compare a c ci \<le> 0"
  "xs_compare a b False = xs_spaceship a b"
  "xs_compare a b True = 0 \<longleftrightarrow> c_str_of (xs_toLower a) = c_str_of (xs_toLower b)"
  "xs_eq a b \<longleftrightarrow> xs_spaceship a b = 0"
  by (auto simp: xs_compare_def wcompare_def xs_spaceship_def xs_eq_def split: if_splits)

end
