(* ===== verification/Unix_Handles.thy ===== *)
theory Unix_Handles
  imports Ipc_Unix
begin

text \<open>
  The descriptors, semaphores and mappings behind IPC/EXIPC_unix.cpp: the functions that open and clean up, the
  classes CIPCShm, CIPCSem and CIPCMmap that own what they open, and CreateIPC and DestroyIPC over them. The
  calls of the system are the record \<open>uh\<close> on a world \<open>'w\<close>; a semaphore is its address, \<open>None\<close> stands for SEM_FAILED
  and MAP_FAILED. What is written to the memory is in \<open>Ipc_Unix\<close>. \<open>ex\<close> is isExistIPC on the map of the process.
\<close>

record 'w uh =
  uh_shm_open :: "uname \<Rightarrow> bool \<Rightarrow> 'w \<Rightarrow> int \<times> 'w"
  uh_ftruncate :: "int \<Rightarrow> nat \<Rightarrow> 'w \<Rightarrow> trunc_res \<times> 'w"
  uh_close :: "int \<Rightarrow> 'w \<Rightarrow> 'w"
  uh_shm_unlink :: "uname \<Rightarrow> 'w \<Rightarrow> 'w"
  uh_sem_open :: "uname \<Rightarrow> bool \<Rightarrow> 'w \<Rightarrow> nat option \<times> 'w"
  uh_sem_close :: "nat \<Rightarrow> 'w \<Rightarrow> 'w"
  uh_sem_unlink :: "uname \<Rightarrow> 'w \<Rightarrow> 'w"
  uh_mmap :: "int \<Rightarrow> nat \<Rightarrow> 'w \<Rightarrow> nat option \<times> 'w"
  uh_munmap :: "nat \<Rightarrow> nat \<Rightarrow> 'w \<Rightarrow> 'w"

subsection \<open>Results\<close>

datatype eIPCResult =
    IPC_RESULT_UNKNOWN
  | IPC_RESULT_SUCCESS
  | IPC_RESULT_FAILED_IPC_NAME_EXIST
  | IPC_RESULT_SKIP_TERMINATE_CLIENT
  | IPC_RESULT_SKIP_NOT_REQUEST
  | IPC_RESULT_SKIP_EMPTY_RESPONSE
  | IPC_RESULT_FAILED_TIMEOUT
  | IPC_RESULT_FAILED_SERVER_NOT_OPEN
  | IPC_RESULT_SHM_CREATE_FAILED
  | IPC_RESULT_TRUNCATE_FAILED
  | IPC_RESULT_SHM_OPEN_FAILED
  | IPC_RESULT_SEM_CREATE_FAILED
  | IPC_RESULT_SEM_OPEN_FAILED
  | IPC_RESULT_MMAP_OPEN_FAILED

definition IPC_RESULT_STRING :: "(eIPCResult \<times> string) list" where
  "IPC_RESULT_STRING =
     [(IPC_RESULT_UNKNOWN, ''Unknown error''), (IPC_RESULT_SUCCESS, ''Success''),
      (IPC_RESULT_FAILED_IPC_NAME_EXIST, ''IPC name already exists''),
      (IPC_RESULT_SKIP_TERMINATE_CLIENT, ''Skip: Client process terminated''),
      (IPC_RESULT_SKIP_NOT_REQUEST, ''Skip: No request available''),
      (IPC_RESULT_SKIP_EMPTY_RESPONSE, ''Skip: Empty response''),
      (IPC_RESULT_FAILED_TIMEOUT, ''Operation timed out''), (IPC_RESULT_FAILED_SERVER_NOT_OPEN, ''Server is not open''),
      (IPC_RESULT_SHM_CREATE_FAILED, ''Failed to create shared memory''),
      (IPC_RESULT_TRUNCATE_FAILED, ''Failed to truncate shared memory''),
      (IPC_RESULT_SHM_OPEN_FAILED, ''Failed to open shared memory''),
      (IPC_RESULT_SEM_CREATE_FAILED, ''Failed to create semaphore''),
      (IPC_RESULT_SEM_OPEN_FAILED, ''Failed to open semaphore''),
      (IPC_RESULT_MMAP_OPEN_FAILED, ''Failed to open memory mapping'')]"

definition GetIPCStrError :: "eIPCResult \<Rightarrow> string" where
  "GetIPCStrError err = (case map_of IPC_RESULT_STRING err of Some s \<Rightarrow> s | None \<Rightarrow> [])"

text \<open>The two globals of the file. The last result is set by openMmapIPC only, when it gets no descriptor.\<close>

record ipc_globals =
  igLogging :: bool
  igLast :: eIPCResult

definition setIPCLastError :: "eIPCResult \<Rightarrow> ipc_globals \<Rightarrow> ipc_globals" where
  "setIPCLastError err g = g\<lparr>igLast := err\<rparr>"

definition SetLoggingIPC :: "bool \<Rightarrow> ipc_globals \<Rightarrow> ipc_globals" where
  "SetLoggingIPC isLogging g = g\<lparr>igLogging := isLogging\<rparr>"

definition mmap_result :: "int \<Rightarrow> ipc_globals \<Rightarrow> ipc_globals" where
  "mmap_result nShmfd g = (if nShmfd = -1 then setIPCLastError IPC_RESULT_SHM_OPEN_FAILED g else g)"

text \<open>Every result has a text.\<close>

lemma GetIPCStrError_text: "GetIPCStrError err \<noteq> []"
  by (cases err) (simp_all add: GetIPCStrError_def IPC_RESULT_STRING_def)

subsection \<open>The functions\<close>

definition h_cleanupIPC :: "'w uh \<Rightarrow> uname \<Rightarrow> int \<Rightarrow> nat option \<Rightarrow> 'w \<Rightarrow> 'w" where
  "h_cleanupIPC uh sIPCName shmfd sem w =
     (let w1 = (if shmfd \<noteq> -1
            then (let w' = uh_close uh shmfd w in if sIPCName \<noteq> [] then uh_shm_unlink uh sIPCName w' else w')
            else w)
      in case sem of
          None \<Rightarrow> w1
        | Some h \<Rightarrow> (let w' = uh_sem_close uh h w1 in if sIPCName \<noteq> [] then uh_sem_unlink uh sIPCName w' else w'))"

definition h_openMmapIPC :: "'w uh \<Rightarrow> int \<Rightarrow> nat \<Rightarrow> 'w \<Rightarrow> nat option \<times> 'w" where
  "h_openMmapIPC uh nShmfd sz w = (if nShmfd = -1 then (None, w) else uh_mmap uh nShmfd sz w)"

definition h_createShmIPC :: "'w uh \<Rightarrow> (uname \<Rightarrow> bool) \<Rightarrow> uname \<Rightarrow> 'w \<Rightarrow> int \<times> 'w" where
  "h_createShmIPC uh ex sIPCName w =
     (if ex sIPCName then (-1, w)
      else let (nShmfd, w1) = uh_shm_open uh sIPCName True w in
        if nShmfd = -1 then (-1, w1)
        else let (t, w2) = uh_ftruncate uh nShmfd UNIX_SIZE w1 in
          if t = TFail then (-1, h_cleanupIPC uh sIPCName nShmfd None w2) else (nShmfd, w2))"

definition h_openShmIPC :: "'w uh \<Rightarrow> uname \<Rightarrow> 'w \<Rightarrow> int \<times> 'w" where
  "h_openShmIPC uh sIPCName w = uh_shm_open uh sIPCName False w"

definition h_createSemIPC :: "'w uh \<Rightarrow> uname \<Rightarrow> 'w \<Rightarrow> nat option \<times> 'w" where
  "h_createSemIPC uh sIPCName w =
     (let (sem, w1) = uh_sem_open uh sIPCName True (uh_sem_unlink uh sIPCName w) in
      (sem, if sem = None then h_cleanupIPC uh sIPCName (-1) None w1 else w1))"

definition h_openSemIPC :: "'w uh \<Rightarrow> uname \<Rightarrow> 'w \<Rightarrow> nat option \<times> 'w" where
  "h_openSemIPC uh sIPCName w =
     (let (sem, w1) = uh_sem_open uh sIPCName False w in
      (sem, if sem = None then h_cleanupIPC uh sIPCName (-1) None w1 else w1))"

subsection \<open>The classes\<close>

record ipc_shm =
  ohName :: uname
  ohFd :: int
  ohDelete :: bool

record ipc_sem =
  osName :: uname
  osSem :: "nat option"
  osDelete :: bool

record ipc_map =
  omData :: "nat option"
  omSize :: nat
  omFd :: int

definition oh_new :: "uname \<Rightarrow> bool \<Rightarrow> ipc_shm" where
  "oh_new n del = \<lparr>ohName = n, ohFd = -1, ohDelete = del\<rparr>"

definition oh_Create :: "'w uh \<Rightarrow> (uname \<Rightarrow> bool) \<Rightarrow> ipc_shm \<Rightarrow> 'w \<Rightarrow> int \<times> ipc_shm \<times> 'w" where
  "oh_Create uh ex s w = (let (fd, w') = h_createShmIPC uh ex (ohName s) w in (fd, s\<lparr>ohFd := fd\<rparr>, w'))"

definition oh_Open :: "'w uh \<Rightarrow> ipc_shm \<Rightarrow> 'w \<Rightarrow> int \<times> ipc_shm \<times> 'w" where
  "oh_Open uh s w = (let (fd, w') = h_openShmIPC uh (ohName s) w in (fd, s\<lparr>ohFd := fd\<rparr>, w'))"

definition oh_Close :: "'w uh \<Rightarrow> ipc_shm \<Rightarrow> 'w \<Rightarrow> ipc_shm \<times> 'w" where
  "oh_Close uh s w = (if ohFd s \<noteq> -1 then (s\<lparr>ohFd := -1\<rparr>, uh_close uh (ohFd s) w) else (s, w))"

definition oh_Destroy :: "'w uh \<Rightarrow> ipc_shm \<Rightarrow> 'w \<Rightarrow> ipc_shm \<times> 'w" where
  "oh_Destroy uh s w =
     (let (s', w') = oh_Close uh s w in (s', if ohName s' \<noteq> [] then uh_shm_unlink uh (ohName s') w' else w'))"

definition oh_end :: "'w uh \<Rightarrow> ipc_shm \<Rightarrow> 'w \<Rightarrow> 'w" where
  "oh_end uh s w = snd (if ohDelete s then oh_Destroy uh s w else oh_Close uh s w)"

definition os_new :: "uname \<Rightarrow> bool \<Rightarrow> ipc_sem" where
  "os_new n del = \<lparr>osName = n, osSem = None, osDelete = del\<rparr>"

definition os_Create :: "'w uh \<Rightarrow> ipc_sem \<Rightarrow> 'w \<Rightarrow> nat option \<times> ipc_sem \<times> 'w" where
  "os_Create uh s w = (let (h, w') = h_createSemIPC uh (osName s) w in (h, s\<lparr>osSem := h\<rparr>, w'))"

definition os_Open :: "'w uh \<Rightarrow> ipc_sem \<Rightarrow> 'w \<Rightarrow> nat option \<times> ipc_sem \<times> 'w" where
  "os_Open uh s w = (let (h, w') = h_openSemIPC uh (osName s) w in (h, s\<lparr>osSem := h\<rparr>, w'))"

definition os_Close :: "'w uh \<Rightarrow> ipc_sem \<Rightarrow> 'w \<Rightarrow> ipc_sem \<times> 'w" where
  "os_Close uh s w = (case osSem s of None \<Rightarrow> (s, w) | Some h \<Rightarrow> (s\<lparr>osSem := None\<rparr>, uh_sem_close uh h w))"

definition os_Destroy :: "'w uh \<Rightarrow> ipc_sem \<Rightarrow> 'w \<Rightarrow> ipc_sem \<times> 'w" where
  "os_Destroy uh s w =
     (let (s', w') = os_Close uh s w in (s', if osName s' \<noteq> [] then uh_sem_unlink uh (osName s') w' else w'))"

definition os_end :: "'w uh \<Rightarrow> ipc_sem \<Rightarrow> 'w \<Rightarrow> 'w" where
  "os_end uh s w = snd (if osDelete s then os_Destroy uh s w else os_Close uh s w)"

definition om_new :: "int \<Rightarrow> ipc_map" where
  "om_new nShmfd = \<lparr>omData = None, omSize = 0, omFd = nShmfd\<rparr>"

definition om_Open :: "'w uh \<Rightarrow> nat \<Rightarrow> ipc_map \<Rightarrow> 'w \<Rightarrow> nat option \<times> ipc_map \<times> 'w" where
  "om_Open uh sz m w =
     (if omData m \<noteq> None then (omData m, m, w)
      else let (p, w') = h_openMmapIPC uh (omFd m) sz w; m1 = m\<lparr>omData := p\<rparr> in
        (p, if p \<noteq> None then m1\<lparr>omSize := sz\<rparr> else m1, w'))"

definition om_Close :: "'w uh \<Rightarrow> ipc_map \<Rightarrow> 'w \<Rightarrow> ipc_map \<times> 'w" where
  "om_Close uh m w =
     (case omData m of None \<Rightarrow> (m, w) | Some p \<Rightarrow> (m\<lparr>omData := None, omSize := 0\<rparr>, uh_munmap uh p (omSize m) w))"

definition om_end :: "'w uh \<Rightarrow> ipc_map \<Rightarrow> 'w \<Rightarrow> 'w" where
  "om_end uh m w = snd (om_Close uh m w)"

subsection \<open>CreateIPC and DestroyIPC\<close>

text \<open>The objects of CreateIPC end in the reverse order of their declarations, on each way out; the mapping
  belongs to none of them. The server's own objects are made by its thread.\<close>

definition h_CreateIPC :: "'w uh \<Rightarrow> (uname \<Rightarrow> bool) \<Rightarrow> uname \<Rightarrow> 'w \<Rightarrow> bool \<times> 'w" where
  "h_CreateIPC uh ex sIPCName w =
     (let (fd, shmfd, w1) = oh_Create uh ex (oh_new sIPCName False) w in
      if fd = -1 then (False, oh_end uh shmfd w1)
      else case h_openMmapIPC uh (ohFd shmfd) UNIX_SIZE w1 of
          (None, w2) \<Rightarrow> (False, oh_end uh shmfd w2)
        | (Some p, w2) \<Rightarrow>
            (let (fd', dataShmfd, w3) = oh_Create uh ex (oh_new (getDataIPCName sIPCName) False) w2 in
             if fd' = -1 then (False, oh_end uh shmfd (oh_end uh dataShmfd w3))
             else let (h, sem, w4) = os_Create uh (os_new sIPCName False) w3 in
               if h = None then (False, oh_end uh shmfd (oh_end uh dataShmfd (os_end uh sem w4)))
               else let (h', semData, w5) = os_Create uh (os_new (getDataIPCName sIPCName) False) w4 in
                 if h' = None
                 then (False, oh_end uh shmfd (oh_end uh dataShmfd (os_end uh sem (os_end uh semData w5))))
                 else let (semData', w6) = os_Close uh semData w5 in
                   (True, oh_end uh shmfd (oh_end uh dataShmfd (os_end uh sem (os_end uh semData' w6))))))"

text \<open>DestroyIPC of a name of the map, up to the destructor of the server. The order of the two Open calls among
  the arguments of cleanupIPC is the compiler's; here the shared memory comes first.\<close>

definition h_DestroyIPC :: "'w uh \<Rightarrow> uname \<Rightarrow> uname \<Rightarrow> 'w \<Rightarrow> 'w" where
  "h_DestroyIPC uh sIPCName sData w =
     (let (fd, shmfd, w1) = oh_Open uh (oh_new sIPCName False) w;
          (h, sem, w2) = os_Open uh (os_new sIPCName False) w1;
          w3 = h_cleanupIPC uh sIPCName fd h w2;
          (fd', dataShmfd, w4) = oh_Open uh (oh_new sData False) w3;
          (h', dataSem, w5) = os_Open uh (os_new sData False) w4;
          w6 = h_cleanupIPC uh sData fd' h' w5
      in oh_end uh shmfd (os_end uh sem (oh_end uh dataShmfd (os_end uh dataSem w6))))"

subsection \<open>What is open\<close>

text \<open>The descriptors, the matched sem_open calls of each semaphore, and the mappings of a process. The hypothesis
  is the documented behaviour of the calls: closing what is not open changes nothing.\<close>

record handles =
  hFds :: "int set"
  hSems :: "nat \<Rightarrow> nat"
  hMaps :: "nat set"

definition fd_opened :: "('w \<Rightarrow> handles) \<Rightarrow> 'w \<Rightarrow> int \<times> 'w \<Rightarrow> bool" where
  "fd_opened v w r =
     (if fst r = -1 then v (snd r) = v w
      else fst r \<notin> hFds (v w) \<and> v (snd r) = (v w)\<lparr>hFds := insert (fst r) (hFds (v w))\<rparr>)"

definition sem_opened :: "('w \<Rightarrow> handles) \<Rightarrow> 'w \<Rightarrow> nat option \<times> 'w \<Rightarrow> bool" where
  "sem_opened v w r =
     (v (snd r) = (case fst r of None \<Rightarrow> v w | Some h \<Rightarrow> (v w)\<lparr>hSems := (hSems (v w))(h := hSems (v w) h + 1)\<rparr>))"

definition mapped :: "('w \<Rightarrow> handles) \<Rightarrow> 'w \<Rightarrow> nat option \<times> 'w \<Rightarrow> bool" where
  "mapped v w r =
     (case fst r of None \<Rightarrow> v (snd r) = v w
      | Some p \<Rightarrow> p \<notin> hMaps (v w) \<and> v (snd r) = (v w)\<lparr>hMaps := insert p (hMaps (v w))\<rparr>)"

definition uh_ledger :: "'w uh \<Rightarrow> ('w \<Rightarrow> handles) \<Rightarrow> bool" where
  "uh_ledger uh v =
     ((\<forall>n c w. fd_opened v w (uh_shm_open uh n c w)) \<and> (\<forall>fd k w. v (snd (uh_ftruncate uh fd k w)) = v w)
      \<and> (\<forall>fd w. v (uh_close uh fd w) = (v w)\<lparr>hFds := hFds (v w) - {fd}\<rparr>)
      \<and> (\<forall>n w. v (uh_shm_unlink uh n w) = v w) \<and> (\<forall>n w. v (uh_sem_unlink uh n w) = v w)
      \<and> (\<forall>n c w. sem_opened v w (uh_sem_open uh n c w))
      \<and> (\<forall>h w. v (uh_sem_close uh h w) = (v w)\<lparr>hSems := (hSems (v w))(h := hSems (v w) h - 1)\<rparr>)
      \<and> (\<forall>fd k w. mapped v w (uh_mmap uh fd k w)) \<and> (\<forall>p k w. v (uh_munmap uh p k w) = (v w)\<lparr>hMaps := hMaps (v w) - {p}\<rparr>))"

lemma uh_ledgerD:
  assumes "uh_ledger uh v"
  shows "fd_opened v w (uh_shm_open uh n c w)" and "uh_ftruncate uh fd k w = (t, w') \<Longrightarrow> v w' = v w"
    and "v (uh_close uh fd w) = (v w)\<lparr>hFds := hFds (v w) - {fd}\<rparr>" and "v (uh_shm_unlink uh n w) = v w"
    and "v (uh_sem_unlink uh n w) = v w" and "sem_opened v w (uh_sem_open uh n c w)"
    and "v (uh_sem_close uh h w) = (v w)\<lparr>hSems := (hSems (v w))(h := hSems (v w) h - 1)\<rparr>"
    and "mapped v w (uh_mmap uh fd k w)" and "v (uh_munmap uh p k w) = (v w)\<lparr>hMaps := hMaps (v w) - {p}\<rparr>"
  using assms unfolding uh_ledger_def by (metis snd_conv)+

lemma handles_same [simp]: "(x :: handles)\<lparr>hFds := hFds x\<rparr> = x" "x\<lparr>hSems := hSems x\<rparr> = x"
  by simp_all

lemma h_cleanup_view:
  assumes "uh_ledger uh v"
  shows "v (h_cleanupIPC uh n fd sem w)
    = (v w)\<lparr>hFds := (if fd = -1 then hFds (v w) else hFds (v w) - {fd}),
        hSems := (case sem of None \<Rightarrow> hSems (v w) | Some h \<Rightarrow> (hSems (v w))(h := hSems (v w) h - 1))\<rparr>"
  by (auto simp: h_cleanupIPC_def Let_def uh_ledgerD(3-5,7) [OF assms] split: option.split)

lemma create_shm_view:
  assumes l: "uh_ledger uh v" and "h_createShmIPC uh ex n w = (fd, w')"
  shows "fd_opened v w (fd, w')"
proof (cases "ex n")
  case True
  then show ?thesis using assms by (simp add: h_createShmIPC_def fd_opened_def)
next
  case False
  obtain f w1 where o: "uh_shm_open uh n True w = (f, w1)" by fastforce
  obtain t w2 where t: "uh_ftruncate uh f UNIX_SIZE w1 = (t, w2)" by fastforce
  have op: "fd_opened v w (f, w1)" using uh_ledgerD(1) [OF l, of w n True] o by simp
  have w2: "v w2 = v w1" by (rule uh_ledgerD(2) [OF l t])
  consider "f = -1" "fd = -1" "w' = w1" | "f \<noteq> -1" "fd = -1" "w' = h_cleanupIPC uh n f None w2" | "f \<noteq> -1" "fd = f" "w' = w2"
    using assms(2) False o t by (auto simp: h_createShmIPC_def Let_def split: if_splits)
  then show ?thesis
    by cases (use op w2 h_cleanup_view [OF l, of n f None w2] in \<open>auto simp: fd_opened_def\<close>)
qed

lemma create_sem_view:
  assumes l: "uh_ledger uh v" and "h_createSemIPC uh n w = (h, w')"
  shows "sem_opened v w (h, w')"
proof -
  obtain h1 w1 where o: "uh_sem_open uh n True (uh_sem_unlink uh n w) = (h1, w1)" by fastforce
  have "sem_opened v (uh_sem_unlink uh n w) (h1, w1)" using uh_ledgerD(6) [OF l, of _ n True] o by metis
  then have "sem_opened v w (h1, w1)" 
    by (cases h1) (simp_all add: sem_opened_def uh_ledgerD(5) [OF l])
  then show ?thesis using assms(2) o h_cleanup_view [OF l, of n "-1" None w1]
    by (auto simp: h_createSemIPC_def sem_opened_def split: if_splits)
qed

lemma open_sem_view:
  assumes l: "uh_ledger uh v" and "h_openSemIPC uh n w = (h, w')"
  shows "sem_opened v w (h, w')"
proof -
  obtain h1 w1 where o: "uh_sem_open uh n False w = (h1, w1)" by fastforce
  have "sem_opened v w (h1, w1)" using uh_ledgerD(6) [OF l, of w n False] o by simp
  then show ?thesis using assms(2) o h_cleanup_view [OF l, of n "-1" None w1]
    by (auto simp: h_openSemIPC_def sem_opened_def split: if_splits)
qed

lemma mmap_view:
  assumes "uh_ledger uh v" and "h_openMmapIPC uh fd k w = (p, w')"
  shows "mapped v w (p, w')"
  using assms(2) uh_ledgerD(8) [OF assms(1), of w fd k] by (cases p) (auto simp: h_openMmapIPC_def mapped_def split: if_splits)

lemma end_view:
  assumes "uh_ledger uh v"
  shows "v (oh_end uh s w) = (v w)\<lparr>hFds := (if ohFd s = -1 then hFds (v w) else hFds (v w) - {ohFd s})\<rparr>"
    and "v (os_end uh t w) = (v w)\<lparr>hSems := (case osSem t of None \<Rightarrow> hSems (v w)
      | Some h \<Rightarrow> (hSems (v w))(h := hSems (v w) h - 1))\<rparr>"
  by (auto simp: oh_end_def oh_Destroy_def oh_Close_def os_end_def os_Destroy_def os_Close_def Let_def
      uh_ledgerD(3-5,7) [OF assms] split: option.split)

text \<open>What the constructor and one call of Create or Open leave.\<close>

lemma oh_made:
  assumes "uh_ledger uh v"
  shows "oh_Create uh ex (oh_new n d) w = (fd, s, w') \<Longrightarrow> s = \<lparr>ohName = n, ohFd = fd, ohDelete = d\<rparr> \<and> fd_opened v w (fd, w')"
    and "oh_Open uh (oh_new n d) w = (fd, s, w') \<Longrightarrow> s = \<lparr>ohName = n, ohFd = fd, ohDelete = d\<rparr> \<and> fd_opened v w (fd, w')"
  using create_shm_view [OF assms, of ex n w] uh_ledgerD(1) [OF assms, of w n False]
  by (auto simp: oh_Create_def oh_Open_def oh_new_def h_openShmIPC_def split: prod.splits)

lemma os_made:
  assumes "uh_ledger uh v"
  shows "os_Create uh (os_new n d) w = (h, s, w') \<Longrightarrow> s = \<lparr>osName = n, osSem = h, osDelete = d\<rparr> \<and> sem_opened v w (h, w')"
    and "os_Open uh (os_new n d) w = (h, s, w') \<Longrightarrow> s = \<lparr>osName = n, osSem = h, osDelete = d\<rparr> \<and> sem_opened v w (h, w')"
  using create_sem_view [OF assms, of n w] open_sem_view [OF assms, of n w]
  by (auto simp: os_Create_def os_Open_def os_new_def split: prod.splits)

subsection \<open>CreateIPC and DestroyIPC on what is open\<close>

text \<open>Between two opens and the destructors: \<open>a\<close> and \<open>b\<close> open what is new, the ends close it.\<close>

lemma CreateIPC_view:
  assumes l: "uh_ledger uh v" and "h_CreateIPC uh ex n w = (ok, w')"
  shows "v w' = v w \<and> \<not> ok \<or> (\<exists>p. p \<notin> hMaps (v w) \<and> v w' = (v w)\<lparr>hMaps := insert p (hMaps (v w))\<rparr>)"
proof -
  let ?d = "getDataIPCName n"
  obtain fd s1 w1 where 1: "oh_Create uh ex (oh_new n False) w = (fd, s1, w1)" by (metis prod.exhaust)
  obtain p w2 where 2: "h_openMmapIPC uh (ohFd s1) UNIX_SIZE w1 = (p, w2)" by fastforce
  obtain fd' s2 w3 where 3: "oh_Create uh ex (oh_new ?d False) w2 = (fd', s2, w3)" by (metis prod.exhaust)
  obtain h t1 w4 where 4: "os_Create uh (os_new n False) w3 = (h, t1, w4)" by (metis prod.exhaust)
  obtain h' t2 w5 where 5: "os_Create uh (os_new ?d False) w4 = (h', t2, w5)" by (metis prod.exhaust)
  note o1 = oh_made(1) [OF l 1] and o2 = mmap_view [OF l 2] and o3 = oh_made(1) [OF l 3]
    and o4 = os_made(1) [OF l 4] and o5 = os_made(1) [OF l 5]
  note e = end_view [OF l]
  consider "fd = -1" "ok = False" "w' = oh_end uh s1 w1"
    | "fd \<noteq> -1" "p = None" "ok = False" "w' = oh_end uh s1 w2"
    | q where "fd \<noteq> -1" "p = Some q" "fd' = -1" "w' = oh_end uh s1 (oh_end uh s2 w3)"
    | q where "fd \<noteq> -1" "p = Some q" "fd' \<noteq> -1" "h = None" "w' = oh_end uh s1 (oh_end uh s2 (os_end uh t1 w4))"
    | q k where "fd \<noteq> -1" "p = Some q" "fd' \<noteq> -1" "h = Some k" "h' = None"
        "w' = oh_end uh s1 (oh_end uh s2 (os_end uh t1 (os_end uh t2 w5)))"
    | q k k' where "fd \<noteq> -1" "p = Some q" "fd' \<noteq> -1" "h = Some k" "h' = Some k'"
        "w' = oh_end uh s1 (oh_end uh s2 (os_end uh t1 (os_end uh (t2\<lparr>osSem := None\<rparr>) (uh_sem_close uh k' w5))))"
    using assms(2) 1 2 3 4 5 o5
    by (cases p; cases h; cases h') (auto simp: h_CreateIPC_def os_Close_def split: if_splits)
  then show ?thesis
  proof cases
    case 1
    then show ?thesis using o1 by (simp add: e fd_opened_def)
  next
    case 2
    then show ?thesis using o1 o2 by (simp add: e fd_opened_def mapped_def)
  next
    case 3
    then show ?thesis using o1 o2 o3 by (intro disjI2 exI [of _ q]) (simp add: e fd_opened_def mapped_def)
  next
    case 4
    then show ?thesis using o1 o2 o3 o4
      by (intro disjI2 exI [of _ q]) (simp add: e fd_opened_def mapped_def sem_opened_def insert_Diff_if)
  next
    case 5
    then show ?thesis using o1 o2 o3 o4 o5
      by (intro disjI2 exI [of _ q]) (simp add: e fd_opened_def mapped_def sem_opened_def insert_Diff_if)
  next
    case 6
    then show ?thesis using o1 o2 o3 o4 o5
      by (intro disjI2 exI [of _ q]) (simp add: e fd_opened_def mapped_def sem_opened_def insert_Diff_if uh_ledgerD(7) [OF l])
  qed
qed

text \<open>DestroyIPC closes each semaphore it opens twice, in cleanupIPC and in the destructor.\<close>

definition one_less :: "nat option \<Rightarrow> (nat \<Rightarrow> nat) \<Rightarrow> nat \<Rightarrow> nat" where
  "one_less s c = (case s of None \<Rightarrow> c | Some h \<Rightarrow> c(h := c h - 1))"

lemma DestroyIPC_view:
  assumes l: "uh_ledger uh v"
  shows "\<exists>s1 s2 w1 w2. s1 = fst (uh_sem_open uh n False w1) \<and> s2 = fst (uh_sem_open uh d False w2)
    \<and> v (h_DestroyIPC uh n d w) = (v w)\<lparr>hSems := one_less s1 (one_less s2 (hSems (v w)))\<rparr>"
proof -
  obtain fd s1 w1 where 1: "oh_Open uh (oh_new n False) w = (fd, s1, w1)" by (metis prod.exhaust)
  obtain h t1 w2 where 2: "os_Open uh (os_new n False) w1 = (h, t1, w2)" by (metis prod.exhaust)
  define w3 where "w3 = h_cleanupIPC uh n fd h w2"
  obtain fd' s2 w4 where 4: "oh_Open uh (oh_new d False) w3 = (fd', s2, w4)" by (metis prod.exhaust)
  obtain h' t2 w5 where 5: "os_Open uh (os_new d False) w4 = (h', t2, w5)" by (metis prod.exhaust)
  define w6 where "w6 = h_cleanupIPC uh d fd' h' w5"
  note o1 = oh_made(2) [OF l 1] and o2 = os_made(2) [OF l 2] and o4 = oh_made(2) [OF l 4] and o5 = os_made(2) [OF l 5]
  note e = end_view [OF l]
  have D: "h_DestroyIPC uh n d w = oh_end uh s1 (os_end uh t1 (oh_end uh s2 (os_end uh t2 w6)))"
    using 1 2 4 5 by (simp add: h_DestroyIPC_def w3_def [symmetric] w6_def [symmetric] Let_def)
  have v3: "v w3 = v w"
    using o1 o2 by (cases h) (auto simp: w3_def h_cleanup_view [OF l] fd_opened_def sem_opened_def)
  have v6: "v w6 = v w"
    using o4 o5 v3 by (cases h') (auto simp: w6_def h_cleanup_view [OF l] fd_opened_def sem_opened_def)
  have fds: "hFds (v w) - {fd} = hFds (v w) \<or> fd = -1" "hFds (v w) - {fd'} = hFds (v w) \<or> fd' = -1"
    using o1 o4 v3 by (cases "fd = -1"; cases "fd' = -1"; simp add: fd_opened_def)+
  have f: "ohFd s1 = fd" "osSem t1 = h" "ohFd s2 = fd'" "osSem t2 = h'"
    using o1 [THEN conjunct1] o2 [THEN conjunct1] o4 [THEN conjunct1] o5 [THEN conjunct1] by simp_all
  have sems: "v (os_end uh t x) = (v x)\<lparr>hSems := one_less (osSem t) (hSems (v x))\<rparr>" for t x
    by (cases "osSem t") (simp_all add: e(2) one_less_def)
  have shms: "v (oh_end uh s x) = v x" if "hFds (v x) - {ohFd s} = hFds (v x) \<or> ohFd s = -1" for s x
  proof (cases "ohFd s = -1")
    case True
    then show ?thesis by (simp add: e(1))
  next
    case False
    then have "hFds (v x) - {ohFd s} = hFds (v x)" using that by blast
    then show ?thesis using False by (simp add: e(1) del: Diff_insert0 Diff_empty)
  qed
  have a: "v (os_end uh t2 w6) = (v w)\<lparr>hSems := one_less h' (hSems (v w))\<rparr>" by (simp add: sems v6 f)
  have b: "v (oh_end uh s2 (os_end uh t2 w6)) = (v w)\<lparr>hSems := one_less h' (hSems (v w))\<rparr>"
    using shms [of "os_end uh t2 w6" s2] fds a f by simp
  have c: "v (os_end uh t1 (oh_end uh s2 (os_end uh t2 w6))) = (v w)\<lparr>hSems := one_less h (one_less h' (hSems (v w)))\<rparr>"
    by (simp add: sems b f)
  have "v (h_DestroyIPC uh n d w) = (v w)\<lparr>hSems := one_less h (one_less h' (hSems (v w)))\<rparr>"
    using shms [of "os_end uh t1 (oh_end uh s2 (os_end uh t2 w6))" s1] fds c f by (simp add: D)
  moreover have "h = fst (uh_sem_open uh n False w1)" "h' = fst (uh_sem_open uh d False w4)"
    using 2 5 by (auto simp: os_Open_def os_new_def h_openSemIPC_def split: prod.splits)
  ultimately show ?thesis by blast
qed

lemma one_less_le: "one_less s c h \<le> c h"
  by (cases s) (simp_all add: one_less_def)

subsection \<open>The calls of a process\<close>

datatype h_op = HCreate uname | HDestroy uname

fun h_call :: "'w uh \<Rightarrow> h_op \<Rightarrow> umap \<times> 'w \<Rightarrow> bool \<times> umap \<times> 'w" where
  "h_call uh (HCreate n) (m, w) =
     (let (ok, w') = h_CreateIPC uh (isExistIPC m) n w in (ok, if ok then m @ [(n, getDataIPCName n)] else m, w'))"
| "h_call uh (HDestroy n) (m, w) =
     (case map_of m n of
        None \<Rightarrow> (False, m, w)
      | Some d \<Rightarrow> (True, filter (\<lambda>(a, d). a \<noteq> n) m, h_DestroyIPC uh n d w))"

text \<open>The number of calls of CreateIPC that returned true is counted along.\<close>

fun h_run :: "'w uh \<Rightarrow> h_op list \<Rightarrow> umap \<times> 'w \<Rightarrow> nat \<times> umap \<times> 'w" where
  "h_run uh [] s = (0, s)"
| "h_run uh (op # ops) s =
     (let (ok, s') = h_call uh op s; (k, s'') = h_run uh ops s' in
      ((if ok \<and> (\<exists>n. op = HCreate n) then Suc k else k), s''))"

definition kept :: "nat \<Rightarrow> handles \<Rightarrow> handles \<Rightarrow> bool" where
  "kept k a b = (hFds b = hFds a \<and> (\<forall>h. hSems b h \<le> hSems a h)
     \<and> (\<exists>ms. finite ms \<and> ms \<inter> hMaps a = {} \<and> hMaps b = hMaps a \<union> ms \<and> k \<le> card ms))"

lemma kept_refl: "kept 0 a a"
  unfolding kept_def by (intro conjI exI [of _ "{}"]) simp_all

lemma kept_trans:
  assumes "kept j a b" and "kept k b c"
  shows "kept (j + k) a c"
proof -
  obtain ms ns where m: "finite ms" "ms \<inter> hMaps a = {}" "hMaps b = hMaps a \<union> ms" "j \<le> card ms"
    and n: "finite ns" "ns \<inter> hMaps b = {}" "hMaps c = hMaps b \<union> ns" "k \<le> card ns"
    using assms by (auto simp: kept_def)
  then have "ms \<inter> ns = {}" by auto
  then have "card (ms \<union> ns) = card ms + card ns" using m(1) n(1) by (simp add: card_Un_disjoint)
  then have "\<exists>ms. finite ms \<and> ms \<inter> hMaps a = {} \<and> hMaps c = hMaps a \<union> ms \<and> j + k \<le> card ms"
    using m n by (intro exI [of _ "ms \<union> ns"]) auto
  moreover have "hSems c h \<le> hSems a h" for h using assms order_trans unfolding kept_def by blast
  ultimately show ?thesis using assms by (simp add: kept_def)
qed

lemma h_call_kept:
  assumes "uh_ledger uh v" and "h_call uh op s = (ok, s')"
  shows "kept (if ok \<and> (\<exists>n. op = HCreate n) then 1 else 0) (v (snd s)) (v (snd s'))"
proof (cases op)
  case (HCreate n)
  obtain m w where s: "s = (m, w)" by (cases s)
  obtain ok' w' where c: "h_CreateIPC uh (isExistIPC m) n w = (ok', w')" by fastforce
  have r: "ok' = ok" "snd s' = w'" using assms(2) HCreate s c by auto
  from CreateIPC_view [OF assms(1) c] show ?thesis
  proof
    assume "v w' = v w \<and> \<not> ok'"
    then show ?thesis using r s kept_refl by simp
  next
    assume "\<exists>p. p \<notin> hMaps (v w) \<and> v w' = (v w)\<lparr>hMaps := insert p (hMaps (v w))\<rparr>"
    then obtain p where p: "p \<notin> hMaps (v w)" "v w' = (v w)\<lparr>hMaps := insert p (hMaps (v w))\<rparr>" by blast
    have "kept 1 (v w) (v w')" using p unfolding kept_def by (intro conjI exI [of _ "{p}"]) simp_all
    then show ?thesis using r s by (auto simp: kept_def)
  qed
next
  case (HDestroy n)
  obtain m w where s: "s = (m, w)" by (cases s)
  show ?thesis
  proof (cases "map_of m n")
    case None
    then show ?thesis using assms(2) HDestroy s kept_refl by auto
  next
    case (Some d)
    obtain s1 s2 where "v (h_DestroyIPC uh n d w) = (v w)\<lparr>hSems := one_less s1 (one_less s2 (hSems (v w)))\<rparr>"
      using DestroyIPC_view [OF assms(1)] by blast
    then have "kept 0 (v w) (v (h_DestroyIPC uh n d w))"
      using order_trans [OF one_less_le [of s1 "one_less s2 (hSems (v w))"] one_less_le [of s2 "hSems (v w)"]] unfolding kept_def
      by (intro conjI allI exI [of _ "{}"]) simp_all
    then show ?thesis using assms(2) HDestroy s Some by auto
  qed
qed

lemma h_run_kept:
  assumes "uh_ledger uh v"
  shows "h_run uh ops s = (k, s') \<Longrightarrow> kept k (v (snd s)) (v (snd s'))"
proof (induction ops arbitrary: s k)
  case Nil
  then show ?case using kept_refl by simp
next
  case (Cons op ops)
  obtain ok s1 where c: "h_call uh op s = (ok, s1)" by (cases "h_call uh op s")
  obtain j where r: "h_run uh ops s1 = (j, s')" using Cons.prems c by (auto split: prod.splits)
  from kept_trans [OF h_call_kept [OF assms c] Cons.IH [OF r]] show ?case using Cons.prems c r by (auto split: if_splits)
qed

subsection \<open>Properties\<close>


text \<open>DestroyIPC closes the semaphore once more than it opens it: when the main thread of the server is the only one that
  holds it, it is gone, and that thread still waits on it until the destructor of the server has joined it.\<close>

lemma DestroyIPC_closes_semaphore_in_use:
  assumes "uh_ledger uh v" and "\<And>w. fst (uh_sem_open uh n False w) = Some h" and "\<And>w. fst (uh_sem_open uh d False w) = Some h'"
    and "hSems (v w) h = 1"
  shows "hSems (v (h_DestroyIPC uh n d w)) h = 0"
  using DestroyIPC_view [OF assms(1), of n d w] assms(2-4) by (auto simp: one_less_def)

text \<open>A system that gives out the next numbers.\<close>

definition next_uh :: "(nat \<times> nat \<times> handles) uh" where
  "next_uh = \<lparr>uh_shm_open = (\<lambda>n c (i, j, x). (int i, (Suc i, j, x\<lparr>hFds := insert (int i) (hFds x)\<rparr>))),
     uh_ftruncate = (\<lambda>fd k w. (TOk, w)), uh_close = (\<lambda>fd (i, j, x). (i, j, x\<lparr>hFds := hFds x - {fd}\<rparr>)), uh_shm_unlink = (\<lambda>n w. w),
     uh_sem_open = (\<lambda>n c (i, j, x). (Some 7, (i, j, x\<lparr>hSems := (hSems x)(7 := hSems x 7 + 1)\<rparr>))),
     uh_sem_close = (\<lambda>h (i, j, x). (i, j, x\<lparr>hSems := (hSems x)(h := hSems x h - 1)\<rparr>)), uh_sem_unlink = (\<lambda>n w. w),
     uh_mmap = (\<lambda>fd k (i, j, x). (Some j, (i, Suc j, x\<lparr>hMaps := insert j (hMaps x)\<rparr>))),
     uh_munmap = (\<lambda>p k (i, j, x). (i, j, x\<lparr>hMaps := hMaps x - {p}\<rparr>))\<rparr>"

text \<open>Its view of a world: only what was given out before can be open.\<close>

fun next_view :: "nat \<times> nat \<times> handles \<Rightarrow> handles" where
  "next_view (i, j, x) = \<lparr>hFds = {fd \<in> hFds x. 0 \<le> fd \<and> fd < int i}, hSems = hSems x, hMaps = {p \<in> hMaps x. p < j}\<rparr>"

lemma uh_ledger_next: "uh_ledger next_uh next_view"
  by (auto simp: uh_ledger_def next_uh_def fd_opened_def sem_opened_def mapped_def split: prod.splits)

lemmas h_defs = h_CreateIPC_def h_DestroyIPC_def oh_Create_def oh_Open_def oh_new_def oh_end_def oh_Close_def
  os_Create_def os_Open_def os_new_def os_end_def os_Close_def h_createShmIPC_def h_openShmIPC_def
  h_createSemIPC_def h_openSemIPC_def h_openMmapIPC_def h_cleanupIPC_def

definition demo_open :: handles where
  "demo_open = \<lparr>hFds = {1}, hSems = \<lambda>_. 0, hMaps = {}\<rparr>"


end
