(* ===== verification/Win_Handles.thy ===== *)
theory Win_Handles
  imports Ipc_Win
begin

text \<open>
  The kernel handles behind IPC/EXIPC.cpp: class CIPCMutex, and what CreateIPC and the end of the server's destructor do
  with the handles of the mapping and the mutex. The calls of Windows are the record \<open>wk\<close> on a world \<open>'w\<close>; a handle is a
  number, \<open>None\<close> stands for a null handle or view. What the memory holds is in \<open>Ipc_Win\<close>.
\<close>

record 'w wk =
  wk_CreateMutex :: "bool \<Rightarrow> xstring \<Rightarrow> 'w \<Rightarrow> (nat option \<times> bool) \<times> 'w"  \<comment> \<open>the initial owner; with ERROR_ALREADY_EXISTS\<close>
  wk_OpenMutex :: "xstring \<Rightarrow> 'w \<Rightarrow> nat option \<times> 'w"
  wk_Wait :: "nat \<Rightarrow> int \<Rightarrow> 'w \<Rightarrow> bool \<times> 'w"
  wk_ReleaseMutex :: "nat \<Rightarrow> 'w \<Rightarrow> 'w"
  wk_CreateFileMapping :: "xstring \<Rightarrow> 'w \<Rightarrow> nat option \<times> 'w"
  wk_OpenFileMapping :: "xstring \<Rightarrow> 'w \<Rightarrow> nat option \<times> 'w"
  wk_MapView :: "nat \<Rightarrow> 'w \<Rightarrow> nat option \<times> 'w"
  wk_UnmapView :: "nat \<Rightarrow> 'w \<Rightarrow> 'w"
  wk_CloseHandle :: "nat \<Rightarrow> 'w \<Rightarrow> 'w"

subsection \<open>CIPCMutex\<close>

record mutex_obj =
  moName :: xstring
  moTimeout :: int
  moHandle :: "nat option"

definition mo_new :: "xstring \<Rightarrow> int \<Rightarrow> mutex_obj" where
  "mo_new sMutexName nTimeout =
     \<lparr>moName = sMutexName, moTimeout = (if nTimeout \<le> 0 then 0xFFFFFFFF else nTimeout), moHandle = None\<rparr>"

definition mo_Release :: "'w wk \<Rightarrow> mutex_obj \<Rightarrow> 'w \<Rightarrow> 'w" where
  "mo_Release k m w = (case moHandle m of None \<Rightarrow> w | Some h \<Rightarrow> wk_ReleaseMutex k h w)"

text \<open>Close keeps the member. It is for the user to call, and no user in EXIPC.cpp does.\<close>

definition mo_Close :: "'w wk \<Rightarrow> mutex_obj \<Rightarrow> 'w \<Rightarrow> 'w" where
  "mo_Close k m w = (case moHandle m of None \<Rightarrow> w | Some h \<Rightarrow> wk_CloseHandle k h w)"

text \<open>CreateMutex, and OpenMutex when the name exists, as in Create and in CreateIPC.\<close>

definition make_mutex :: "'w wk \<Rightarrow> bool \<Rightarrow> xstring \<Rightarrow> 'w \<Rightarrow> nat option \<times> 'w" where
  "make_mutex k own n w =
     (let ((h, exists), w1) = wk_CreateMutex k own n w in if exists then wk_OpenMutex k n w1 else (h, w1))"

definition mo_Create :: "'w wk \<Rightarrow> mutex_obj \<Rightarrow> 'w \<Rightarrow> bool \<times> mutex_obj \<times> 'w" where
  "mo_Create k m w =
     (let (h, w1) = make_mutex k False (moName m) w; m1 = m\<lparr>moHandle := h\<rparr> in
      if h = None then (False, m1, w1) else (True, m1, mo_Release k m1 w1))"

text \<open>The wait gets the time in milliseconds, as a DWORD.\<close>

definition mo_Open :: "'w wk \<Rightarrow> mutex_obj \<Rightarrow> 'w \<Rightarrow> bool \<times> mutex_obj \<times> 'w" where
  "mo_Open k m w =
     (let (h, w1) = wk_OpenMutex k (moName m) w; m1 = m\<lparr>moHandle := h\<rparr> in
      case h of
        None \<Rightarrow> (False, m1, w1)
      | Some h \<Rightarrow> (let (ok, w2) = wk_Wait k h (moTimeout m * 1000 mod 2 ^ 32) w1 in (ok, m1, w2)))"

definition mo_end :: "'w wk \<Rightarrow> mutex_obj \<Rightarrow> 'w \<Rightarrow> 'w" where
  "mo_end k m w = mo_Release k m w"

subsection \<open>CreateIPC and the server\<close>

text \<open>The handles in the stIPCInfo of a server; \<open>None\<close> as the result of CreateIPC is its failure.\<close>

record server_handles =
  shMutex :: "nat option"
  shMapping :: "nat option"

definition w_CreateIPC :: "'w wk \<Rightarrow> xstring \<Rightarrow> 'w \<Rightarrow> server_handles option \<times> 'w" where
  "w_CreateIPC k sIPCName w =
     (let (hMapping, w1) = wk_CreateFileMapping k (GetGlobalName sIPCName) w in
      case hMapping of
        None \<Rightarrow> (None, w1)
      | Some hm \<Rightarrow>
          (let (pBuf, w2) = wk_MapView k hm w1 in
           case pBuf of
             None \<Rightarrow> (None, wk_CloseHandle k hm w2)
           | Some p \<Rightarrow>
               (let (hMutex, w3) = make_mutex k True sIPCName w2 in
                case hMutex of
                  None \<Rightarrow> (None, wk_UnmapView k p w3)
                | Some h \<Rightarrow>
                    (Some \<lparr>shMutex = Some h, shMapping = Some hm\<rparr>, wk_UnmapView k p (wk_ReleaseMutex k h w3)))))"

definition w_CloseMutex :: "'w wk \<Rightarrow> bool \<Rightarrow> server_handles \<Rightarrow> 'w \<Rightarrow> server_handles \<times> 'w" where
  "w_CloseMutex k isStop s w =
     (if \<not> isStop then (s, w)
      else case shMutex s of
          None \<Rightarrow> (s, w)
        | Some h \<Rightarrow> (s\<lparr>shMutex := None\<rparr>, wk_CloseHandle k h (wk_ReleaseMutex k h w)))"

text \<open>The destructor of the server behind its joins.\<close>

definition w_server_end :: "'w wk \<Rightarrow> server_handles \<Rightarrow> 'w \<Rightarrow> 'w" where
  "w_server_end k s w =
     (let (s1, w1) = w_CloseMutex k True s w in case shMapping s1 of None \<Rightarrow> w1 | Some hm \<Rightarrow> wk_CloseHandle k hm w1)"

subsection \<open>What is open\<close>

text \<open>The open handles of mutexes and of file mappings, the views, and the documented behaviour of the calls. CreateMutex
  gives a handle also when the name exists. CloseHandle does not tell one kind from the other.\<close>

record win_open =
  woMutexes :: "nat set"
  woMaps :: "nat set"
  woViews :: "nat set"

definition got_mutex :: "('w \<Rightarrow> win_open) \<Rightarrow> 'w \<Rightarrow> nat option \<times> 'w \<Rightarrow> bool" where
  "got_mutex v w r = (case fst r of None \<Rightarrow> v (snd r) = v w
     | Some h \<Rightarrow> h \<notin> woMutexes (v w) \<union> woMaps (v w) \<and> v (snd r) = (v w)\<lparr>woMutexes := insert h (woMutexes (v w))\<rparr>)"

definition got_map :: "('w \<Rightarrow> win_open) \<Rightarrow> 'w \<Rightarrow> nat option \<times> 'w \<Rightarrow> bool" where
  "got_map v w r = (case fst r of None \<Rightarrow> v (snd r) = v w
     | Some h \<Rightarrow> h \<notin> woMutexes (v w) \<union> woMaps (v w) \<and> v (snd r) = (v w)\<lparr>woMaps := insert h (woMaps (v w))\<rparr>)"

definition viewed :: "('w \<Rightarrow> win_open) \<Rightarrow> 'w \<Rightarrow> nat option \<times> 'w \<Rightarrow> bool" where
  "viewed v w r = (case fst r of None \<Rightarrow> v (snd r) = v w
     | Some p \<Rightarrow> p \<notin> woViews (v w) \<and> v (snd r) = (v w)\<lparr>woViews := insert p (woViews (v w))\<rparr>)"

definition unviewed :: "nat \<Rightarrow> win_open \<Rightarrow> win_open" where
  "unviewed p o' = o'\<lparr>woViews := woViews o' - {p}\<rparr>"

definition closed :: "nat \<Rightarrow> win_open \<Rightarrow> win_open" where
  "closed h o' = o'\<lparr>woMutexes := woMutexes o' - {h}, woMaps := woMaps o' - {h}\<rparr>"

definition wk_ledger :: "'w wk \<Rightarrow> ('w \<Rightarrow> win_open) \<Rightarrow> bool" where
  "wk_ledger k v =
     ((\<forall>b n w. got_mutex v w (map_prod fst id (wk_CreateMutex k b n w))) \<and> (\<forall>n w. got_mutex v w (wk_OpenMutex k n w))
      \<and> (\<forall>h t w. v (snd (wk_Wait k h t w)) = v w) \<and> (\<forall>h w. v (wk_ReleaseMutex k h w) = v w)
      \<and> (\<forall>n w. got_map v w (wk_CreateFileMapping k n w)) \<and> (\<forall>n w. got_map v w (wk_OpenFileMapping k n w))
      \<and> (\<forall>h w. viewed v w (wk_MapView k h w)) \<and> (\<forall>p w. v (wk_UnmapView k p w) = unviewed p (v w))
      \<and> (\<forall>h w. v (wk_CloseHandle k h w) = closed h (v w)))"

lemma wk_ledgerD:
  assumes "wk_ledger k v"
  shows "wk_CreateMutex k own n w = ((h, b), w') \<Longrightarrow> got_mutex v w (h, w')" and "wk_OpenMutex k n w = (h, w') \<Longrightarrow> got_mutex v w (h, w')"
    and "wk_Wait k x t w = (ok, w') \<Longrightarrow> v w' = v w" and "v (wk_ReleaseMutex k x w) = v w"
    and "wk_CreateFileMapping k n w = (h, w') \<Longrightarrow> got_map v w (h, w')" and "wk_OpenFileMapping k n w = (h, w') \<Longrightarrow> got_map v w (h, w')"
    and "wk_MapView k x w = (h, w') \<Longrightarrow> viewed v w (h, w')"
    and "v (wk_UnmapView k x w) = unviewed x (v w)" and "v (wk_CloseHandle k x w) = closed x (v w)"
  using assms unfolding wk_ledger_def by (metis fst_conv snd_conv map_prod_simp id_apply)+

text \<open>More mutex handles, none of them the number of an open mapping, and nothing else.\<close>

definition mutexes_grow :: "win_open \<Rightarrow> win_open \<Rightarrow> bool" where
  "mutexes_grow a b = (woMaps b = woMaps a \<and> woViews b = woViews a \<and> woMutexes a \<subseteq> woMutexes b
     \<and> (woMutexes b - woMutexes a) \<inter> woMaps a = {})"

lemma mutexes_grow_refl [simp, intro]: "mutexes_grow a a"
  by (simp add: mutexes_grow_def)

lemma mutexes_grow_trans [trans]: "mutexes_grow a b \<Longrightarrow> mutexes_grow b c \<Longrightarrow> mutexes_grow a c"
  by (auto simp: mutexes_grow_def)

lemma got_mutex_grows: "got_mutex v w (h, w') \<Longrightarrow> mutexes_grow (v w) (v w')"
  by (auto simp: got_mutex_def mutexes_grow_def split: option.splits)

lemmas wk_split = prod.splits option.splits if_splits

subsection \<open>The handles of CIPCMutex stay open\<close>

lemma mo_Release_keeps: "wk_ledger k v \<Longrightarrow> v (mo_Release k m w) = v w"
  by (auto simp: mo_Release_def wk_ledgerD split: option.splits)

lemma mo_end_keeps: "wk_ledger k v \<Longrightarrow> v (mo_end k m w) = v w"
  by (simp add: mo_end_def mo_Release_keeps)

lemma mo_Open_grows: "wk_ledger k v \<Longrightarrow> mo_Open k m w = (ok, m', w') \<Longrightarrow> mutexes_grow (v w) (v w')"
  using wk_ledgerD(3)[of k v] by (auto simp: mo_Open_def Let_def split: wk_split dest!: got_mutex_grows wk_ledgerD(2))

text \<open>Neither Create nor Open closes the handle of an earlier call: each successful Open leaves one handle more than the
  call before it, and the destructor closes none.\<close>

lemma mo_Open_leaks:
  assumes "wk_ledger k v" "mo_Open k m w = (ok, m', w')" "moHandle m' = Some h"
  shows "h \<notin> woMutexes (v w)" and "v (mo_end k m' w') = (v w)\<lparr>woMutexes := insert h (woMutexes (v w))\<rparr>"
  using assms by (auto simp: mo_Open_def got_mutex_def mo_end_keeps split: wk_split dest!: wk_ledgerD(2,3)[OF assms(1)])

lemma make_mutex_grows:
  assumes "wk_ledger k v" "make_mutex k own n w = (r, w')"
  shows "mutexes_grow (v w) (v w')" and "r = Some h \<Longrightarrow> h \<in> woMutexes (v w') \<and> h \<notin> woMutexes (v w)"
  using assms by (auto simp: make_mutex_def got_mutex_def mutexes_grow_def split: wk_split dest!: wk_ledgerD(1,2)[OF assms(1)])

lemma mo_Create_grows: "wk_ledger k v \<Longrightarrow> mo_Create k m w = (ok, m', w') \<Longrightarrow> mutexes_grow (v w) (v w')"
  using make_mutex_grows(1)[of k v False "moName m" w] by (auto simp: mo_Create_def mo_Release_keeps Let_def split: wk_split)

lemma mo_Create_leaks:
  assumes "wk_ledger k v" "mo_Create k m w = (True, m', w')"
  obtains h where "moHandle m' = Some h" "h \<notin> woMutexes (v w)" "insert h (woMutexes (v w)) \<subseteq> woMutexes (v (mo_end k m' w'))"
proof -
  obtain r w1 where r: "make_mutex k False (moName m) w = (r, w1)" by fastforce
  with assms obtain h where h: "r = Some h" "moHandle m' = Some h" "w' = mo_Release k m' w1"
    by (auto simp: mo_Create_def Let_def split: if_splits)
  then show thesis using make_mutex_grows[OF assms(1) r] that mo_end_keeps[OF assms(1)] mo_Release_keeps[OF assms(1)]
    by (auto simp: mutexes_grow_def)
qed

subsection \<open>The handles of a server\<close>

lemma make_mutex_new:
  assumes "wk_ledger k v" "make_mutex k own n w = (Some h, w')" "\<not> snd (fst (wk_CreateMutex k own n w))"
  shows "h \<notin> woMutexes (v w) \<union> woMaps (v w)" and "v w' = (v w)\<lparr>woMutexes := insert h (woMutexes (v w))\<rparr>"
  using assms by (auto simp: make_mutex_def got_mutex_def split: wk_split dest!: wk_ledgerD(1)[OF assms(1)])

lemma make_mutex_existing:
  assumes "wk_ledger k v" "make_mutex k own n w = (Some h, w')" "fst (wk_CreateMutex k own n w) = (Some h0, True)"
  shows "h \<noteq> h0" and "{h, h0} \<inter> (woMutexes (v w) \<union> woMaps (v w)) = {}"
    and "v w' = (v w)\<lparr>woMutexes := {h, h0} \<union> woMutexes (v w)\<rparr>"
  using assms by (auto simp: make_mutex_def got_mutex_def split: wk_split dest!: wk_ledgerD(1,2)[OF assms(1)])

text \<open>A successful CreateIPC has passed each of its guards.\<close>

lemma CreateIPC_Some:
  assumes "w_CreateIPC k n w = (Some s, w')"
  obtains hm w1 p w2 h w3 where "wk_CreateFileMapping k (GetGlobalName n) w = (Some hm, w1)"
    "wk_MapView k hm w1 = (Some p, w2)" "make_mutex k True n w2 = (Some h, w3)"
    "s = \<lparr>shMutex = Some h, shMapping = Some hm\<rparr>" "w' = wk_UnmapView k p (wk_ReleaseMutex k h w3)"
  using assms by (auto simp: w_CreateIPC_def split: wk_split)

lemma server_end_closes:
  assumes "wk_ledger k v"
  shows "v (w_server_end k \<lparr>shMutex = Some h, shMapping = Some hm\<rparr> w) = closed hm (closed h (v w))"
  using assms by (simp add: w_server_end_def w_CloseMutex_def wk_ledgerD)

lemma CreateIPC_open:
  assumes "wk_ledger k v" "w_CreateIPC k n w = (Some s, w')"
  obtains hm h w3 w2 where "make_mutex k True n w2 = (Some h, w3)" "s = \<lparr>shMutex = Some h, shMapping = Some hm\<rparr>"
    "hm \<notin> woMutexes (v w) \<union> woMaps (v w)" "woMutexes (v w2) = woMutexes (v w)" "woMaps (v w2) = insert hm (woMaps (v w))"
    "v w' = (v w3)\<lparr>woViews := woViews (v w)\<rparr>"
proof -
  obtain hm w1 p w2 h w3 where c: "wk_CreateFileMapping k (GetGlobalName n) w = (Some hm, w1)"
    "wk_MapView k hm w1 = (Some p, w2)" "make_mutex k True n w2 = (Some h, w3)"
    "s = \<lparr>shMutex = Some h, shMapping = Some hm\<rparr>" "w' = wk_UnmapView k p (wk_ReleaseMutex k h w3)"
    using assms(2) by (rule CreateIPC_Some)
  have v: "got_map v w (Some hm, w1)" "viewed v w1 (Some p, w2)" "mutexes_grow (v w2) (v w3)"
    using wk_ledgerD(5,7)[OF assms(1)] c(1,2) make_mutex_grows(1)[OF assms(1) c(3)] by blast+
  show thesis
    by (rule that[OF c(3,4)]) (use v c(5) assms(1) in \<open>auto simp: got_map_def viewed_def unviewed_def mutexes_grow_def wk_ledgerD\<close>)
qed

text \<open>Where the name is new, the destructor gives back all that CreateIPC took.\<close>

lemma server_gives_back:
  assumes "wk_ledger k v" "w_CreateIPC k n w = (Some s, w')" "\<And>w. \<not> snd (fst (wk_CreateMutex k True n w))"
  shows "v (w_server_end k s w') = v w"
proof -
  obtain hm h w3 w2 where o: "make_mutex k True n w2 = (Some h, w3)" "s = \<lparr>shMutex = Some h, shMapping = Some hm\<rparr>"
    "hm \<notin> woMutexes (v w) \<union> woMaps (v w)" "woMutexes (v w2) = woMutexes (v w)" "woMaps (v w2) = insert hm (woMaps (v w))"
    "v w' = (v w3)\<lparr>woViews := woViews (v w)\<rparr>" using CreateIPC_open[OF assms(1,2)] by metis
  with make_mutex_new[OF assms(1) o(1) assms(3)] show ?thesis
    by (auto simp: server_end_closes[OF assms(1)] closed_def intro!: win_open.equality)
qed

text \<open>Where it exists, the handle CreateMutex gave is lost: CreateIPC overwrites it with the one of OpenMutex.\<close>

lemma server_existing_name_leaks:
  assumes "wk_ledger k v" "w_CreateIPC k n w = (Some s, w')" "\<And>w. \<exists>h0. fst (wk_CreateMutex k True n w) = (Some h0, True)"
  shows "\<exists>h0. h0 \<notin> woMutexes (v w) \<and> v (w_server_end k s w') = (v w)\<lparr>woMutexes := insert h0 (woMutexes (v w))\<rparr>"
proof -
  obtain hm h w3 w2 where o: "make_mutex k True n w2 = (Some h, w3)" "s = \<lparr>shMutex = Some h, shMapping = Some hm\<rparr>"
    "hm \<notin> woMutexes (v w) \<union> woMaps (v w)" "woMutexes (v w2) = woMutexes (v w)" "woMaps (v w2) = insert hm (woMaps (v w))"
    "v w' = (v w3)\<lparr>woViews := woViews (v w)\<rparr>" using CreateIPC_open[OF assms(1,2)] by metis
  obtain h0 where "fst (wk_CreateMutex k True n w2) = (Some h0, True)" using assms(3) by blast
  from make_mutex_existing[OF assms(1) o(1) this] o(2-6) show ?thesis
    by (auto simp: server_end_closes[OF assms(1)] closed_def intro!: exI[of _ h0] win_open.equality)
qed

text \<open>CreateIPC gives its view back on every path. Its mapping stays open where it fails at the mutex.\<close>

lemma CreateIPC_failed_mutex_leaks:
  assumes "wk_ledger k v" "wk_CreateFileMapping k (GetGlobalName n) w = (Some hm, w1)" "wk_MapView k hm w1 = (Some p, w2)"
    "make_mutex k True n w2 = (None, w3)" "w_CreateIPC k n w = (r, w')"
  shows "r = None" "woViews (v w') = woViews (v w)" "hm \<notin> woMaps (v w)" "hm \<in> woMaps (v w')"
proof -
  have v: "got_map v w (Some hm, w1)" "viewed v w1 (Some p, w2)"
    using wk_ledgerD(5,7)[OF assms(1)] assms(2,3) by blast+
  have "r = None \<and> w' = wk_UnmapView k p w3" using assms(2-) by (auto simp: w_CreateIPC_def)
  with v make_mutex_grows[OF assms(1,4)] show "r = None" "woViews (v w') = woViews (v w)" "hm \<notin> woMaps (v w)" "hm \<in> woMaps (v w')"
    by (auto simp: got_map_def viewed_def unviewed_def mutexes_grow_def wk_ledgerD[OF assms(1)])
qed

end
