(* ===== verification/Win_Send.thy ===== *)
theory Win_Send
  imports Win_Handles
begin

text \<open>
  The handles and views of SendIPC (IPC/EXIPC.cpp): the mappings of the client, and what its two polling loops open and
  close on each way out. What is in the memory is in \<open>Ipc_Win\<close>; here it is the record \<open>wm\<close>, answers and changes of the
  shared memory under a view, and what the others do during the sleeps.
\<close>

record 'w wm =
  wm_free :: "nat \<Rightarrow> 'w \<Rightarrow> bool"  \<comment> \<open>isInit and no hasRequest\<close>
  wm_request :: "nat \<Rightarrow> 'w \<Rightarrow> 'w"
  wm_answered :: "nat \<Rightarrow> 'w \<Rightarrow> bool"
  wm_large :: "nat \<Rightarrow> 'w \<Rightarrow> bool"
  wm_done :: "nat \<Rightarrow> 'w \<Rightarrow> 'w"
  wm_sleep :: "'w \<Rightarrow> 'w"

text \<open>MapViewOfFile and CloseHandle of a handle that may be null, UnmapViewOfFile of a view that may be.\<close>

definition map_view :: "'w wk \<Rightarrow> nat option \<Rightarrow> 'w \<Rightarrow> nat option \<times> 'w" where
  "map_view k h w = (case h of None \<Rightarrow> (None, w) | Some h \<Rightarrow> wk_MapView k h w)"

definition close_handle :: "'w wk \<Rightarrow> nat option \<Rightarrow> 'w \<Rightarrow> 'w" where
  "close_handle k h w = (case h of None \<Rightarrow> w | Some h \<Rightarrow> wk_CloseHandle k h w)"

definition unmap_view :: "'w wk \<Rightarrow> nat option \<Rightarrow> 'w \<Rightarrow> 'w" where
  "unmap_view k p w = (case p of None \<Rightarrow> w | Some p \<Rightarrow> wk_UnmapView k p w)"

subsection \<open>A pass of the send loop\<close>

text \<open>\<open>large\<close>: the request does not fit into the server's memory, or the call is a check. The inner part has the server's
  mapping \<open>hm\<close> and its view \<open>p\<close>.\<close>

definition w_send_request ::
    "'w wk \<Rightarrow> 'w wm \<Rightarrow> bool \<Rightarrow> nat option \<Rightarrow> nat \<Rightarrow> nat \<Rightarrow> mutex_obj \<Rightarrow> 'w \<Rightarrow> bool \<times> mutex_obj \<times> 'w" where
  "w_send_request k mem large hReq hm p req w =
     (let w1 = wm_request mem p w;
          out = (\<lambda>w. wk_CloseHandle k hm (wk_UnmapView k p w)) in
      if \<not> large then (True, req, out w1)
      else let (ok, req1, w2) = mo_Open k req w1 in
        if \<not> ok then (True, req1, out w2)
        else case map_view k hReq w2 of
            (None, w3) \<Rightarrow> (False, req1, out w3)
          | (Some pr, w3) \<Rightarrow> (True, req1, out (wk_UnmapView k pr w3)))"

definition w_send_pass ::
    "'w wk \<Rightarrow> 'w wm \<Rightarrow> bool \<Rightarrow> nat option \<Rightarrow> xstring \<Rightarrow> int \<Rightarrow> mutex_obj \<Rightarrow> 'w \<Rightarrow> bool \<times> mutex_obj \<times> 'w" where
  "w_send_pass k mem large hReq sIPCName timeOutSec req w =
     (let (ok, server, w1) = mo_Open k (mo_new sIPCName timeOutSec) w;
          (isSend, req1, w2) =
            (if \<not> ok then (False, req, w1)
             else case wk_OpenFileMapping k (GetGlobalName sIPCName) w1 of
                 (None, w2) \<Rightarrow> (False, req, w2)
               | (Some hm, w2) \<Rightarrow>
                   (case wk_MapView k hm w2 of
                      (None, w3) \<Rightarrow> (False, req, wk_CloseHandle k hm w3)
                    | (Some p, w3) \<Rightarrow>
                        (if \<not> wm_free mem p w3 then (False, req, wk_CloseHandle k hm (wk_UnmapView k p w3))
                         else w_send_request k mem large hReq hm p req w3)))
      in (isSend, req1, mo_Release k req1 (mo_end k server w2)))"

text \<open>The loop: the passes left are those of nCheckMs.\<close>

fun w_send_loop ::
    "'w wk \<Rightarrow> 'w wm \<Rightarrow> bool \<Rightarrow> nat option \<Rightarrow> xstring \<Rightarrow> int \<Rightarrow> nat \<Rightarrow> mutex_obj \<Rightarrow> 'w \<Rightarrow> bool \<times> nat \<times> mutex_obj \<times> 'w" where
  "w_send_loop k mem large hReq n t 0 req w = (False, 0, req, w)"
| "w_send_loop k mem large hReq n t (Suc i) req w =
     (let (isSend, req1, w1) = w_send_pass k mem large hReq n t req w in
      if isSend then (True, Suc i, req1, w1) else w_send_loop k mem large hReq n t i req1 (wm_sleep mem w1))"

subsection \<open>A pass of the receive loop\<close>

text \<open>The response under a view \<open>p\<close> of the client's memory: whether it was taken, and the mapping and the view of a large
  one, which is unmapped here already.\<close>

definition w_recv_response ::
    "'w wk \<Rightarrow> 'w wm \<Rightarrow> bool \<Rightarrow> xstring \<Rightarrow> int \<Rightarrow> nat \<Rightarrow> 'w \<Rightarrow> bool \<times> nat option \<times> nat option \<times> 'w" where
  "w_recv_response k mem bCheck sClient timeOutSec p w =
     (if \<not> wm_answered mem p w then (False, None, None, w)
      else if \<not> (wm_large mem p w \<or> bCheck) then (True, None, None, wm_done mem p w)
      else let (ok, res, w1) = mo_Open k (mo_new (GetResponseIPCName sClient) timeOutSec) w in
        if \<not> ok then (True, None, None, wm_done mem p (mo_end k res w1))
        else let (hRes, w2) = wk_OpenFileMapping k (GetGlobalName (GetResponseIPCName sClient)) w1 in
          case map_view k hRes w2 of
            (None, w3) \<Rightarrow> (False, hRes, None, mo_end k res w3)
          | (Some pr, w3) \<Rightarrow> (True, hRes, Some pr, wm_done mem p (mo_end k res (wk_UnmapView k pr w3))))"

definition w_recv_pass ::
    "'w wk \<Rightarrow> 'w wm \<Rightarrow> bool \<Rightarrow> xstring \<Rightarrow> int \<Rightarrow> mutex_obj \<Rightarrow> 'w \<Rightarrow> bool \<times> mutex_obj \<times> 'w" where
  "w_recv_pass k mem bCheck sClient timeOutSec cl w =
     (let (ok, cl1, w1) = mo_Open k cl w;
          (isRecv, hMap, hRes, p, pRes, w2) =
            (if \<not> ok then (False, None, None, None, None, w1)
             else let (hMap, w2) = wk_OpenFileMapping k (GetGlobalName sClient) w1 in
               case map_view k hMap w2 of
                 (None, w3) \<Rightarrow> (False, hMap, None, None, None, w3)
               | (Some p, w3) \<Rightarrow>
                   (let (isRecv, hRes, pRes, w4) = w_recv_response k mem bCheck sClient timeOutSec p w3
                    in (isRecv, hMap, hRes, Some p, pRes, w4)))
      in (isRecv, cl1, unmap_view k pRes (unmap_view k p (close_handle k hRes (close_handle k hMap (mo_Release k cl1 w2))))))"

fun w_recv_loop ::
    "'w wk \<Rightarrow> 'w wm \<Rightarrow> bool \<Rightarrow> xstring \<Rightarrow> int \<Rightarrow> nat \<Rightarrow> mutex_obj \<Rightarrow> 'w \<Rightarrow> bool \<times> mutex_obj \<times> 'w" where
  "w_recv_loop k mem bCheck c t 0 cl w = (False, cl, w)"
| "w_recv_loop k mem bCheck c t (Suc i) cl w =
     (let (isRecv, cl1, w1) = w_recv_pass k mem bCheck c t cl w in
      if isRecv then (True, cl1, w1) else w_recv_loop k mem bCheck c t i cl1 (wm_sleep mem w1))"

subsection \<open>SendIPC\<close>

text \<open>\<open>n\<close> is the request size and \<open>sClient\<close> the name of the client. At the end the two mappings are closed and the mutexes
  released, in the reverse order of their construction.\<close>

definition w_SendIPC ::
    "'w wk \<Rightarrow> 'w wm \<Rightarrow> xstring \<Rightarrow> xstring \<Rightarrow> nat \<Rightarrow> int \<Rightarrow> bool \<Rightarrow> 'w \<Rightarrow> bool \<times> 'w" where
  "w_SendIPC k mem sIPCName sClient n timeOutSec bCheck w =
     (let (hClient, w1) = wk_CreateFileMapping k (GetGlobalName sClient) w;
          (hReq, w2) = wk_CreateFileMapping k (GetGlobalName (GetRequestIPCName sClient)) w1;
          large = (n > 512 \<or> bCheck);
          (okReq, req, w3) = mo_Create k (mo_new (GetRequestIPCName sClient) timeOutSec) w2;
          cl0 = mo_new sClient timeOutSec;
          (isSuccess, req', cl', w') =
            (if \<not> okReq then (False, req, cl0, w3)
             else let (okCl, cl, w4) = mo_Create k cl0 w3 in
               if \<not> okCl \<or> hClient = None then (False, req, cl, w4)
               else let (isSend, left, req1, w5) = w_send_loop k mem large hReq sIPCName timeOutSec (nat (timeOutSec * 100)) req w4;
                        (isRecv, cl1, w6) = w_recv_loop k mem bCheck sClient timeOutSec left cl w5
                    in (isSend \<and> isRecv, req1, cl1, w6))
      in (isSuccess, mo_end k req' (mo_end k cl' (close_handle k hClient (close_handle k hReq w')))))"

subsection \<open>What is open after a call\<close>

text \<open>The memory and the sleeps leave the handles and views of this process alone.\<close>

definition wm_keeps :: "'w wm \<Rightarrow> ('w \<Rightarrow> win_open) \<Rightarrow> bool" where
  "wm_keeps mem v = (\<forall>p w. v (wm_request mem p w) = v w \<and> v (wm_done mem p w) = v w \<and> v (wm_sleep mem w) = v w)"

lemma wm_keepsD:
  "wm_keeps mem v \<Longrightarrow> v (wm_request mem p w) = v w" "wm_keeps mem v \<Longrightarrow> v (wm_done mem p w) = v w"
  "wm_keeps mem v \<Longrightarrow> v (wm_sleep mem w) = v w"
  by (simp_all add: wm_keeps_def)

lemma v_close_handle: "wk_ledger k v \<Longrightarrow> v (close_handle k h w) = (case h of None \<Rightarrow> v w | Some h \<Rightarrow> closed h (v w))"
  by (simp add: close_handle_def wk_ledgerD split: option.split)

lemma v_unmap_view: "wk_ledger k v \<Longrightarrow> v (unmap_view k p w) = (case p of None \<Rightarrow> v w | Some p \<Rightarrow> unviewed p (v w))"
  by (simp add: unmap_view_def wk_ledgerD split: option.split)

lemma map_view_viewed: "wk_ledger k v \<Longrightarrow> map_view k h w = (p, w') \<Longrightarrow> viewed v w (p, w')"
  using wk_ledgerD(7)[of k v] by (cases h) (auto simp: map_view_def viewed_def[of v w' "(None, w')"])

text \<open>A mapping or a view that is given back after something that only adds mutexes.\<close>

lemma map_scope:
  assumes "wk_ledger k v" "got_map v w (h, w1)" "mutexes_grow (v w1) (v w2)"
  shows "mutexes_grow (v w) (v (close_handle k h w2))"
  using assms(2,3) by (auto simp: v_close_handle[OF assms(1)] got_map_def mutexes_grow_def closed_def split: option.splits)

lemma map_scope_mutexes:
  assumes "wk_ledger k v" "got_map v w (h, w1)" "mutexes_grow (v w1) (v w2)"
  shows "woMutexes (v (close_handle k h w2)) = woMutexes (v w2)"
  using assms(2,3) by (auto simp: v_close_handle[OF assms(1)] got_map_def mutexes_grow_def closed_def split: option.splits)

lemma view_scope:
  assumes "wk_ledger k v" "viewed v w (p, w1)" "mutexes_grow (v w1) (v w2)"
  shows "mutexes_grow (v w) (v (unmap_view k p w2))"
  using assms(2,3) by (auto simp: v_unmap_view[OF assms(1)] viewed_def mutexes_grow_def unviewed_def split: option.splits)

lemma close_unmap_order:
  assumes "wk_ledger k v"
  shows "v (unmap_view k p (close_handle k h (close_handle k g w))) = v (close_handle k g (unmap_view k p (close_handle k h w)))"
  by (auto simp: v_close_handle[OF assms] v_unmap_view[OF assms] closed_def unviewed_def
      intro!: win_open.equality split: option.split)

subsection \<open>The loops only add mutexes\<close>

lemma w_send_request_grows:
  assumes "wk_ledger k v" "wm_keeps mem v" "w_send_request k mem large hReq hm p req w = (r, req', w')"
  obtains w1 where "mutexes_grow (v w) (v w1)" "v w' = v (close_handle k (Some hm) (unmap_view k (Some p) w1))"
proof -
  let ?out = "\<lambda>w. wk_CloseHandle k hm (wk_UnmapView k p w)" and ?w1 = "wm_request mem p w"
  have out: "?out x = close_handle k (Some hm) (unmap_view k (Some p) x)" for x by (simp add: close_handle_def unmap_view_def)
  obtain ok req1 w2 where o: "mo_Open k req ?w1 = (ok, req1, w2)" by (metis prod_cases3)
  obtain q w3 where q: "map_view k hReq w2 = (q, w3)" by fastforce
  have g: "mutexes_grow (v w) (v w2)" using mo_Open_grows[OF assms(1) o] wm_keepsD(1)[OF assms(2)] by simp
  have "mutexes_grow (v w2) (v (unmap_view k q w3))"
    using view_scope[OF assms(1) map_view_viewed[OF assms(1) q]] by simp
  with g have g3: "mutexes_grow (v w) (v (unmap_view k q w3))" by (rule mutexes_grow_trans)
  have "w' = ?out ?w1 \<or> w' = ?out w2 \<or> w' = ?out (unmap_view k q w3)"
    using assms(3) o q by (auto simp: w_send_request_def unmap_view_def Let_def split: if_splits option.splits)
  then show thesis using that[of ?w1] that[of w2] that[of "unmap_view k q w3"] g g3 wm_keepsD(1)[OF assms(2)] unfolding out by auto
qed

lemma w_send_pass_grows:
  assumes "wk_ledger k v" "wm_keeps mem v" "w_send_pass k mem large hReq n t req w = (r, req', w')"
  shows "mutexes_grow (v w) (v w')"
proof -
  obtain ok server w1 where o: "mo_Open k (mo_new n t) w = (ok, server, w1)" by (metis prod_cases3)
  obtain hm w2 where m: "wk_OpenFileMapping k (GetGlobalName n) w1 = (hm, w2)" by fastforce
  note gm = wk_ledgerD(6)[OF assms(1) m]
  have fin: "v (mo_Release k a (mo_end k b x)) = v x" for a b x by (simp add: mo_Release_keeps mo_end_keeps assms(1))
  have grow: "mutexes_grow (v w1) (v w')"
  proof (cases "ok \<and> hm \<noteq> None")
    case False
    then have "v w' = v w1" using assms(3) o m gm
      by (auto simp: w_send_pass_def fin got_map_def split: if_splits option.splits)
    then show ?thesis by simp
  next
    case True
    then obtain h where h: "ok" "hm = Some h" by auto
    obtain p w3 where p: "wk_MapView k h w2 = (p, w3)" by fastforce
    note vp = wk_ledgerD(7)[OF assms(1) p]
    have "\<exists>x. mutexes_grow (v w3) (v x) \<and> v w' = v (close_handle k (Some h) (unmap_view k p x))"
    proof (cases p)
      case None
      then have "v w' = v (wk_CloseHandle k h w3)" using assms(3) o m h p by (auto simp: w_send_pass_def fin)
      then show ?thesis using None by (intro exI[of _ w3]) (simp add: close_handle_def unmap_view_def)
    next
      case (Some a)
      show ?thesis
      proof (cases "wm_free mem a w3")
        case False
        then have "v w' = v (wk_CloseHandle k h (wk_UnmapView k a w3))" using assms(3) o m h p Some by (auto simp: w_send_pass_def fin)
        then show ?thesis using Some by (intro exI[of _ w3]) (simp add: close_handle_def unmap_view_def)
      next
        case True
        obtain r1 req1 w4 where s: "w_send_request k mem large hReq h a req w3 = (r1, req1, w4)" by (metis prod_cases3)
        then have "v w' = v w4" using assms(3) o m h p Some True by (auto simp: w_send_pass_def fin)
        with w_send_request_grows[OF assms(1,2) s] Some show ?thesis by metis
      qed
    qed
    then obtain x where x: "mutexes_grow (v w3) (v x)" "v w' = v (close_handle k (Some h) (unmap_view k p x))" by blast
    show ?thesis unfolding x(2) h(2)[symmetric]
      by (rule map_scope[OF assms(1) gm view_scope[OF assms(1) vp x(1)]])
  qed
  show ?thesis by (rule mutexes_grow_trans[OF mo_Open_grows[OF assms(1) o] grow])
qed

lemma w_send_loop_grows:
  assumes "wk_ledger k v" "wm_keeps mem v"
  shows "w_send_loop k mem large hReq n t i req w = (r, left, req', w') \<Longrightarrow> mutexes_grow (v w) (v w')"
proof (induction i arbitrary: req w)
  case (Suc i)
  obtain s req1 w1 where p: "w_send_pass k mem large hReq n t req w = (s, req1, w1)" by (metis prod_cases3)
  note g = w_send_pass_grows[OF assms p]
  show ?case
  proof (cases s)
    case False
    then have "mutexes_grow (v (wm_sleep mem w1)) (v w')" using Suc p by simp
    with g show ?thesis using mutexes_grow_trans wm_keepsD(3)[OF assms(2)] by metis
  qed (use Suc p g in simp)
qed simp

lemma w_recv_response_grows:
  assumes "wk_ledger k v" "wm_keeps mem v" "w_recv_response k mem bCheck c t p w = (r, hRes, pRes, w')"
  shows "mutexes_grow (v w) (v (close_handle k hRes w'))" and "pRes = Some pr \<Longrightarrow> pr \<notin> woViews (v w)"
proof -
  obtain ok res w1 where o: "mo_Open k (mo_new (GetResponseIPCName c) t) w = (ok, res, w1)" by (metis prod_cases3)
  obtain h w2 where m: "wk_OpenFileMapping k (GetGlobalName (GetResponseIPCName c)) w1 = (h, w2)" by fastforce
  obtain q w3 where q: "map_view k h w2 = (q, w3)" by fastforce
  note g = mo_Open_grows[OF assms(1) o] and gm = wk_ledgerD(6)[OF assms(1) m] and gv = map_view_viewed[OF assms(1) q]
  note keep = wm_keepsD[OF assms(2)] mo_end_keeps[OF assms(1)]
  have views: "woViews (v w2) = woViews (v w)" using g gm by (auto simp: got_map_def mutexes_grow_def split: option.splits)
  have big: "mutexes_grow (v w) (v (close_handle k h (unmap_view k q w3)))"
    by (rule mutexes_grow_trans[OF g map_scope[OF assms(1) gm view_scope[OF assms(1) gv mutexes_grow_refl]]])
  consider "hRes = None" "pRes = None" "v w' = v w \<or> v w' = v w1"
    | "hRes = h" "q = None" "pRes = None" "v w' = v w3" | x where "hRes = h" "q = Some x" "pRes = Some x" "v w' = v (wk_UnmapView k x w3)"
    using assms(3) o m q by (auto simp: w_recv_response_def Let_def keep split: if_splits option.splits)
  then have "mutexes_grow (v w) (v (close_handle k hRes w')) \<and> (pRes = Some pr \<longrightarrow> pr \<notin> woViews (v w))"
  proof cases
    case 1
    then show ?thesis using g by (auto simp: close_handle_def)
  next
    case 2
    then have "v (close_handle k hRes w') = v (close_handle k h (unmap_view k q w3))"
      by (cases h) (simp_all add: v_close_handle[OF assms(1)] unmap_view_def)
    with big 2 show ?thesis by simp
  next
    case (3 x)
    then have "v (close_handle k hRes w') = v (close_handle k h (unmap_view k q w3))"
      by (cases h) (simp_all add: v_close_handle[OF assms(1)] unmap_view_def)
    moreover have "x \<notin> woViews (v w)" using gv 3(2) views by (simp add: viewed_def)
    ultimately show ?thesis using big 3 by auto
  qed
  then show "mutexes_grow (v w) (v (close_handle k hRes w'))" and "pRes = Some pr \<Longrightarrow> pr \<notin> woViews (v w)" by blast+
qed

lemma w_recv_pass_grows:
  assumes "wk_ledger k v" "wm_keeps mem v" "w_recv_pass k mem bCheck c t cl w = (r, cl', w')"
  shows "mutexes_grow (v w) (v w')"
proof -
  obtain ok cl1 w1 where o: "mo_Open k cl w = (ok, cl1, w1)" by (metis prod_cases3)
  obtain h w2 where m: "wk_OpenFileMapping k (GetGlobalName c) w1 = (h, w2)" by fastforce
  obtain p w3 where p: "map_view k h w2 = (p, w3)" by fastforce
  note g = mo_Open_grows[OF assms(1) o] and gm = wk_ledgerD(6)[OF assms(1) m] and gv = map_view_viewed[OF assms(1) p]
  have "mutexes_grow (v w1) (v w')"
  proof (cases ok)
    case False
    then have "v w' = v w1" using assms(3) o
      by (auto simp: w_recv_pass_def close_handle_def unmap_view_def mo_Release_keeps[OF assms(1)])
    then show ?thesis by simp
  next
    case True
    show ?thesis
    proof (cases p)
      case None
      then have "v w' = v (close_handle k h (unmap_view k p w3))" using assms(3) o m p True
        by (cases h) (auto simp: w_recv_pass_def unmap_view_def close_handle_def[of k None] v_close_handle[OF assms(1)] mo_Release_keeps[OF assms(1)])
      then show ?thesis using map_scope[OF assms(1) gm view_scope[OF assms(1) gv mutexes_grow_refl]] by simp
    next
      case (Some a)
      obtain r1 hRes pRes w4 where s: "w_recv_response k mem bCheck c t a w3 = (r1, hRes, pRes, w4)" by (metis prod_cases4)
      note resp = w_recv_response_grows[OF assms(1,2) s]
      let ?x = "unmap_view k p (close_handle k hRes (close_handle k h (mo_Release k cl1 w4)))"
      have w': "w' = unmap_view k pRes ?x" using assms(3) o m p True Some s by (auto simp: w_recv_pass_def)
      have "v ?x = v (close_handle k h (unmap_view k p (close_handle k hRes w4)))"
        unfolding close_unmap_order[OF assms(1)]
        by (cases h; cases p; cases hRes) (simp_all add: v_close_handle[OF assms(1)] v_unmap_view[OF assms(1)] mo_Release_keeps[OF assms(1)])
      then have x: "mutexes_grow (v w1) (v ?x)"
        using map_scope[OF assms(1) gm view_scope[OF assms(1) gv resp(1)]] by simp
      have "v w' = v ?x"
      proof (cases pRes)
        case (Some b)
        then have "b \<notin> woViews (v w3)" by (rule resp(2))
        then have "b \<notin> woViews (v ?x)" using gv gm x by (auto simp: viewed_def got_map_def mutexes_grow_def \<open>p = Some a\<close> split: option.splits)
        then show ?thesis unfolding w' Some by (simp add: v_unmap_view[OF assms(1)] unviewed_def)
      qed (simp add: w' unmap_view_def)
      with x show ?thesis by simp
    qed
  qed
  with g show ?thesis by (rule mutexes_grow_trans)
qed

lemma w_recv_loop_grows:
  assumes "wk_ledger k v" "wm_keeps mem v"
  shows "w_recv_loop k mem bCheck c t i cl w = (r, cl', w') \<Longrightarrow> mutexes_grow (v w) (v w')"
proof (induction i arbitrary: cl w)
  case (Suc i)
  obtain s cl1 w1 where p: "w_recv_pass k mem bCheck c t cl w = (s, cl1, w1)" by (metis prod_cases3)
  note g = w_recv_pass_grows[OF assms p]
  show ?case
  proof (cases s)
    case False
    then have "mutexes_grow (v (wm_sleep mem w1)) (v w')" using Suc p by simp
    with g show ?thesis using mutexes_grow_trans wm_keepsD(3)[OF assms(2)] by metis
  qed (use Suc p g in simp)
qed simp

subsection \<open>Properties\<close>


text \<open>A system that gives every call a new number and lets it succeed.\<close>

record demo_win =
  dwNext :: nat
  dwOpen :: win_open

definition demo_get :: "(nat \<Rightarrow> win_open \<Rightarrow> win_open) \<Rightarrow> demo_win \<Rightarrow> nat option \<times> demo_win" where
  "demo_get f w =
     (let h = Suc (dwNext w + \<Sum>(woMutexes (dwOpen w) \<union> woMaps (dwOpen w) \<union> woViews (dwOpen w))) in
      if finite (woMutexes (dwOpen w) \<union> woMaps (dwOpen w) \<union> woViews (dwOpen w))
      then (Some h, w\<lparr>dwNext := h, dwOpen := f h (dwOpen w)\<rparr>) else (None, w))"

definition demo_wk :: "demo_win wk" where
  "demo_wk = (let mutex = demo_get (\<lambda>h a. a\<lparr>woMutexes := insert h (woMutexes a)\<rparr>); file = demo_get (\<lambda>h a. a\<lparr>woMaps := insert h (woMaps a)\<rparr>) in
     \<lparr>wk_CreateMutex = \<lambda>b n w. (let (h, w') = mutex w in ((h, False), w')), wk_OpenMutex = \<lambda>n. mutex,
      wk_Wait = \<lambda>h t w. (True, w), wk_ReleaseMutex = \<lambda>h w. w, wk_CreateFileMapping = \<lambda>n. file, wk_OpenFileMapping = \<lambda>n. file,
      wk_MapView = \<lambda>h. demo_get (\<lambda>h a. a\<lparr>woViews := insert h (woViews a)\<rparr>),
      wk_UnmapView = \<lambda>p w. w\<lparr>dwOpen := unviewed p (dwOpen w)\<rparr>, wk_CloseHandle = \<lambda>h w. w\<lparr>dwOpen := closed h (dwOpen w)\<rparr>\<rparr>)"

definition demo_wm :: "demo_win wm" where
  "demo_wm = \<lparr>wm_free = \<lambda>p w. True, wm_request = \<lambda>p w. w, wm_answered = \<lambda>p w. True, wm_large = \<lambda>p w. True,
     wm_done = \<lambda>p w. w, wm_sleep = \<lambda>w. w\<rparr>"

lemma demo_get_new: "fst (demo_get f w) = Some h \<Longrightarrow> h \<notin> woMutexes (dwOpen w) \<union> woMaps (dwOpen w) \<union> woViews (dwOpen w)"
proof -
  assume g: "fst (demo_get f w) = Some h"
  let ?S = "woMutexes (dwOpen w) \<union> woMaps (dwOpen w) \<union> woViews (dwOpen w)"
  have "finite ?S" "h = Suc (dwNext w + \<Sum>?S)" using g by (auto simp: demo_get_def Let_def split: if_splits)
  then show ?thesis using member_le_sum[of h ?S "\<lambda>x. x"] by force
qed

lemma demo_ledger: "wk_ledger demo_wk dwOpen" "wm_keeps demo_wm dwOpen"
proof -
  have g: "fst (demo_get f w) = None \<Longrightarrow> snd (demo_get f w) = w"
    "fst (demo_get f w) = Some h \<Longrightarrow> dwOpen (snd (demo_get f w)) = f h (dwOpen w)" for f w h
    by (auto simp: demo_get_def Let_def split: if_splits)
  show "wk_ledger demo_wk dwOpen"
    using g demo_get_new unfolding wk_ledger_def
    by (auto simp: demo_wk_def got_mutex_def got_map_def viewed_def Let_def split_beta split: option.split)
qed (simp add: wm_keeps_def demo_wm_def)


end
