(* ===== verification/Net_Calls.thy ===== *)
theory Net_Calls
  imports Network_Server
begin

text \<open>
  A client network and a server network on the two ends of a connection: a call of SendAndWait with the rounds of the
  threads that answer it. The world \<open>'w\<close> holds what is on its way in each direction, reached through a \<open>link\<close>; the
  socket calls read and write the links of their sockets.
\<close>

record 'w link =
  lkGet :: "'w \<Rightarrow> byte list list"
  lkSet :: "byte list list \<Rightarrow> 'w \<Rightarrow> 'w"

definition link_ok :: "'w link \<Rightarrow> bool" where
  "link_ok l = ((\<forall>x w. lkGet l (lkSet l x w) = x) \<and> (\<forall>x y w. lkSet l x (lkSet l y w) = lkSet l x w))"

definition apart :: "'w link \<Rightarrow> 'w link \<Rightarrow> bool" where
  "apart l k = (\<forall>x w. lkGet l (lkSet k x w) = lkGet l w \<and> lkGet k (lkSet l x w) = lkGet k w)"

text \<open>What recv does with the link of its socket, and send: it takes all it is given, which may be cut on its way, but
  not in its first 8 bytes.\<close>

definition reads :: "'w os \<Rightarrow> int \<Rightarrow> 'w link \<Rightarrow> bool" where
  "reads os sock l = (\<forall>len w. os_recv os sock len w =
     (fst (seg_recv len (lkGet l w)), lkSet l (snd (seg_recv len (lkGet l w))) w))"

definition pieces :: "byte list \<Rightarrow> byte list list \<Rightarrow> bool" where
  "pieces d segs = (concat segs = d \<and> [] \<notin> set segs \<and> (8 \<le> length d \<longrightarrow> 8 \<le> length (hd segs)))"

definition writes :: "'w os \<Rightarrow> int \<Rightarrow> 'w link \<Rightarrow> bool" where
  "writes os sock l = (\<forall>d w. d \<noteq> [] \<longrightarrow> fst (os_send os sock d w) = int (length d)
     \<and> (\<exists>segs. pieces d segs \<and> snd (os_send os sock d w) = lkSet l (lkGet l w @ segs) w))"

subsection \<open>Receive through a link\<close>

lemma recv_into_link:
  "reads os sock l \<Longrightarrow> recv_into os sock buf tot len w =
     map_sum id (map_prod id (map_prod id (map_prod id (\<lambda>s. lkSet l s w)))) (recv_into stream_os sock buf tot len (lkGet l w))"
  by (simp add: recv_into_def reads_def stream_os_def write_at_def split_beta split: recv_res.split)

lemma recv_loop_link:
  assumes "reads os sock l" "link_ok l" "recv_loop stream_os win sock rf m tries tot buf (lkGet l w) = Some r"
  shows "recv_loop os win sock rf m tries tot buf w = Some (map_sum id (map_prod id (map_prod id (\<lambda>s. lkSet l s w))) r)"
proof -
  let ?lift = "\<lambda>w. map_sum id (map_prod id (map_prod id (\<lambda>s. lkSet l s w)))"
  have l: "lkGet l (lkSet l x v) = x" "lkSet l x (lkSet l y v) = lkSet l x v" for x y v
    using assms(2) by (simp_all add: link_ok_def)
  have "\<forall>w. stream_os = stream_os \<longrightarrow> reads os sock l \<longrightarrow> lkGet l w = lkGet l w0 \<longrightarrow>
      recv_loop os win sock rf m tries tot buf w = Some (?lift w r)" if "w0 = w" for w0
  proof (rule recv_loop.raw_induct [where P = "\<lambda>os' win sock rf m tries tot buf ss r. \<forall>w. os' = stream_os \<longrightarrow>
      reads os sock l \<longrightarrow> lkGet l w = ss \<longrightarrow> recv_loop os win sock rf m tries tot buf w = Some (?lift w r)"], goal_cases)
    case (1 F os' win sock rf m tries tot buf ss r)
    show ?case
    proof (intro allI impI)
      fix w assume w: "os' = stream_os" "reads os sock l" "lkGet l w = ss"
      have IH: "recv_loop os win sock rf m t n b (lkSet l x w) = Some (?lift (lkSet l x w) r)"
        if "F stream_os win sock rf m t n b x = Some r" for t n b x
        using 1(1)[OF that[folded w(1)]] w(1,2) l(1) by blast
      show "recv_loop os win sock rf m tries tot buf w = Some (?lift w r)"
        using 1(2) w(1,3) IH
        by (subst recv_loop.simps) (auto simp: recv_into_link[OF w(2)] Let_def l split: sum.splits prod.splits if_splits)
    qed
  next
    case 2
    show ?case using assms(3) that by simp
  qed
  then show ?thesis using assms(1) by blast
qed

lemma recv_packet_link:
  assumes "reads os sock l" "link_ok l" "recv_packet stream_os win sock buf rf (lkGet l w) = Some r"
  shows "recv_packet os win sock buf rf w = Some (map_sum id (map_prod id (map_prod id (\<lambda>s. lkSet l s w))) r)"
proof -
  have l: "lkGet l (lkSet l x v) = x" "lkSet l x (lkSet l y v) = lkSet l x v" for x y v
    using assms(2) by (simp_all add: link_ok_def)
  show ?thesis using assms(3) recv_loop_link[OF assms(1,2), where w = "lkSet l x w" for x]
    by (auto simp: recv_packet_def recv_into_link[OF assms(1)] Let_def l split: sum.splits prod.splits if_splits)
qed

subsection \<open>Messages through a link\<close>

text \<open>The bodies Receive cuts but does not misread: longer than 8 bytes, with a size field without bytes above 127 and
  room in the buffer. \<open>clipped\<close> is what becomes of such a body.\<close>

definition fits :: "PacketData \<Rightarrow> bool" where
  "fits body = (8 < length body \<and> length body + 8 \<le> EXT_PACKET_SIZE
     \<and> (\<forall>b \<in> set (be32_bytes (word_of_nat (length body))). b < 128))"

definition clipped :: "PacketData \<Rightarrow> PacketData" where
  "clipped body = take (length body - 8) body @ replicate 8 0"

lemma packet_size_small: "EXT_PACKET_SIZE < 2 ^ 31"
  by (simp add: EXT_PACKET_SIZE_def)

lemma fits_small: "fits body \<Longrightarrow> length body < 2 ^ 31 \<and> length (convertSendMsg i body) < 2 ^ 31 \<and> convertSendMsg i body \<noteq> []"
  using length_convertSendMsg [of i body] packet_size_small by (auto simp: fits_def simp del: length_convertSendMsg)

lemma send_loop_link:
  assumes "writes os sock l" and "d \<noteq> []" and "length d < 2 ^ 31"
  obtains segs where "pieces d segs" "send_loop os sock d 0 w = Some (True, lkSet l (lkGet l w @ segs) w)"
proof -
  have "int (length d) < 2147483648" using assms(3) by simp
  then have i: "to_int32 (int (length d)) = int (length d)" "to_size (int (length d)) = length d"
    by (simp_all add: to_int32_id to_size_nonneg)
  obtain segs where "pieces d segs" "os_send os sock d w = (int (length d), lkSet l (lkGet l w @ segs) w)"
    using assms(1,2) unfolding writes_def by (metis prod.collapse)
  then show thesis using i by (intro that[of segs]) (simp_all add: send_loop.simps[of os sock d 0])
qed

text \<open>A message on a link that was empty is received cut; its last 8 bytes stay on the link.\<close>

lemma recv_packet_fits:
  assumes "reads os sock l" "link_ok l" "fits body" "pieces (convertSendMsg i body) (lkGet l w)"
  obtains rest where "recv_packet os win sock (replicate EXT_PACKET_SIZE 0) True w
      = Some (Inr (int (length body), take (length body) (convertSendMsg i body)
          @ replicate (EXT_PACKET_SIZE - length body) 0, lkSet l rest w))"
    "concat rest = drop (length body - 8) body"
proof -
  obtain s ss where s: "lkGet l w = s # ss" 
    using assms(4) fits_small[OF assms(3), of i] by (cases "lkGet l w") (simp_all add: pieces_def)
  then have p: "8 \<le> length s" "[] \<notin> set ss" "concat (s # ss) = convertSendMsg i body @ []"
    using assms(4) by (auto simp: pieces_def)
  obtain rest where "recv_packet stream_os win sock (replicate EXT_PACKET_SIZE 0) True (lkGet l w)
      = Some (Inr (int (length body), take (length body) (convertSendMsg i body) @ drop (length body) (replicate EXT_PACKET_SIZE 0), rest))"
    and r: "concat rest = drop (length body - 8) body"
    using recv_packet_message[OF streams_stream_os p, of "replicate EXT_PACKET_SIZE 0" win sock] assms(3) fits_small[OF assms(3)] s
    unfolding fits_def by auto
  from recv_packet_link[OF assms(1,2) this(1)] r show thesis by (intro that[of rest]) simp_all
qed

lemma convertReceiveMsg_fits:
  "fits body \<Longrightarrow> convertReceiveMsg (take (length body) (convertSendMsg i body) @ replicate (EXT_PACKET_SIZE - length body) 0)
     = Inr (length body, i, clipped body)"
  unfolding fits_def clipped_def by (intro convertReceiveMsg_cut packet_size_small) simp_all

subsection \<open>The steps of a call\<close>

text \<open>A client connected through a socket; a receiver of the server with its handler and nothing in its queue.\<close>

definition caller :: "int \<Rightarrow> 'w network \<Rightarrow> bool" where
  "caller sock n = (nwType (nwInfo n) = NETWORK_CLIENT \<and> \<not> nwIsStop n \<and> nwClient n = Some \<lparr>tcStatus = CONNECTED, tcSocket = sock\<rparr>)"

definition idle :: "int \<Rightarrow> 'w fnHandler \<Rightarrow> 'w receive_handler \<Rightarrow> bool" where
  "idle sock fn h = (\<not> rhIsStop h \<and> rhConnection h = sock \<and> rhHandler h = Some fn \<and> rhQueue h = eq_new)"

definition serves :: "xstring \<Rightarrow> int \<Rightarrow> 'w fnHandler \<Rightarrow> 'w network \<Rightarrow> bool" where
  "serves u sock fn sv = (0 \<le> sock \<and> (case map_of (nwMap sv) u of None \<Rightarrow> False
     | Some ci \<Rightarrow> \<not> srIsStop (ciRecv ci) \<and> srConn (ciRecv ci) = sock
         \<and> (case srHandlerObj (ciRecv ci) of None \<Rightarrow> False | Some h \<Rightarrow> idle sock fn h)))"

text \<open>A handler that answers with a function of the body under the id of the request, by SendToClientSocket of its
  server.\<close>

definition answering :: "'w os \<Rightarrow> bool \<Rightarrow> (PacketData \<Rightarrow> PacketData) \<Rightarrow> 'w network \<Rightarrow> 'w fnHandler" where
  "answering os win f sv sock pkt w =
     (case SendToClientSocket os win sock (fst (snd pkt)) (f (snd (snd pkt))) sv w of Some (Inr (ok, w')) \<Rightarrow> w' | _ \<Rightarrow> w)"

lemma call_sends:
  assumes "caller sock n" "writes os sock up" "fits body"
  obtains segs where "pieces (convertSendMsg (nwMsgIdSeq n) body) segs"
    "SendAndWait_begin os body n w = Some (Inr (Inr (nwMsgIdSeq n, nwNextFuture n),
       new_promise (nwMsgIdSeq n) (n\<lparr>nwMsgIdSeq := nwMsgIdSeq n + 1\<rparr>), lkSet up (lkGet up w @ segs) w))"
proof -
  obtain segs where "pieces (convertSendMsg (nwMsgIdSeq n) body) segs"
    "send_loop os sock (convertSendMsg (nwMsgIdSeq n) body) 0 w = Some (True, lkSet up (lkGet up w @ segs) w)"
    using send_loop_link[OF assms(2)] fits_small[OF assms(3)] by metis
  then show thesis using assms(1) fits_small[OF assms(3)]
    by (intro that[of segs]) (simp_all add: SendAndWait_begin_def caller_def tc_Send_def Let_def)
qed

lemma call_received:
  assumes "serves u sock fn sv" "reads os sock up" "link_ok up" "fits body" "pieces (convertSendMsg i body) (lkGet up w)"
  obtains sv1 sv2 rest where "server_do os win (SReceive u) (sv, w) = Some (Inr (sv1, lkSet up rest w))"
    "concat rest = drop (length body - 8) body"
    "\<And>w'. server_do os win (SHandle u) (sv1, w') = Some (Inr (sv2, fn sock (length body, i, clipped body) w'))"
    "serves u sock fn sv2"
proof -
  obtain ci h where ci: "map_of (nwMap sv) u = Some ci" "\<not> srIsStop (ciRecv ci)" "srConn (ciRecv ci) = sock" "0 \<le> sock"
    "srHandlerObj (ciRecv ci) = Some h" "idle sock fn h"
    using assms(1) by (auto simp: serves_def split: option.splits)
  have b: "0 < length body" "body \<noteq> []" using assms(4) by (auto simp: fits_def)
  have ne: "replicate EXT_PACKET_SIZE (0::byte) \<noteq> []" by (simp add: EXT_PACKET_SIZE_def)
  obtain rest where rest: "recv_packet os win sock (replicate EXT_PACKET_SIZE 0) True w
      = Some (Inr (int (length body), take (length body) (convertSendMsg i body)
          @ replicate (EXT_PACKET_SIZE - length body) 0, lkSet up rest w))" "concat rest = drop (length body - 8) body"
    using recv_packet_fits[OF assms(2-5)] by metis
  define r1 where "r1 = (ciRecv ci)\<lparr>srHandlerObj := Some (InsertPacket (length body, i, clipped body) h)\<rparr>"
  define r2 where "r2 = (ciRecv ci)\<lparr>srHandlerObj := Some h\<rparr>"
  have round: "server_receive_round os win (ciRecv ci) w = Some (Inr (False, r1, lkSet up rest w))"
    using ci rest(1) b ne convertReceiveMsg_fits[OF assms(4)]
    by (simp add: server_receive_round_def sv_Receive_def r1_def)
  have handle: "handler_round (InsertPacket (length body, i, clipped body) h) w' = Some (h, fn sock (length body, i, clipped body) w')" for w'
    using ci(6) b by (auto simp: handler_round_def InsertPacket_def idle_def eq_DeQueue_def eq_EnQueue_def eq_new_def)
  show thesis
  proof (rule that)
    show "server_do os win (SReceive u) (sv, w) = Some (Inr (put_receiver u r1 sv, lkSet up rest w))"
      using ci(1) round by (simp add: receive_of_def)
    show "server_do os win (SHandle u) (put_receiver u r1 sv, w')
        = Some (Inr (put_receiver u r2 (put_receiver u r1 sv), fn sock (length body, i, clipped body) w'))" for w'
      using ci(1) handle by (simp add: handle_of_def put_receiver_def map_of_smap_assign r1_def r2_def)
    show "serves u sock fn (put_receiver u r2 (put_receiver u r1 sv))"
      using ci by (simp add: serves_def put_receiver_def map_of_smap_assign r2_def)
  qed (rule rest(2))
qed

lemma call_answered:
  assumes "nwType (nwInfo sv) = NETWORK_SERVER" "nwServer sv \<noteq> None" "0 \<le> sock" "writes os sock down" "fits (f d)"
  obtains segs where "pieces (convertSendMsg i (f d)) segs"
    "answering os win f sv sock (k, i, d) w = lkSet down (lkGet down w @ segs) w"
proof -
  obtain segs where "pieces (convertSendMsg i (f d)) segs"
    "send_loop os sock (convertSendMsg i (f d)) 0 w = Some (True, lkSet down (lkGet down w @ segs) w)"
    using send_loop_link[OF assms(4)] fits_small[OF assms(5)] by metis
  then show thesis using assms(1-3) fits_small[OF assms(5)]
    by (intro that[of segs]) (auto simp: answering_def SendToClientSocket_def sv_Send_def)
qed

lemma call_returns:
  assumes "caller sock n" "reads os sock down" "link_ok down" "fits body" "pieces (convertSendMsg i body) (lkGet down w)"
    "map_of (nwPending n) i = Some p"
  obtains n' rest where "client_receive_round os win n w = Some (Inr (False, n', lkSet down rest w))"
    "concat rest = drop (length body - 8) body" "SendAndWait_end i p n' = Inr (Some (length body, i, clipped body), n')"
proof -
  have b: "0 < length body" using assms(4) by (auto simp: fits_def)
  have ne: "replicate EXT_PACKET_SIZE (0::byte) \<noteq> []" by (simp add: EXT_PACKET_SIZE_def)
  obtain rest where rest: "recv_packet os win sock (replicate EXT_PACKET_SIZE 0) True w
      = Some (Inr (int (length body), take (length body) (convertSendMsg i body)
          @ replicate (EXT_PACKET_SIZE - length body) 0, lkSet down rest w))" "concat rest = drop (length body - 8) body"
    using recv_packet_fits[OF assms(2-5)] by metis
  let ?n = "n\<lparr>nwPending := smap_erase i (nwPending n), nwFutures := (nwFutures n)(p := FValue (length body, i, clipped body))\<rparr>"
  show thesis
    by (rule that[of ?n, OF _ rest(2)]) (use assms(1,6) rest(1) b ne convertReceiveMsg_fits[OF assms(4)] in
      \<open>simp_all add: client_receive_round_def caller_def tc_Receive_def client_dispatch_def SendAndWait_end_def\<close>)
qed

lemma pieces_link: "link_ok l \<Longrightarrow> pieces d segs \<Longrightarrow> lkGet l w = [] \<Longrightarrow> pieces d (lkGet l (lkSet l (lkGet l w @ segs) w))"
  by (simp add: link_ok_def)

subsection \<open>Properties\<close>


text \<open>The two directions of one connection: socket 5 is the client's, socket 6 the server's.\<close>

type_synonym wire = "byte list list \<times> byte list list"

definition wire_up :: "wire link" where
  "wire_up = \<lparr>lkGet = fst, lkSet = \<lambda>x w. (x, snd w)\<rparr>"

definition wire_down :: "wire link" where
  "wire_down = \<lparr>lkGet = snd, lkSet = \<lambda>x w. (fst w, x)\<rparr>"

definition wire_os :: "wire os" where
  "wire_os = \<lparr>os_getaddrinfo = (\<lambda>h p w. ((-2, []), w)), os_socket = (\<lambda>f t p w. (-1, w)),
     os_setsockopt = (\<lambda>s opt w. (-1, w)), os_connect = (\<lambda>s a w. (-1, w)), os_bind = (\<lambda>s a w. (-1, w)),
     os_listen = (\<lambda>s w. (-1, w)), os_select = (\<lambda>ss t w. ((-1, []), w)), os_accept = (\<lambda>s w. (-1, w)),
     os_send = (\<lambda>s d w. (int (length d), if s = 5 then (fst w @ [d], snd w) else (fst w, snd w @ [d]))),
     os_recv = (\<lambda>s len w. if s = 5 then (fst (seg_recv len (snd w)), (fst w, snd (seg_recv len (snd w))))
        else (fst (seg_recv len (fst w)), (snd (seg_recv len (fst w)), snd w))),
     os_shutdown = (\<lambda>s w. (0, w)), os_close = (\<lambda>s w. w)\<rparr>"

lemma wire_links: "reads wire_os 5 wire_down" "writes wire_os 5 wire_up" "reads wire_os 6 wire_up" "writes wire_os 6 wire_down"
  "link_ok wire_up" "link_ok wire_down" "apart wire_up wire_down"
proof -
  have p: "pieces d [d]" if "d \<noteq> []" for d using that by (simp add: pieces_def)
  show "writes wire_os 5 wire_up" "writes wire_os 6 wire_down"
    using p by (auto simp: writes_def wire_os_def wire_up_def wire_down_def intro!: exI[of _ "[_]"])
qed (simp_all add: reads_def link_ok_def apart_def wire_os_def wire_up_def wire_down_def)

definition wire_client :: "wire network" where
  "wire_client = (nw_new \<lparr>nwIP = wlit ''h'', nwName = wlit ''n'', nwPort = 80, nwType = NETWORK_CLIENT\<rparr>)
     \<lparr>nwClient := Some \<lparr>tcStatus = CONNECTED, tcSocket = 5\<rparr>\<rparr>"

definition wire_base :: "wire network" where
  "wire_base = (nw_new \<lparr>nwIP = wlit ''h'', nwName = wlit ''n'', nwPort = 80, nwType = NETWORK_SERVER\<rparr>)
     \<lparr>nwServer := Some \<lparr>svListen = 3, svAddr = None, svPort = 80\<rparr>\<rparr>"

definition wire_server :: "wire network" where
  "wire_server = insert_client (wlit ''a'') 6 (SetGlobalServerHandler (Some (answering wire_os True (map ((+) 1)) wire_base)) wire_base)"

lemma wire_serves: "serves (wlit ''a'') 6 (answering wire_os True (map ((+) 1)) wire_base) wire_server"
  by (simp add: serves_def wire_server_def insert_client_def SetGlobalServerHandler_def wire_base_def nw_new_def smap_emplace_def
      map_of_smap_assign sr_Start_def sr_Stop_def sr_new_def sr_SetClientInfo_def rh_new_def idle_def Let_def)


end
