(* ===== verification/Sqlite_Handles.thy ===== *)
theory Sqlite_Handles
  imports Sqlite_Mgr
begin

text \<open>
  The connections cSQLiteMgr (SQLite/EXSQLite.cpp) has open, over any sequence of its InitDB and Close. \<open>sql_ledger\<close> is
  what sqlite3 documents about its connections: an open gives a connection that was not open, also when it fails, and
  that can be closed at once; a close that succeeds ends its connection; nothing else makes or ends one.
\<close>

definition sql_ledger :: "'w sqlite \<Rightarrow> ('w \<Rightarrow> nat set) \<Rightarrow> bool" where
  "sql_ledger sq v =
     ((\<forall>p w. snd (fst (sq_open16 sq p w)) \<notin> v w \<and> v (snd (sq_open16 sq p w)) = insert (snd (fst (sq_open16 sq p w))) (v w)
          \<and> fst (sq_close sq (snd (fst (sq_open16 sq p w))) (snd (sq_open16 sq p w))) = SQLITE_OK)
      \<and> (\<forall>d w. v (snd (sq_close sq d w)) = (if fst (sq_close sq d w) = SQLITE_OK then v w - {d} else v w))
      \<and> (\<forall>d c w. v (snd (sq_exec sq d c w)) = v w) \<and> (\<forall>d q s w. v (snd (sq_prepare16 sq d q s w)) = v w)
      \<and> (\<forall>s w. v (snd (sq_step sq s w)) = v w) \<and> (\<forall>s w. v (snd (sq_reset sq s w)) = v w))"

lemma sql_ledgerD:
  assumes "sql_ledger sq v"
  shows "sq_open16 sq p w = ((rc, db), w') \<Longrightarrow> db \<notin> v w \<and> v w' = insert db (v w) \<and> v (snd (sq_close sq db w')) = v w"
    and "sq_close sq d w = (rc, w') \<Longrightarrow> v w' = (if rc = SQLITE_OK then v w - {d} else v w)"
    and "v (snd (sq_exec sq d c w)) = v w" "v (snd (sq_prepare16 sq d q s w)) = v w"
    and "v (snd (sq_step sq s w)) = v w" "v (snd (sq_reset sq s w)) = v w"
  using assms unfolding sql_ledger_def by (metis Diff_insert_absorb fst_conv snd_conv)+

subsection \<open>The statements keep the connections\<close>

lemma st_destroy_keeps: "sql_ledger sq v \<Longrightarrow> v (st_destroy sq st w) = v w"
  by (simp add: st_destroy_def sql_ledgerD)

lemma PrepareSQL_keeps: "sql_ledger sq v \<Longrightarrow> v (snd (snd (PrepareSQL sq db st q w))) = v w"
  using sql_ledgerD(4)[of sq v] by (auto simp: PrepareSQL_def st_destroy_keeps split: option.split prod.split) (metis snd_conv)+

lemma ExecuteSQL_keeps: "sql_ledger sq v \<Longrightarrow> v (snd (snd (ExecuteSQL sq db st w))) = v w"
  using sql_ledgerD(5,6)[of sq v] by (auto simp: ExecuteSQL_def Let_def split: option.split prod.split) (metis snd_conv)+

lemma run_query_keeps: "sql_ledger sq v \<Longrightarrow> v (snd (run_query sq db q sw)) = v (snd sw)"
  using PrepareSQL_keeps[of sq v db "fst sw" q "snd sw"] ExecuteSQL_keeps[of sq v db]
  by (auto simp: run_query_def split_beta)

lemma tr_exec_keeps: "sql_ledger sq v \<Longrightarrow> v (snd (tr_exec sq c db w)) = v w"
  by (simp add: tr_exec_def split_beta sql_ledgerD(3) split: option.split)

lemma create_loop_keeps: "sql_ledger sq v \<Longrightarrow> v (snd (snd (create_loop sq mb2wc db j idxs sw))) = v (snd sw)"
  by (induction idxs arbitrary: sw) (auto simp: run_query_keeps split: sum.split)

lemma create_block_keeps:
  assumes "sql_ledger sq v" "create_block sq mb2wc db j w = Some (r, st, w')"
  shows "v w' = v w"
proof -
  define sw where "sw = run_query sq db (wlit ''CREATE TABLE TBL_DEFAULT( id TEXT NOT NULL, rev TEXT NOT NULL );'')
    (run_query sq db (wlit ''PRAGMA encoding = \"UTF-16le\";'') (st_new, w))"
  have sw: "v (snd sw) = v w" by (simp add: sw_def run_query_keeps[OF assms(1)])
  show ?thesis
  proof (cases "jcRev j")
    case (Inl e)
    then show ?thesis using assms(2) sw unfolding create_block_def Let_def sw_def[symmetric] by simp
  next
    case (Inr n)
    obtain e sw' where l: "create_loop sq mb2wc db j [1..n] sw = (e, sw')" by (metis prod.collapse)
    have lv: "v (snd sw') = v w" using create_loop_keeps[OF assms(1), of mb2wc db j "[1..n]" sw] sw l by simp
    have "(st, w') = sw' \<or> (\<exists>t. (st, w') = run_query sq db t sw')"
      using assms(2) Inr l unfolding create_block_def Let_def sw_def[symmetric]
      by (cases e) (auto split: option.splits sum.splits intro: sym)
    then show ?thesis using lv run_query_keeps[OF assms(1), of db _ sw'] by (metis snd_conv)
  qed
qed

lemma create_db_keeps: "sql_ledger sq v \<Longrightarrow> create_db sq mb2wc db j w = Some (r, w') \<Longrightarrow> v w' = v w"
  using create_block_keeps[of sq v mb2wc db j "tr_new sq db w"]
  by (auto simp: create_db_def tr_destroy_def tr_Commit_def tr_new_def tr_Begin_def tr_exec_keeps st_destroy_keeps
      split: option.splits)

lemma enable_wal_keeps: "sql_ledger sq v \<Longrightarrow> v (enable_wal sq db w) = v w"
  by (simp add: enable_wal_def split_beta st_destroy_keeps run_query_keeps)

subsection \<open>What InitDB opens\<close>

text \<open>InitDB leaves the manager and the connections alone or registers the one it opens under a new name, whatever
  its result.\<close>

lemma InitDB_info_opens:
  assumes "sql_ledger sq v" and "InitDB_info sq fsw json mb2wc info m w = Some (r, m', w')"
  shows "m' = m \<and> v w' = v w \<or> (\<exists>db. db \<notin> v w \<and> map_of m (diDBName info) = None \<and> v w' = insert db (v w)
     \<and> m' = smap_assign (diDBName info) (info\<lparr>diSQLite := Some db\<rparr>) m)"
proof -
  obtain rc db w1 where o: "sq_open16 sq (c_str_of (diFilePath info)) w = ((rc, db), w1)" by (metis prod.collapse)
  note op = sql_ledgerD(1)[OF assms(1) o]
  let ?w2 = "if diUseWALMode info then enable_wal sq (Some db) w1 else w1"
  have w2: "v ?w2 = v w1" using enable_wal_keeps[OF assms(1)] by simp
  show ?thesis using assms(2) o op w2 create_db_keeps[OF assms(1)]
    by (auto simp: InitDB_info_def Let_def IsExistDBInfo_def smap_contains_def split: if_splits option.splits sum.splits prod.splits)
qed

lemma InitDB_info_returns: "\<exists>r m' w'. InitDB_info sq fsw json mb2wc info m w = Some (r, m', w')"
proof -
  have "\<exists>r st w'. create_block sq mb2wc db j w = Some (r, st, w')" for db j w
  proof (cases "jcRev j")
    case (Inl e)
    then show ?thesis unfolding create_block_def Let_def by simp
  next
    case (Inr n)
    then show ?thesis using create_block_ok[of j n sq mb2wc db w] by auto
  qed
  then have c: "create_db sq mb2wc db j w \<noteq> None" for db j w
    unfolding create_db_def by (metis (no_types, lifting) case_prod_conv option.simps(5) option.distinct(1))
  show ?thesis
  proof (rule ccontr)
    assume n: "\<not> ?thesis"
    then have n: "InitDB_info sq fsw json mb2wc info m w = None" by (metis prod_cases3 option.exhaust)
    show False using n by (auto simp: c InitDB_info_def Let_def split: if_splits option.splits sum.splits prod.splits)
  qed
qed

subsection \<open>Sequences of calls\<close>

datatype mgr_op = MInit DB_INFO | MInitPath xstring xstring | MClose xstring

fun mgr_do ::
    "'w sqlite \<Rightarrow> ('w \<Rightarrow> fs) \<Rightarrow> (xstring \<Rightarrow> xstring \<Rightarrow> 'w \<Rightarrow> json_create option res) \<Rightarrow> (byte list \<Rightarrow> xstring)
     \<Rightarrow> mgr_op \<Rightarrow> db_map \<times> 'w \<Rightarrow> (db_map \<times> 'w) option" where
  "mgr_do sq fsw json mb2wc (MInit info) (m, w) = map_option snd (InitDB_info sq fsw json mb2wc info m w)"
| "mgr_do sq fsw json mb2wc (MInitPath n p) (m, w) = map_option snd (InitDB sq fsw json mb2wc n p m w)"
| "mgr_do sq fsw json mb2wc (MClose n) (m, w) = Some (m, snd (db_Close sq n m w))"

fun mgr_runs ::
    "'w sqlite \<Rightarrow> ('w \<Rightarrow> fs) \<Rightarrow> (xstring \<Rightarrow> xstring \<Rightarrow> 'w \<Rightarrow> json_create option res) \<Rightarrow> (byte list \<Rightarrow> xstring)
     \<Rightarrow> mgr_op list \<Rightarrow> db_map \<times> 'w \<Rightarrow> (db_map \<times> 'w) option" where
  "mgr_runs sq fsw json mb2wc [] s = Some s"
| "mgr_runs sq fsw json mb2wc (c # cs) s = (case mgr_do sq fsw json mb2wc c s of None \<Rightarrow> None
     | Some s' \<Rightarrow> mgr_runs sq fsw json mb2wc cs s')"

text \<open>\<open>V\<close> are the connections from before, \<open>C\<close> those now. Without a Close the manager has exactly the connections of
  its entries, one each.\<close>

definition mgr_ok :: "nat set \<Rightarrow> db_map \<Rightarrow> nat set \<Rightarrow> bool" where
  "mgr_ok V m C = (smap_ok m \<and> (\<forall>n. IsExistDBInfo n m \<longrightarrow> (\<exists>db. GetDB n m = Some db \<and> db \<notin> V))
     \<and> V \<subseteq> C \<and> C \<subseteq> V \<union> {db. \<exists>n. GetDB n m = Some db})"

definition mgr_exact :: "nat set \<Rightarrow> db_map \<Rightarrow> nat set \<Rightarrow> bool" where
  "mgr_exact V m C = (C = V \<union> {db. \<exists>n. GetDB n m = Some db}
     \<and> (\<forall>a b db. GetDB a m = Some db \<longrightarrow> GetDB b m = Some db \<longrightarrow> a = b))"

lemma GetDB_assign: "GetDB n (smap_assign k (i\<lparr>diSQLite := Some db\<rparr>) m) = (if n = k then Some db else GetDB n m)"
  by (simp add: GetDB_def map_of_smap_assign)

lemma IsExist_assign: "IsExistDBInfo n (smap_assign k i m) = (n = k \<or> IsExistDBInfo n m)"
  by (simp add: IsExistDBInfo_def smap_contains_def map_of_smap_assign)

lemma GetDB_exists: "GetDB n m = Some db \<Longrightarrow> map_of m n \<noteq> None"
  by (auto simp: GetDB_def split: option.splits)

lemma mgr_ok_init:
  assumes "sql_ledger sq v" "InitDB_info sq fsw json mb2wc info m w = Some (r, m', w')"
  shows "mgr_ok V m (v w) \<Longrightarrow> mgr_ok V m' (v w')" and "mgr_exact V m (v w) \<Longrightarrow> mgr_exact V m' (v w')"
proof -
  let ?n = "diDBName info"
  consider "m' = m" "v w' = v w" | db where "db \<notin> v w" "map_of m ?n = None" "v w' = insert db (v w)"
    "m' = smap_assign ?n (info\<lparr>diSQLite := Some db\<rparr>) m" using InitDB_info_opens[OF assms] by blast
  then have "(mgr_ok V m (v w) \<longrightarrow> mgr_ok V m' (v w')) \<and> (mgr_exact V m (v w) \<longrightarrow> mgr_exact V m' (v w'))"
  proof cases
    case 2
    have new: "GetDB ?n m = None" using GetDB_exists 2(2) by (metis not_None_eq)
    have g: "GetDB n m' = (if n = ?n then Some db else GetDB n m)" "IsExistDBInfo n m' = (n = ?n \<or> IsExistDBInfo n m)" for n
      unfolding 2(4) by (rule GetDB_assign, rule IsExist_assign)
    have all: "{d. \<exists>n. GetDB n m' = Some d} = insert db {d. \<exists>n. GetDB n m = Some d}"
    proof (intro set_eqI iffI)
      fix d assume "d \<in> insert db {d. \<exists>n. GetDB n m = Some d}"
      then consider "d = db" | n where "GetDB n m = Some d" "n \<noteq> ?n" using new by fastforce
      then show "d \<in> {d. \<exists>n. GetDB n m' = Some d}" using g(1) by cases auto
    qed (auto simp: g(1) split: if_splits)
    have "mgr_ok V m' (v w')" if m: "mgr_ok V m (v w)"
      unfolding mgr_ok_def all 2(3)
    proof (intro conjI allI impI)
      show "smap_ok m'" using m unfolding 2(4) mgr_ok_def by (simp add: smap_ok_assign)
      fix n assume "IsExistDBInfo n m'"
      then show "\<exists>db. GetDB n m' = Some db \<and> db \<notin> V" using m 2(1) unfolding g mgr_ok_def by auto
    qed (use m in \<open>auto simp: mgr_ok_def\<close>)
    moreover have "mgr_exact V m' (v w')" if m: "mgr_exact V m (v w)"
      unfolding mgr_exact_def all 2(3)
    proof (intro conjI allI impI)
      fix a b d assume "GetDB a m' = Some d" "GetDB b m' = Some d"
      moreover have "d \<in> v w" if "GetDB n m = Some d" for n using m that unfolding mgr_exact_def by blast
      ultimately show "a = b" using m 2(1) unfolding g mgr_exact_def by (metis option.inject)
    qed (use m in \<open>auto simp: mgr_exact_def\<close>)
    ultimately show ?thesis by blast
  qed simp
  then show "mgr_ok V m (v w) \<Longrightarrow> mgr_ok V m' (v w')" and "mgr_exact V m (v w) \<Longrightarrow> mgr_exact V m' (v w')" by blast+
qed

lemma mgr_ok_close:
  assumes "sql_ledger sq v" "mgr_ok V m (v w)"
  shows "mgr_ok V m (v (snd (db_Close sq n m w)))"
proof -
  have "d \<notin> V" if "GetDB n m = Some d" for d
    using assms(2) that GetDB_exists[OF that] by (auto simp: mgr_ok_def IsExistDBInfo_def smap_contains_def)
  then show ?thesis using assms(2) sql_ledgerD(2)[OF assms(1)]
    by (auto simp: mgr_ok_def db_Close_def split: option.splits prod.splits if_splits)
qed

lemma mgr_do_ok:
  assumes "sql_ledger sq v" "mgr_ok V m (v w)"
  obtains m' w' where "mgr_do sq fsw json mb2wc c (m, w) = Some (m', w')" "mgr_ok V m' (v w')"
    "(\<forall>n. c \<noteq> MClose n) \<longrightarrow> mgr_exact V m (v w) \<longrightarrow> mgr_exact V m' (v w')"
proof (cases c)
  case (MInit i)
  then show ?thesis using that InitDB_info_returns[of sq fsw json mb2wc i m w] mgr_ok_init[OF assms(1)] assms(2) by fastforce
next
  case (MInitPath n p)
  let ?i = "\<lparr>diDBName = n, diFilePath = p, diJsonPath = [], diSQLite = None, diUseWALMode = False\<rparr>"
  show ?thesis using that MInitPath InitDB_info_returns[of sq fsw json mb2wc ?i m w] mgr_ok_init[OF assms(1)] assms(2)
    by (fastforce simp: InitDB_def)
next
  case (MClose n)
  then show ?thesis using that mgr_ok_close[OF assms] by simp
qed

lemma mgr_runs_ok:
  assumes "sql_ledger sq v"
  shows "mgr_ok V m (v w) \<Longrightarrow> \<exists>m' w'. mgr_runs sq fsw json mb2wc cs (m, w) = Some (m', w') \<and> mgr_ok V m' (v w')
      \<and> ((\<forall>n. MClose n \<notin> set cs) \<longrightarrow> mgr_exact V m (v w) \<longrightarrow> mgr_exact V m' (v w'))"
proof (induction cs arbitrary: m w)
  case (Cons c cs)
  obtain m1 w1 where c: "mgr_do sq fsw json mb2wc c (m, w) = Some (m1, w1)" "mgr_ok V m1 (v w1)"
    "(\<forall>n. c \<noteq> MClose n) \<longrightarrow> mgr_exact V m (v w) \<longrightarrow> mgr_exact V m1 (v w1)"
    using mgr_do_ok[OF assms Cons.prems] by metis
  from Cons.IH[OF c(2)] c(1,3) show ?case by fastforce
qed simp

text \<open>Close leaves the entry with a connection that is gone. A later open may give the same number (the address of the
  new connection), and the next Close of the old name closes the new one.\<close>

lemma stale_Close_closes_other:
  assumes "sql_ledger sq v" "GetDB a m = Some db" "GetDB b m = Some db" "a \<noteq> b" "db_Close sq a m w = (True, w')"
  shows "GetDB b m = Some db \<and> db \<notin> v w'"
  using assms sql_ledgerD(2)[OF assms(1), of db w] by (auto simp: db_Close_def split: prod.splits)

subsection \<open>Properties\<close>


definition sq_counting :: "nat list sqlite" where
  "sq_counting = \<lparr>sq_open16 = \<lambda>p w. ((SQLITE_OK, Suc (sum_list w)), Suc (sum_list w) # w),
     sq_close = \<lambda>d w. (SQLITE_OK, filter (\<lambda>c. c \<noteq> d) w), sq_exec = \<lambda>d cmd w. (SQLITE_OK, w),
     sq_prepare16 = \<lambda>d q s w. ((SQLITE_OK, Some 0), w), sq_step = \<lambda>s w. (SQLITE_DONE, w), sq_reset = \<lambda>s w. (SQLITE_OK, w),
     sq_bind_index = \<lambda>s n w. 0, sq_bind_text16 = \<lambda>s i x w. (SQLITE_OK, w), sq_column_count = \<lambda>s w. 0,
     sq_column_name = \<lambda>s i w. None, sq_column_text = \<lambda>s i w. None, sq_column_text16 = \<lambda>s i w. None\<rparr>"

lemma sq_counting_ledger: "sql_ledger sq_counting set"
proof -
  have "Suc (sum_list w) \<notin> set w" for w :: "nat list" using member_le_sum_list[of "Suc (sum_list w)" w] by auto
  then show ?thesis by (auto simp: sql_ledger_def sq_counting_def)
qed


end
