(* ===== verification/Qt_Switch.thy ===== *)
theory Qt_Switch
  imports Complex_Main
begin

text \<open>
  QT/ExQtSwitch.hpp/.cpp: a switch with three animations, its reaction to clicks and setChecked, and what it paints. Qt's
  QVariantAnimation is the record \<open>qva\<close> of its calls on an animation \<open>'a\<close>; what a widget keeps for Qt (checked,
  enabled, visible, text, direction, size) are fields of the switch. Coordinates and opacities are rational numbers, a
  painter's calls a list. int is unbounded here, as all numbers stay small.
\<close>

subsection \<open>The style\<close>

datatype qcolor = QColor int int int int
datatype easing = Linear | InOutQuad

fun red :: "qcolor \<Rightarrow> int" where "red (QColor r g b a) = r"
fun green :: "qcolor \<Rightarrow> int" where "green (QColor r g b a) = g"
fun blue :: "qcolor \<Rightarrow> int" where "blue (QColor r g b a) = b"

definition CYAN500 :: qcolor where "CYAN500 = QColor 0 188 212 255"
definition GRAY50 :: qcolor where "GRAY50 = QColor 250 250 250 255"
definition BLACK :: qcolor where "BLACK = QColor 0 0 0 255"
definition GRAY400 :: qcolor where "GRAY400 = QColor 189 189 189 255"

record anim_style =
  asEasing :: easing
  asDuration :: int

record margins =
  mLeft :: int
  mTop :: int
  mRight :: int
  mBottom :: int

record switch_style =
  ssHeight :: int
  ssFont :: "string \<times> int"
  ssMargin :: margins
  ssThumbOn :: qcolor
  ssThumbOnOpacity :: rat
  ssTrackOn :: qcolor
  ssTrackOnOpacity :: rat
  ssThumbOff :: qcolor
  ssThumbOffOpacity :: rat
  ssTrackOff :: qcolor
  ssTrackOffOpacity :: rat
  ssThumbDisabled :: qcolor
  ssThumbDisabledOpacity :: rat
  ssTrackDisabled :: qcolor
  ssTrackDisabledOpacity :: rat
  ssTextColor :: qcolor
  ssDisabledTextOpacity :: rat
  ssThumbBrushAnimation :: anim_style
  ssTrackBrushAnimation :: anim_style
  ssThumbPosAniamtion :: anim_style

definition style_new :: switch_style where
  "style_new = \<lparr>ssHeight = 36, ssFont = (''Roboto medium'', 13),
     ssMargin = \<lparr>mLeft = 8, mTop = 8, mRight = 8, mBottom = 8\<rparr>,
     ssThumbOn = CYAN500, ssThumbOnOpacity = 1, ssTrackOn = CYAN500, ssTrackOnOpacity = 1 / 2,
     ssThumbOff = GRAY50, ssThumbOffOpacity = 1, ssTrackOff = BLACK, ssTrackOffOpacity = 38 / 100,
     ssThumbDisabled = GRAY400, ssThumbDisabledOpacity = 1, ssTrackDisabled = BLACK, ssTrackDisabledOpacity = 12 / 100,
     ssTextColor = BLACK, ssDisabledTextOpacity = 26 / 100,
     ssThumbBrushAnimation = \<lparr>asEasing = Linear, asDuration = 150\<rparr>,
     ssTrackBrushAnimation = \<lparr>asEasing = Linear, asDuration = 150\<rparr>,
     ssThumbPosAniamtion = \<lparr>asEasing = InOutQuad, asDuration = 150\<rparr>\<rparr>"

text \<open>qRound of a number that is not negative.\<close>

definition qRound :: "rat \<Rightarrow> int" where
  "qRound x = \<lfloor>x + 1 / 2\<rfloor>"

definition colorFromOpacity :: "qcolor \<Rightarrow> rat \<Rightarrow> qcolor" where
  "colorFromOpacity c opacity = QColor (red c) (green c) (blue c) (qRound (opacity * 255))"

subsection \<open>Animator\<close>

datatype qvariant = QInvalid | QInt int | QCol qcolor
datatype anim_state = Stopped | Paused | Running

fun toIntV :: "qvariant \<Rightarrow> int" where
  "toIntV (QInt n) = n"
| "toIntV _ = 0"

text \<open>start gets the updateState of the class, which it calls.\<close>

record 'a qva =
  qa_new :: 'a
  qa_setDuration :: "int \<Rightarrow> 'a \<Rightarrow> 'a"
  qa_setEasing :: "easing \<Rightarrow> 'a \<Rightarrow> 'a"
  qa_setStart :: "qvariant \<Rightarrow> 'a \<Rightarrow> 'a"
  qa_setEnd :: "qvariant \<Rightarrow> 'a \<Rightarrow> 'a"
  qa_start :: "(anim_state \<Rightarrow> anim_state \<Rightarrow> 'a \<Rightarrow> 'a) \<Rightarrow> 'a \<Rightarrow> 'a"
  qa_stop :: "'a \<Rightarrow> 'a"
  qa_tick :: "'a \<Rightarrow> 'a"
  qa_updateState :: "anim_state \<Rightarrow> anim_state \<Rightarrow> 'a \<Rightarrow> 'a"
  qa_state :: "'a \<Rightarrow> anim_state"
  qa_current :: "'a \<Rightarrow> qvariant"
  qa_end :: "'a \<Rightarrow> qvariant"

text \<open>The target is an object, \<open>None\<close> once it is gone.\<close>

record 'a animator =
  anQt :: 'a
  anTarget :: "nat option"

definition an_isRunning :: "'a qva \<Rightarrow> 'a animator \<Rightarrow> bool" where
  "an_isRunning q a = (qa_state q (anQt a) = Running)"

definition an_setTargetObject :: "'a qva \<Rightarrow> nat option \<Rightarrow> 'a animator \<Rightarrow> 'a animator" where
  "an_setTargetObject q t a =
     (if anTarget a = t then a else if an_isRunning q a then a else a\<lparr>anTarget := t\<rparr>)"

definition an_new :: "'a qva \<Rightarrow> nat option \<Rightarrow> 'a animator" where
  "an_new q t = an_setTargetObject q t \<lparr>anQt = qa_new q, anTarget = None\<rparr>"

text \<open>\<open>acc\<close> is whether the target accepts the event it is sent.\<close>

definition an_updateCurrentValue :: "'a qva \<Rightarrow> bool \<Rightarrow> 'a animator \<Rightarrow> 'a animator" where
  "an_updateCurrentValue q acc a =
     (if anTarget a \<noteq> None \<and> \<not> acc then a\<lparr>anQt := qa_stop q (anQt a)\<rparr> else a)"

definition an_updateState :: "'a qva \<Rightarrow> nat option \<Rightarrow> anim_state \<Rightarrow> anim_state \<Rightarrow> 'a \<Rightarrow> 'a" where
  "an_updateState q t new old x = (if t = None \<and> old = Stopped then x else qa_updateState q new old x)"

definition an_setup :: "'a qva \<Rightarrow> anim_style \<Rightarrow> 'a animator \<Rightarrow> 'a animator" where
  "an_setup q s a = a\<lparr>anQt := qa_setEasing q (asEasing s) (qa_setDuration q (asDuration s) (anQt a))\<rparr>"

definition an_interpolate :: "'a qva \<Rightarrow> qvariant \<Rightarrow> qvariant \<Rightarrow> 'a animator \<Rightarrow> 'a animator" where
  "an_interpolate q s e a =
     a\<lparr>anQt := qa_start q (an_updateState q (anTarget a)) (qa_setEnd q e (qa_setStart q s (anQt a)))\<rparr>"

definition an_setCurrentValue :: "'a qva \<Rightarrow> bool \<Rightarrow> qvariant \<Rightarrow> 'a animator \<Rightarrow> 'a animator" where
  "an_setCurrentValue q acc x a = an_updateCurrentValue q acc (a\<lparr>anQt := qa_setEnd q x (qa_setStart q x (anQt a))\<rparr>)"

abbreviation an_value :: "'a qva \<Rightarrow> 'a animator \<Rightarrow> qvariant" where
  "an_value q a \<equiv> qa_current q (anQt a)"

definition an_destroy :: "'a qva \<Rightarrow> 'a animator \<Rightarrow> 'a" where
  "an_destroy q a = qa_stop q (anQt a)"

subsection \<open>The switch\<close>

datatype check_state = Unchecked | Checked

record rect =
  rX :: rat
  rY :: rat
  rW :: rat
  rH :: rat

definition marginsRemoved :: "margins \<Rightarrow> rect \<Rightarrow> rect" where
  "marginsRemoved m r = \<lparr>rX = rX r + of_int (mLeft m), rY = rY r + of_int (mTop m),
     rW = rW r - of_int (mLeft m) - of_int (mRight m), rH = rH r - of_int (mTop m) - of_int (mBottom m)\<rparr>"

text \<open>QRectF::setX moves the left edge and keeps the right one.\<close>

definition setX :: "rat \<Rightarrow> rect \<Rightarrow> rect" where
  "setX x r = r\<lparr>rX := x, rW := rX r + rW r - x\<rparr>"

definition centre :: "rect \<Rightarrow> rat \<times> rat" where
  "centre r = (rX r + rW r / 2, rY r + rH r / 2)"

text \<open>The pixmap of drawShadowEllipse: its side, and the ellipse that fades from the colour to a transparent one.\<close>

record shadow =
  shSide :: rat
  shCentre :: "rat \<times> rat"
  shRadius :: rat
  shColors :: "qcolor \<times> qcolor"

definition drawShadowEllipse :: "rat \<Rightarrow> rat \<Rightarrow> qcolor \<Rightarrow> shadow" where
  "drawShadowEllipse radius elevation color =
     (let side = of_int \<lfloor>radius * 2\<rfloor> in
      \<lparr>shSide = side, shCentre = (side / 2, side / 2), shRadius = radius - elevation,
       shColors = (color, QColor (red color) (green color) (blue color) 0)\<rparr>)"

definition CORNER_RADIUS :: rat where "CORNER_RADIUS = 8"
definition THUMB_RADIUS :: rat where "THUMB_RADIUS = 29 / 2"
definition SHADOW_ELEVATION :: rat where "SHADOW_ELEVATION = 2"

record 'a switch =
  swStyle :: switch_style
  swShadow :: "shadow option"
  swThumbBrush :: "'a animator"
  swTrackBrush :: "'a animator"
  swThumbPos :: "'a animator"
  swChecked :: bool
  swEnabled :: bool
  swVisible :: bool
  swLtr :: bool
  swSize :: "int \<times> int"
  swText :: string
  swFont :: "string \<times> int"
  swPalette :: "qcolor \<times> qcolor"  \<comment> \<open>the text active and disabled\<close>
  swSignals :: "check_state list"

definition checkState :: "'a switch \<Rightarrow> check_state" where
  "checkState sw = (if swChecked sw then Checked else Unchecked)"

definition on_colors :: "switch_style \<Rightarrow> qvariant \<times> qvariant" where
  "on_colors st = (QCol (colorFromOpacity (ssThumbOn st) (ssThumbOnOpacity st)), QCol (colorFromOpacity (ssTrackOn st) (ssTrackOnOpacity st)))"

definition off_colors :: "switch_style \<Rightarrow> qvariant \<times> qvariant" where
  "off_colors st = (QCol (colorFromOpacity (ssThumbOff st) (ssThumbOffOpacity st)), QCol (colorFromOpacity (ssTrackOff st) (ssTrackOffOpacity st)))"

text \<open>toggle, with the two branches of the code as its arguments; \<open>acc\<close> tells whether a widget that is visible, or not,
  accepts the event of the animations.\<close>

definition sw_toggle :: "'a qva \<Rightarrow> (bool \<Rightarrow> bool) \<Rightarrow> check_state \<Rightarrow> 'a switch \<Rightarrow> 'a switch" where
  "sw_toggle q acc state sw =
     (let st = swStyle sw; m = ssMargin st;
          posEnd = (if state = Checked then QInt ((mLeft m + mRight m + 2) * 2) else QInt 0);
          (thumbEnd, trackEnd) = (if state = Checked then on_colors st else off_colors st);
          (thumbStart, trackStart) = (if state = Checked then off_colors st else on_colors st);
          posStart = (if state = Checked then QInt 0 else QInt (toIntV (an_value q (swThumbPos sw))))
      in if \<not> swVisible sw
         then sw\<lparr>swThumbPos := an_setCurrentValue q (acc False) posEnd (swThumbPos sw),
                 swThumbBrush := an_setCurrentValue q (acc False) thumbEnd (swThumbBrush sw),
                 swTrackBrush := an_setCurrentValue q (acc False) trackEnd (swTrackBrush sw)\<rparr>
         else sw\<lparr>swThumbPos := an_interpolate q posStart posEnd (swThumbPos sw),
                 swThumbBrush := an_interpolate q thumbStart thumbEnd (swThumbBrush sw),
                 swTrackBrush := an_interpolate q trackStart trackEnd (swTrackBrush sw)\<rparr>)"

definition checkStateSet :: "'a qva \<Rightarrow> (bool \<Rightarrow> bool) \<Rightarrow> 'a switch \<Rightarrow> 'a switch" where
  "checkStateSet q acc sw =
     (let state = checkState sw in sw_toggle q acc state (sw\<lparr>swSignals := swSignals sw @ [state]\<rparr>))"

text \<open>QAbstractButton::nextCheckState changes the check state; it does not call checkStateSet. setChecked does, also when
  the state stays.\<close>

definition nextCheckState :: "'a qva \<Rightarrow> (bool \<Rightarrow> bool) \<Rightarrow> 'a switch \<Rightarrow> 'a switch" where
  "nextCheckState q acc sw = checkStateSet q acc (sw\<lparr>swChecked := \<not> swChecked sw\<rparr>)"

definition setChecked :: "'a qva \<Rightarrow> (bool \<Rightarrow> bool) \<Rightarrow> bool \<Rightarrow> 'a switch \<Rightarrow> 'a switch" where
  "setChecked q acc b sw = checkStateSet q acc (sw\<lparr>swChecked := b\<rparr>)"

definition still :: "'a qva \<Rightarrow> qvariant \<Rightarrow> anim_style \<Rightarrow> nat \<Rightarrow> 'a animator" where
  "still q x s t = (let a = an_setup q s (an_new q (Some t)) in a\<lparr>anQt := qa_setEnd q x (qa_setStart q x (anQt a))\<rparr>)"

text \<open>The widget before its constructor runs init, and the constructors; \<open>t\<close> is the widget as an object. The last one
  changes the colours after init has made the animations.\<close>

definition sw_init :: "'a qva \<Rightarrow> nat \<Rightarrow> 'a switch" where
  "sw_init q t =
     (let st = style_new in
      \<lparr>swStyle = st, swShadow = None,
       swThumbBrush = still q (fst (off_colors st)) (ssThumbBrushAnimation st) t,
       swTrackBrush = still q (snd (off_colors st)) (ssTrackBrushAnimation st) t,
       swThumbPos = an_setup q (ssThumbPosAniamtion st) (an_new q (Some t)),
       swChecked = False, swEnabled = True, swVisible = False, swLtr = True, swSize = (0, 0), swText = [], swFont = ssFont st,
       swPalette = (ssTextColor st, ssTextColor st), swSignals = []\<rparr>)"

definition sw_new_text :: "'a qva \<Rightarrow> nat \<Rightarrow> string \<Rightarrow> 'a switch" where
  "sw_new_text q t text = (sw_init q t)\<lparr>swText := text\<rparr>"

definition sw_new_brush :: "'a qva \<Rightarrow> nat \<Rightarrow> string \<Rightarrow> qcolor \<Rightarrow> 'a switch" where
  "sw_new_brush q t text color =
     (let sw = sw_new_text q t text in sw\<lparr>swStyle := (swStyle sw)\<lparr>ssThumbOn := color, ssTrackOn := color\<rparr>\<rparr>)"

subsection \<open>What it paints\<close>

definition indicator_width :: "switch_style \<Rightarrow> int" where
  "indicator_width st = mLeft (ssMargin st) + ssHeight st + mRight (ssMargin st)"

definition indicatorRect :: "'a switch \<Rightarrow> rect" where
  "indicatorRect sw =
     (let w = indicator_width (swStyle sw); h = ssHeight (swStyle sw) in
      if swLtr sw then \<lparr>rX = 0, rY = 0, rW = of_int w, rH = of_int h\<rparr>
      else \<lparr>rX = of_int (fst (swSize sw) - w), rY = 0, rW = of_int w, rH = of_int h\<rparr>)"

definition textRect :: "'a switch \<Rightarrow> rect" where
  "textRect sw =
     (let w = indicator_width (swStyle sw);
          r = \<lparr>rX = 0, rY = 0, rW = of_int (fst (swSize sw)), rH = of_int (snd (swSize sw))\<rparr> in
      if swLtr sw then marginsRemoved \<lparr>mLeft = w, mTop = 0, mRight = 0, mBottom = 0\<rparr> r
      else marginsRemoved \<lparr>mLeft = 0, mTop = 0, mRight = w, mBottom = 0\<rparr> r)"

text \<open>\<open>textw\<close> is the width of the text in the font of the widget.\<close>

definition sizeHint :: "(string \<Rightarrow> int) \<Rightarrow> 'a switch \<Rightarrow> int \<times> int" where
  "sizeHint textw sw = (indicator_width (swStyle sw) + textw (swText sw), ssHeight (swStyle sw))"

definition sw_resize :: "int \<times> int \<Rightarrow> 'a switch \<Rightarrow> 'a switch" where
  "sw_resize sz sw = sw\<lparr>swShadow := Some (drawShadowEllipse THUMB_RADIUS SHADOW_ELEVATION (QColor 0 0 0 70)), swSize := sz\<rparr>"

datatype draw =
    DRounded rat qvariant rect rat
  | DPixmap "rat \<times> rat" shadow
  | DEllipse rat qvariant "rat \<times> rat" rat
  | DText rat qcolor "string \<times> int" rect string

text \<open>The first number of each call is the opacity of the painter.\<close>

definition paint_parts :: "'a switch \<Rightarrow> rat \<Rightarrow> qvariant \<Rightarrow> rect \<Rightarrow> rat \<Rightarrow> qvariant \<Rightarrow> rat \<Rightarrow> qcolor \<Rightarrow> draw list" where
  "paint_parts sw trackOpacity track trackRect x thumb textOpacity textColor =
     (let c = centre (setX x trackRect) in
      [DRounded trackOpacity track trackRect CORNER_RADIUS]
      @ (case swShadow sw of None \<Rightarrow> [] | Some px \<Rightarrow> [DPixmap (fst c - THUMB_RADIUS, snd c - (THUMB_RADIUS - 1)) px])
      @ [DEllipse 1 thumb c (THUMB_RADIUS - SHADOW_ELEVATION - 1)]
      @ (if swText sw = [] then [] else [DText textOpacity textColor (swFont sw) (textRect sw) (swText sw)]))"

definition sw_paint :: "'a qva \<Rightarrow> 'a switch \<Rightarrow> draw list" where
  "sw_paint q sw =
     (let st = swStyle sw; m = ssMargin st; trackMargin = m\<lparr>mTop := mTop m + 2, mBottom := mBottom m + 2\<rparr>;
          trackRect = marginsRemoved trackMargin (indicatorRect sw);
          step = of_int (mLeft trackMargin) + of_int (mRight trackMargin)
      in if swEnabled sw
         then paint_parts sw 1 (an_value q (swTrackBrush sw)) trackRect
                (rX trackRect - step - 2 + of_int (toIntV (an_value q (swThumbPos sw))))
                (an_value q (swThumbBrush sw)) 1 (fst (swPalette sw))
         else paint_parts sw (ssTrackDisabledOpacity st) (QCol (ssTrackDisabled st)) trackRect
                (if \<not> swChecked sw then rX trackRect - step - 2 else rX trackRect + step + 2)
                (QCol (ssThumbDisabled st)) (ssDisabledTextOpacity st) (snd (swPalette sw)))"

subsection \<open>Sequences of events\<close>

text \<open>A time step of the animations of a switch: a running one goes on and tells the widget.\<close>

definition an_tick :: "'a qva \<Rightarrow> bool \<Rightarrow> 'a animator \<Rightarrow> 'a animator" where
  "an_tick q acc a = (if an_isRunning q a then an_updateCurrentValue q acc (a\<lparr>anQt := qa_tick q (anQt a)\<rparr>) else a)"

datatype sw_op = Click | SetChecked bool | SetEnabled bool | SetVisible bool | SetLtr bool | SetText string | Resize int int | Tick

fun sw_do :: "'a qva \<Rightarrow> (bool \<Rightarrow> bool) \<Rightarrow> sw_op \<Rightarrow> 'a switch \<Rightarrow> 'a switch" where
  "sw_do q acc Click sw = (if swEnabled sw then nextCheckState q acc sw else sw)"
| "sw_do q acc (SetChecked b) sw = setChecked q acc b sw"
| "sw_do q acc (SetEnabled b) sw = sw\<lparr>swEnabled := b\<rparr>"
| "sw_do q acc (SetVisible b) sw = sw\<lparr>swVisible := b\<rparr>"
| "sw_do q acc (SetLtr b) sw = sw\<lparr>swLtr := b\<rparr>"
| "sw_do q acc (SetText t) sw = sw\<lparr>swText := t\<rparr>"
| "sw_do q acc (Resize w h) sw = sw_resize (w, h) sw"
| "sw_do q acc Tick sw = (let t = an_tick q (acc (swVisible sw)) in
     sw\<lparr>swThumbBrush := t (swThumbBrush sw), swTrackBrush := t (swTrackBrush sw), swThumbPos := t (swThumbPos sw)\<rparr>)"

definition moving :: "'a qva \<Rightarrow> 'a switch \<Rightarrow> bool" where
  "moving q sw = (an_isRunning q (swThumbBrush sw) \<or> an_isRunning q (swTrackBrush sw) \<or> an_isRunning q (swThumbPos sw))"

text \<open>The switch is not hidden while it moves.\<close>

fun steady :: "'a qva \<Rightarrow> (bool \<Rightarrow> bool) \<Rightarrow> sw_op list \<Rightarrow> 'a switch \<Rightarrow> bool" where
  "steady q acc [] sw = True"
| "steady q acc (c # cs) sw = ((c = SetVisible False \<longrightarrow> \<not> moving q sw) \<and> steady q acc cs (sw_do q acc c sw))"

text \<open>What the documentation of QVariantAnimation says: between two equal values the current value is that value; start
  keeps the end value and runs, if the states reach Qt's updateState, until the current value is the end value; stop
  keeps both.\<close>

definition at_end :: "'a qva \<Rightarrow> 'a \<Rightarrow> bool" where
  "at_end q a = (qa_state q a = Running \<or> qa_current q a = qa_end q a)"

definition qt_anim :: "'a qva \<Rightarrow> bool" where
  "qt_anim q =
     (qa_current q (qa_new q) = QInvalid \<and> qa_end q (qa_new q) = QInvalid \<and> qa_state q (qa_new q) = Stopped
      \<and> (\<forall>n a. qa_end q (qa_setDuration q n a) = qa_end q a \<and> qa_current q (qa_setDuration q n a) = qa_current q a
            \<and> qa_state q (qa_setDuration q n a) = qa_state q a)
      \<and> (\<forall>e a. qa_end q (qa_setEasing q e a) = qa_end q a \<and> qa_current q (qa_setEasing q e a) = qa_current q a
            \<and> qa_state q (qa_setEasing q e a) = qa_state q a)
      \<and> (\<forall>x y a. qa_current q (qa_setEnd q x (qa_setStart q x a)) = x \<and> qa_end q (qa_setEnd q x a) = x
            \<and> qa_state q (qa_setEnd q x (qa_setStart q y a)) = qa_state q a)
      \<and> (\<forall>u a. (\<forall>new old y. u new old y = qa_updateState q new old y) \<longrightarrow>
            qa_end q (qa_start q u a) = qa_end q a \<and> at_end q (qa_start q u a))
      \<and> (\<forall>a. qa_end q (qa_stop q a) = qa_end q a \<and> qa_current q (qa_stop q a) = qa_current q a \<and> qa_state q (qa_stop q a) = Stopped)
      \<and> (\<forall>a. qa_state q a = Running \<longrightarrow> qa_end q (qa_tick q a) = qa_end q a \<and> at_end q (qa_tick q a)))"

lemma qt_animD:
  assumes "qt_anim q"
  shows "qa_current q (qa_new q) = QInvalid" "qa_end q (qa_new q) = QInvalid" "qa_state q (qa_new q) = Stopped"
    and "qa_end q (qa_setDuration q n a) = qa_end q a" "qa_current q (qa_setDuration q n a) = qa_current q a"
    and "qa_state q (qa_setDuration q n a) = qa_state q a" "qa_end q (qa_setEasing q e a) = qa_end q a"
    and "qa_current q (qa_setEasing q e a) = qa_current q a" "qa_state q (qa_setEasing q e a) = qa_state q a"
    and "qa_current q (qa_setEnd q x (qa_setStart q x a)) = x" "qa_end q (qa_setEnd q x a) = x"
    and "qa_state q (qa_setEnd q x (qa_setStart q y a)) = qa_state q a"
    and "(\<And>new old y. u new old y = qa_updateState q new old y) \<Longrightarrow> qa_end q (qa_start q u a) = qa_end q a \<and> at_end q (qa_start q u a)"
    and "qa_end q (qa_stop q a) = qa_end q a" "qa_current q (qa_stop q a) = qa_current q a" "qa_state q (qa_stop q a) = Stopped"
    and "qa_state q a = Running \<Longrightarrow> qa_end q (qa_tick q a) = qa_end q a \<and> at_end q (qa_tick q a)"
  using assms unfolding qt_anim_def by blast+

subsection \<open>The animations end where the state says\<close>

text \<open>An animation of the widget on its way to a value.\<close>

definition goes_to :: "'a qva \<Rightarrow> 'a animator \<Rightarrow> qvariant \<Rightarrow> bool" where
  "goes_to q a x = (anTarget a \<noteq> None \<and> qa_end q (anQt a) = x \<and> at_end q (anQt a))"

lemma goes_to_interpolate: "qt_anim q \<Longrightarrow> anTarget a \<noteq> None \<Longrightarrow> goes_to q (an_interpolate q s e a) e"
  using qt_animD(13)[of q "an_updateState q (anTarget a)" "qa_setEnd q e (qa_setStart q s (anQt a))"] qt_animD(11)[of q e]
  by (auto simp: goes_to_def an_interpolate_def an_updateState_def)

lemma goes_to_setCurrentValue:
  "qt_anim q \<Longrightarrow> anTarget a \<noteq> None \<Longrightarrow> goes_to q (an_setCurrentValue q acc x a) x"
  "qt_anim q \<Longrightarrow> \<not> an_isRunning q a \<Longrightarrow> \<not> an_isRunning q (an_setCurrentValue q acc x a)"
  by (auto simp: goes_to_def an_setCurrentValue_def an_updateCurrentValue_def at_end_def an_isRunning_def qt_animD)

lemma goes_to_tick: "qt_anim q \<Longrightarrow> goes_to q a x \<Longrightarrow> goes_to q (an_tick q True a) x"
  using qt_animD(17)[of q "anQt a"] by (auto simp: goes_to_def an_tick_def an_updateCurrentValue_def an_isRunning_def)

lemma goes_to_still: "qt_anim q \<Longrightarrow> goes_to q (still q x s t) x"
  by (simp add: goes_to_def still_def an_setup_def an_new_def an_setTargetObject_def an_isRunning_def at_end_def qt_animD Let_def)

lemma not_running_start: "qt_anim q \<Longrightarrow> \<not> moving q (sw_init q t)"
  by (simp add: moving_def sw_init_def still_def an_setup_def an_new_def an_setTargetObject_def an_isRunning_def qt_animD Let_def)

definition sw_ok :: "'a qva \<Rightarrow> switch_style \<Rightarrow> 'a switch \<Rightarrow> bool" where
  "sw_ok q st sw =
     (let cols = (if swChecked sw then on_colors st else off_colors st) in
      swStyle sw = st \<and> swFont sw = ssFont st \<and> swPalette sw = (ssTextColor st, ssTextColor st)
      \<and> goes_to q (swThumbBrush sw) (fst cols) \<and> goes_to q (swTrackBrush sw) (snd cols)
      \<and> (\<exists>x. goes_to q (swThumbPos sw) x
           \<and> toIntV x = (if swChecked sw then (mLeft (ssMargin st) + mRight (ssMargin st) + 2) * 2 else 0))
      \<and> (swSignals sw \<noteq> [] \<longrightarrow> last (swSignals sw) = checkState sw)
      \<and> (swVisible sw \<or> \<not> moving q sw))"

lemma sw_ok_checkStateSet:
  assumes "qt_anim q" "sw_ok q st sw"
  shows "sw_ok q st (checkStateSet q acc (sw\<lparr>swChecked := b\<rparr>))"
  using assms(2)
  by (auto simp: sw_ok_def checkStateSet_def checkState_def sw_toggle_def Let_def split_beta goes_to_interpolate[OF assms(1)]
      goes_to_setCurrentValue[OF assms(1)] moving_def goes_to_def[of q "swThumbPos sw"] goes_to_def[of q "swThumbBrush sw"]
      goes_to_def[of q "swTrackBrush sw"] intro!: exI[of _ "QInt _"])

lemma sw_ok_tick:
  assumes "qt_anim q" "acc True" "sw_ok q st sw"
  shows "sw_ok q st (sw_do q acc Tick sw)"
proof (cases "swVisible sw")
  case True
  then show ?thesis using assms(2,3) goes_to_tick[OF assms(1)] by (auto simp: sw_ok_def Let_def checkState_def) blast+
next
  case False
  then have "an_tick q b (swThumbBrush sw) = swThumbBrush sw" "an_tick q b (swTrackBrush sw) = swTrackBrush sw"
    "an_tick q b (swThumbPos sw) = swThumbPos sw" for b using assms(3) by (auto simp: sw_ok_def moving_def an_tick_def Let_def)
  then show ?thesis using assms(3) by (simp add: Let_def)
qed

lemma sw_ok_do:
  assumes "qt_anim q" "acc True" "sw_ok q st sw" "c = SetVisible False \<longrightarrow> \<not> moving q sw"
  shows "sw_ok q st (sw_do q acc c sw)"
proof (cases c)
  case Tick
  then show ?thesis using sw_ok_tick[of q acc st sw] assms(1-3) by simp
qed (use assms(3,4) sw_ok_checkStateSet[OF assms(1,3)] in
  \<open>auto simp: nextCheckState_def setChecked_def sw_ok_def checkState_def moving_def sw_resize_def Let_def\<close>)

lemma sw_ok_runs:
  "qt_anim q \<Longrightarrow> acc True \<Longrightarrow> sw_ok q st sw \<Longrightarrow> steady q acc cs sw \<Longrightarrow> sw_ok q st (fold (sw_do q acc) cs sw)"
  by (induction cs arbitrary: sw) (simp_all add: sw_ok_do)

definition brush_style :: "qcolor \<Rightarrow> switch_style" where
  "brush_style color = style_new\<lparr>ssThumbOn := color, ssTrackOn := color\<rparr>"

lemma goes_to_new: "qt_anim q \<Longrightarrow> goes_to q (an_setup q s (an_new q (Some t))) QInvalid"
  by (simp add: goes_to_def an_setup_def an_new_def an_setTargetObject_def an_isRunning_def at_end_def qt_animD)

lemma sw_ok_new: "qt_anim q \<Longrightarrow> sw_ok q (brush_style color) (sw_new_brush q t text color)"
  using not_running_start[of q t] goes_to_still[of q] goes_to_new[of q]
  by (auto simp: sw_ok_def sw_new_brush_def sw_new_text_def sw_init_def brush_style_def style_new_def off_colors_def moving_def Let_def
      intro!: exI[of _ QInvalid])

lemma sw_at_rest:
  assumes "sw_ok q st sw" "\<not> moving q sw"
  shows "swStyle sw = st" "swFont sw = ssFont st" "swPalette sw = (ssTextColor st, ssTextColor st)"
    and "an_value q (swThumbBrush sw) = fst (if swChecked sw then on_colors st else off_colors st)"
    and "an_value q (swTrackBrush sw) = snd (if swChecked sw then on_colors st else off_colors st)"
    and "toIntV (an_value q (swThumbPos sw)) = (if swChecked sw then (mLeft (ssMargin st) + mRight (ssMargin st) + 2) * 2 else 0)"
    and "swSignals sw \<noteq> [] \<longrightarrow> last (swSignals sw) = checkState sw"
  using assms by (auto simp: sw_ok_def goes_to_def at_end_def moving_def an_isRunning_def Let_def)

text \<open>The picture of a switch at rest, without animations.\<close>

definition rest_picture :: "qcolor \<Rightarrow> bool \<Rightarrow> bool \<Rightarrow> bool \<Rightarrow> int \<times> int \<Rightarrow> string \<Rightarrow> shadow option \<Rightarrow> draw list" where
  "rest_picture color checked enabled ltr sz text px =
     (let x0 = (if ltr then 0 else of_int (fst sz) - 52); x = x0 + (if checked then 35 else 17);
          st = brush_style color; (thumb, track) = (if checked then on_colors st else off_colors st)
      in [DRounded (if enabled then 1 else 12 / 100) (if enabled then track else QCol BLACK)
            \<lparr>rX = x0 + 8, rY = 10, rW = 36, rH = 16\<rparr> 8]
         @ (case px of None \<Rightarrow> [] | Some p \<Rightarrow> [DPixmap (x - 29 / 2, 9 / 2) p])
         @ [DEllipse 1 (if enabled then thumb else QCol GRAY400) (x, 18) (23 / 2)]
         @ (if text = [] then [] else [DText (if enabled then 1 else 26 / 100) BLACK (''Roboto medium'', 13)
              \<lparr>rX = (if ltr then 52 else 0), rY = 0, rW = of_int (fst sz) - 52, rH = of_int (snd sz)\<rparr> text]))"

subsection \<open>Properties\<close>

text \<open>C39: after any clicks, setChecked calls, changes of the widget and time steps of the animations that do not hide it
  while it moves, a switch whose animations are over paints its check state: track, thumb and text of a closed form of the state,
  the thumb at the same place whether the switch is enabled or not and inside the indicator, and the last stateChanged was this state.\<close>

theorem switch_paints_its_state:
  assumes "qt_anim q" "acc True" "steady q acc cs (sw_new_brush q t text color)"
    and "sw = fold (sw_do q acc) cs (sw_new_brush q t text color)" "\<not> moving q sw"
  shows "sw_paint q sw = rest_picture color (swChecked sw) (swEnabled sw) (swLtr sw) (swSize sw) (swText sw) (swShadow sw)
     \<and> (swSignals sw \<noteq> [] \<longrightarrow> last (swSignals sw) = checkState sw)"
proof -
  have ok: "sw_ok q (brush_style color) sw"
    unfolding assms(4) by (rule sw_ok_runs[OF assms(1,2) sw_ok_new[OF assms(1)] assms(3)])
  note r = sw_at_rest[OF ok assms(5)]
  have "sw_paint q sw = rest_picture color (swChecked sw) (swEnabled sw) (swLtr sw) (swSize sw) (swText sw) (swShadow sw)"
    unfolding sw_paint_def Let_def r(1,3-6)
    by (auto simp: paint_parts_def rest_picture_def indicatorRect_def indicator_width_def textRect_def marginsRemoved_def setX_def centre_def
        r(1,2) brush_style_def style_new_def THUMB_RADIUS_def SHADOW_ELEVATION_def CORNER_RADIUS_def Let_def split_beta field_simps
        split: option.split)
  with r(7) show ?thesis by blast
qed

type_synonym demo_anim = "anim_state \<times> qvariant \<times> qvariant \<times> qvariant"

text \<open>Animations of one time step: state, start, end and current value.\<close>

definition demo_qva :: "demo_anim qva" where
  "demo_qva = \<lparr>qa_new = (Stopped, QInvalid, QInvalid, QInvalid), qa_setDuration = \<lambda>n a. a, qa_setEasing = \<lambda>e a. a,
     qa_setStart = \<lambda>x (s, b, e, c). (s, x, e, x), qa_setEnd = \<lambda>x (s, b, e, c). (s, b, x, b),
     qa_start = \<lambda>u (s, b, e, c). (Running, b, e, b), qa_stop = \<lambda>(s, b, e, c). (Stopped, b, e, c),
     qa_tick = \<lambda>(s, b, e, c). (Stopped, b, e, e), qa_updateState = \<lambda>new old a. a,
     qa_state = fst, qa_current = \<lambda>(s, b, e, c). c, qa_end = \<lambda>(s, b, e, c). e\<rparr>"

lemma demo_qva_anim: "qt_anim demo_qva"
  by (simp add: qt_anim_def demo_qva_def at_end_def split_beta)

theorem switch_paints_its_state_witness:
  "let ops = [Resize 100 36, SetVisible True, Click, Tick, SetEnabled False];
       sw = fold (sw_do demo_qva (\<lambda>b. b)) ops (sw_new_brush demo_qva 1 ''on'' GRAY50) in
     swChecked sw \<and> swSignals sw = [Checked]
     \<and> sw_paint demo_qva sw = rest_picture GRAY50 True False True (100, 36) ''on'' (swShadow sw)"
proof -
  let ?ops = "[Resize 100 36, SetVisible True, Click, Tick, SetEnabled False]"
  let ?sw0 = "sw_new_brush demo_qva 1 ''on'' GRAY50" and ?acc = "\<lambda>b :: bool. b"
  define sw where "sw = fold (sw_do demo_qva ?acc) ?ops ?sw0"
  note defs = sw_new_brush_def sw_new_text_def sw_init_def style_new_def still_def an_setup_def an_new_def an_setTargetObject_def
    an_isRunning_def demo_qva_def sw_resize_def nextCheckState_def checkStateSet_def checkState_def sw_toggle_def an_interpolate_def
    an_tick_def an_updateCurrentValue_def Let_def
  have rest: "\<not> moving demo_qva sw" "swChecked sw" "\<not> swEnabled sw" "swLtr sw" "swSize sw = (100, 36)" "swText sw = ''on''" "swSignals sw = [Checked]"
    by (simp_all add: sw_def moving_def defs split_beta)
  have "steady demo_qva ?acc ?ops ?sw0" by (simp add: moving_def)
  from switch_paints_its_state[OF demo_qva_anim _ this sw_def rest(1)] rest(2-6)
  have "sw_paint demo_qva sw = rest_picture GRAY50 True False True (100, 36) ''on'' (swShadow sw)" by simp
  with rest(2,7) show ?thesis unfolding Let_def sw_def[symmetric] by blast
qed

text \<open>A widget that is not visible does not accept the event, which stops its animations where they are: a switch
  hidden while it moves keeps a value between the two states, also when it is shown again.\<close>

lemma hidden_switch_stays_between:
  assumes "qt_anim q" "\<not> acc False" "an_isRunning q (swThumbPos sw)" "anTarget (swThumbPos sw) \<noteq> None"
    and "x = qa_current q (qa_tick q (anQt (swThumbPos sw)))"
  shows "let sw' = fold (sw_do q acc) [SetVisible False, Tick, SetVisible True, Tick] sw in
     an_value q (swThumbPos sw') = x \<and> \<not> an_isRunning q (swThumbPos sw')"
  using assms by (simp add: an_tick_def an_updateCurrentValue_def an_isRunning_def qt_animD Let_def)

text \<open>setChecked of the state the switch is in reports a change and runs the animation again from its start.\<close>

lemma setChecked_again:
  assumes "swVisible sw" "swChecked sw"
  shows "swSignals (setChecked q acc True sw) = swSignals sw @ [Checked]
     \<and> (\<exists>e. swThumbPos (setChecked q acc True sw) = an_interpolate q (QInt 0) e (swThumbPos sw))"
  using assms by (auto simp: setChecked_def checkStateSet_def checkState_def sw_toggle_def Let_def split_beta)

end
