(* ===== verification/Spec2Isabelle.thy ===== *)
theory Spec2Isabelle
  imports Ex_Prelude Std_Map X_String X_Format Event_Queue Module_Base Module_Manager Packet Tcp_Socket Network Ext_File Uuid_V4 Sqlite_Mgr Ipc_Win Tls_Socket Win_Service Win_Session Ipc_Unix Ipc_Typed Loading_Circle Network_Threads Queue_Threads Manager_Refine Ipc_Calls Network_Server Network_Sockets Ipc_Stop X_Search X_Text Unix_Handles Win_Handles Win_Send Net_Calls Sqlite_Handles Qt_Switch
begin

text \<open>
  ExLibs: a model of the C++ library ExLibs, with proofs of what its components do.

  \<^bold>\<open>The program.\<close> ExLibs is a set of helpers for desktop programs. Class XString (String/) wraps
  std::wstring and is used by everything else; Ext::Format formats texts. Ext::Module (Module/) is
  the framework: a program's parts derive from cModuleBase, a cModuleManager (reached through
  Singleton) registers and notifies them from a thread that takes its work from an eventQueue
  (Util/ExDataStruct.hpp). Ext::Network (Network/) is a client and server for size-prefixed
  packets on top of the TCP sockets of Network/include/Socket, again with receive threads and
  eventQueues; cNetworkModule puts it into the module framework, and TLS sockets wrap the TCP ones.
  Ext::IPC (IPC/) passes requests between processes, with one implementation for Windows and one for
  Unix; Ext::SQLite manages named databases; Windows/ controls services and starts processes in the
  user's session; Ext::File and Ext::Util deal with paths, random numbers and UUIDs; QT/ has two widgets.

  \<^bold>\<open>The theories\<close>, in the order they build on one another:

  \<^item> \<open>Ex_Prelude\<close>: byte, wchar_t and word types, the failures a call can end in (\<open>cpp_error\<close>),
    size_t, short and int conversions, literals, generic list lemmas.
  \<^item> \<open>Std_Map\<close>: std::map as a sorted association list. Its locale \<open>ordered_map\<close> is the interface the
    clients rely on and \<open>smap\<close> its interpretation.
  \<^item> \<open>X_String\<close>: String/EXString.hpp/.cpp and String/EXConverter.cpp, one definition per constructor,
    operator and method (split, replaceAll, count, substr, toInt, ...), over lists of 16 bit units. \<open>X_Search\<close> has
    the set of positions the searching members are measured against, \<open>X_Text\<close> the C strings of the converter, the
    overloads for doubles and streams and the order.
  \<^item> \<open>X_Format\<close>: String/EXFormat.hpp; the four blocks of the loop of format_trans are four
    definitions, composed in \<open>fmt_step\<close>.
  \<^item> \<open>Event_Queue\<close>: eventQueue of Util/ExDataStruct.hpp and of IPC/EXIPC_unix.h, the operations as
    functions of the queue and the waiting threads as a step relation. The locales \<open>event_queue\<close>
    and \<open>stoppable_queue\<close> are interpreted by both classes (\<open>exq\<close>, \<open>unq\<close>). \<open>Queue_Threads\<close>: the same
    queue at the level of its mutex and condition variable.
  \<^item> \<open>Module_Base\<close>: Module/EXModuleBase.cpp, the state machine of a module with its virtual functions
    as optional functions of the module, and the race of two threads in ModuleInit;
    Network/EXNetworkModule.cpp as an instance.
  \<^item> \<open>Module_Manager\<close>: Module/EXModuleManager.cpp with its shared_mutex, map and notification thread,
    and Base/Singleton.hpp. \<open>Manager_Refine\<close>: the abstract registry a manager implements and the simulation.
  \<^item> \<open>Packet\<close>: convertSendMsg, convertReceiveMsg and ExtractPacketData of Network/EXNetwork.cpp.
  \<^item> \<open>Tcp_Socket\<close>: Network/include/Socket/Socket.cpp, TCPClient.cpp and TCPServer.cpp over the
    record \<open>os\<close> of the socket calls.
  \<^item> \<open>Tls_Socket\<close>: SecureSocket.cpp, TCPSSLClient.cpp and TCPSSLServer.cpp over the record \<open>ossl\<close> of the
    OpenSSL calls. The locale \<open>sending_loop\<close> of \<open>Tcp_Socket\<close>, a loop that sends until all is sent, is interpreted
    by the loops of both layers (\<open>tcp\<close>, \<open>tls\<close>).
  \<^item> \<open>Network\<close>: cNetwork, cNetworkServerReceive and cNetworkServerReceiveHandler of
    Network/EXNetwork.cpp: the client and server operations, one round of each thread's loop, the
    promises of SendAndWait, and the threads of DisConnect as a step relation. \<open>Network_Threads\<close>: any number
    of SendAndWait and Send calls and the client's receive thread, interleaved at their atomic actions.
    \<open>Network_Server\<close>: a server over all its operations and thread rounds in any order, with the invariant of its
    map of clients. \<open>Network_Sockets\<close>: which descriptors a client and a server have open. \<open>Net_Calls\<close>: a client and a
    server at the two ends of a connection, and a SendAndWait through both.
  \<^item> \<open>Ext_File\<close>: Util/EXFile.cpp and the small utilities of Util/EXUtil.hpp.
  \<^item> \<open>Uuid_V4\<close>: Util/UUID/uuid_v4.h with its vector instructions and Util/UUID/endianness.h.
  \<^item> \<open>Ipc_Win\<close>: IPC/EXIPC.cpp, requests and responses over named shared memory: the client's SendIPC
    with its two polling loops and the loops of the server threads, as steps over the kernel's named
    objects. SendIPC takes what the rest of the system does during its sleeps as a function.
    \<open>Ipc_Typed\<close> has all these steps as one relation and the shape of the shared state as its invariant;
    \<open>Ipc_Calls\<close> is the sequence of the calls of a client, refining a remote procedure call, \<open>Ipc_Stop\<close> the
    destructor of the server with the threads it joins, \<open>Win_Handles\<close> the handles of its mapping and
    mutexes, \<open>Win_Send\<close> those of SendIPC on every way out.
  \<^item> \<open>Ipc_Unix\<close>: IPC/EXIPC_unix.cpp in the same way over POSIX shared memory, with mapIPC, CreateIPC,
    DestroyIPC and the threads a server's destructor waits for. \<open>Unix_Handles\<close>: the classes that own descriptors,
    semaphores and mappings, and what CreateIPC and DestroyIPC leave open, over the record \<open>uh\<close> of the system calls.
  \<^item> \<open>Win_Service\<close>: Windows/EXService.cpp over the record \<open>scm\<close>. The locale \<open>handle_owner\<close> is the contract of
    handles that close themselves, \<open>owning\<close> (ScHandle) its interpretation. \<open>Win_Session\<close>:
    Windows/EXSession.cpp and TerminateProcessById over the record \<open>tok\<close>.
  \<^item> \<open>Loading_Circle\<close>: QT/EXQLoadingCircle.cpp, its state and what it draws.
  \<^item> \<open>Qt_Switch\<close>: QT/ExQtSwitch.cpp, a switch with its animations, over the record \<open>qva\<close> of Qt's animation calls.
  \<^item> \<open>Sqlite_Mgr\<close>: SQLite/EXSQLite.cpp over the record \<open>sqlite\<close> of the sqlite3 calls. \<open>Sqlite_Handles\<close>: the
    connections a manager has open.

  \<^bold>\<open>Conventions.\<close> An object is a record of its members; a method takes the object and returns its
  result and the changed object. A call that can throw, block for ever on its own lock or touch
  memory outside an object returns \<open>Inl\<close> with the \<open>cpp_error\<close>. A loop of the sources that may never
  end is a \<open>partial_function (option)\<close> and \<open>None\<close> is its not returning; a call that waits (DeQueue
  on an empty queue) is \<open>None\<close> as well. So there is no fuel (the polling loops of SendIPC count down the
  passes the code allows): the theorems that say that a call returns
  state that its value is \<open>Some\<close>, with the value, and those about hanging calls that it is
  \<open>None\<close>. int, short, size_t and the unsigned types have their width (size_t and int64_t 64, int 32, wchar_t
  16 as on Windows). Threads are inductive step relations over the system state, and statements
  about all interleavings go by rule induction over the reachable states.

  \<^bold>\<open>Parameters\<close> stand for what is not in the repository: the socket calls (\<open>os\<close>), the file system
  (\<open>fs\<close>), the processes, sqlite3 (\<open>sqlite\<close>), OpenSSL (\<open>ossl\<close>), the service manager and the token calls of Windows (\<open>scm\<close>,
  \<open>tok\<close>), the answers of a Unix system (\<open>ukernel\<close>), the JSON library, the code page conversions \<open>mb2wc\<close> and \<open>wc2mb\<close>, the
  random numbers, and the overrides and callbacks of client programs. Where a theorem needs more of them than their type
  (\<open>streams\<close>: a stream socket delivers the bytes of the stream in order, in pieces of any size; the ledgers
  \<open>ssl_ledger\<close>, \<open>sc_ledger\<close>, \<open>tok_ledger\<close>, \<open>sock_ledger\<close>, \<open>uh_ledger\<close>, \<open>wk_ledger\<close>, \<open>sql_ledger\<close>: which calls make and end objects) it is a named hypothesis, shown to be satisfiable by the theorem's witness.

  \<^bold>\<open>What is shown.\<close> XString: split returns the pieces whose joining gives the string back, replaceAll is
  split and join, toInt inverts the conversion from int, the searching
  members agree on the positions they search for; both split and replaceAll never
  return on the inputs named. Format: sequential placeholders print the arguments in order; the
  malformed formats that hang it or make it read outside its buffer. Queues: first in first out for any
  sequence of operations, and in every interleaving of its threads without losing a wake-up; what Stop does
  to waiting threads. Modules: every sequence of calls follows
  the life cycle automaton and runs exactly the admitted overrides, when the destructor calls a pure
  virtual function, and that two threads can both run moduleInit. Manager: registration, dispatch of a
  notification to exactly the started modules of its group, the refinement of an abstract registry by every
  history of calls, the calls that deadlock. Packets and
  sockets: the packet round trip, Send delivering all bytes under partial sends, and what Receive loses or
  overwrites. Network: SendAndWait gets the first reply with its id whatever else arrives, or times
  out and cleans up; in every interleaving of its callers no reply goes to the wrong one and no request
  stays in the map; which packets reach the handlers; what a whole call makes of request and answer; the map of clients of a server is well-formed after any operations, so that no
  null pointer is used; on systems other than Windows neither a client nor a server leaks a descriptor; the
  hang of DisConnect. UUIDs: the
  vectorised printing and parsing are inverse and canonical, generated ones are of version 4. SQLite:
  InitDB's result and its transaction on every answer of the library, and that a manager accounts for its connections. IPC: small requests are
  remote procedure calls, answered one after the other as the callback would; large requests are sent without their bytes, stale names lose replies, a client
  that times out costs the server a thread, and mutex handles, but no mappings or views of a SendIPC, are left open; the shared state keeps its shape through all steps. The
  Unix one delivers requests of up to a page inside one process, but no response data, nothing between
  processes, and its servers cannot be destroyed; its CreateIPC and DestroyIPC leave no descriptor open, but a mapping
  each, and a semaphore closed that is in use. TLS: messages arrive whole however OpenSSL cuts them,
  and the client's objects are freed but for one case. Windows: no sequence of service calls and no way out of
  the process launch leaks a handle; waiting for a service ends in time; what is registered is read
  back. Loading circle: the animation in closed form; switch: what it paints at rest, in closed form of its check state. The properties are marked C1, C2, ... in the text
  before them; weaker facts about the code, several of them faults, are lemmas of the theories.

  \<^bold>\<open>Not modelled.\<close> The vendored sqlite3, nlohmann::json and qtservice, the Qt conversions of XString, the arithmetic and printing of floating-point
  numbers (a parameter; exact in the switch), the handles of the worker loop of the Windows IPC server, log texts, and memory reclamation except where a destructor does more than free.
\<close>

end
